(* ===== verification/Prelude.thy ===== *)
theory Prelude
  imports Main "HOL-Library.Word"
begin

unbundle bit_operations_syntax

text \<open>
  What every component shares: names for the machine integers of the program, the
  little-endian reads and writes it performs through \<open>reinterpret_cast\<close>, and a few
  generic facts on words and lists.

  The program is built for 64-bit x86 (readme.md: Ubuntu 20.04 64-bit), so multi-byte
  integers are little-endian, \<open>char\<close> is signed and 8 bits wide, and \<open>size_t\<close> has
  64 bits. A signed and an unsigned integer of the same width are the same word; where
  the sign is read the model uses \<open>sint\<close>.
\<close>

section \<open>Machine integers\<close>

type_synonym u8 = "8 word"
type_synonym u16 = "16 word"
type_synonym u32 = "32 word"
type_synonym u64 = "64 word"

named_theorems bytes_simps \<open>reads and writes of little-endian integers\<close>

section \<open>Little-endian integers in byte lists\<close>

definition le16 :: "u16 \<Rightarrow> u8 list" where
  "le16 w = [ucast w, ucast (drop_bit 8 w)]"

definition le32 :: "u32 \<Rightarrow> u8 list" where
  "le32 w = [ucast w, ucast (drop_bit 8 w), ucast (drop_bit 16 w), ucast (drop_bit 24 w)]"

text \<open>\<open>*reinterpret_cast<const uint16_t*>(p + i)\<close> and its 32-bit counterpart.\<close>

definition read16 :: "u8 list \<Rightarrow> nat \<Rightarrow> u16" where
  "read16 bs i = ucast (bs ! i) OR push_bit 8 (ucast (bs ! (i + 1)))"

definition read32 :: "u8 list \<Rightarrow> nat \<Rightarrow> u32" where
  "read32 bs i = ucast (bs ! i) OR push_bit 8 (ucast (bs ! (i + 1)))
     OR push_bit 16 (ucast (bs ! (i + 2))) OR push_bit 24 (ucast (bs ! (i + 3)))"

text \<open>A store through such a pointer overwrites the bytes in place.\<close>

definition write_at :: "u8 list \<Rightarrow> nat \<Rightarrow> u8 list \<Rightarrow> u8 list" where
  "write_at bs i xs = take i bs @ xs @ drop (i + length xs) bs"

lemma bit_u8_beyond [simp]: "8 \<le> n \<Longrightarrow> \<not> bit (b :: u8) n"
  using bit_imp_le_length [of b n] by auto

text \<open>The masks of the program, bit by bit.\<close>

lemma bit_masks [bytes_simps]:
  "bit (0x7F :: int) n \<longleftrightarrow> n < 7" "bit (0xFF :: int) n \<longleftrightarrow> n < 8"
  "bit (0x7FFF :: int) n \<longleftrightarrow> n < 15" "bit (0x80 :: int) n \<longleftrightarrow> n = 7"
  using bit_mask_iff [of 7 n, where 'a = int] bit_mask_iff [of 8 n, where 'a = int]
    bit_mask_iff [of 15 n, where 'a = int] bit_exp_iff [of 7 n, where 'a = int]
  by (auto simp: mask_eq_exp_minus_1)

lemma length_le16 [simp]: "length (le16 w) = 2"
  by (simp add: le16_def)

lemma length_le32 [simp]: "length (le32 w) = 4"
  by (simp add: le32_def)

lemma read16_bytes [bytes_simps]:
  "read16 [ucast (w :: u16), ucast (drop_bit 8 w)] 0 = w"
  unfolding read16_def
  by (rule bit_word_eqI) (auto simp add: bit_simps)

lemma read32_bytes [bytes_simps]:
  "read32 [ucast (w :: u32), ucast (drop_bit 8 w), ucast (drop_bit 16 w), ucast (drop_bit 24 w)] 0 = w"
proof (rule bit_word_eqI)
  fix n :: nat
  assume "n < LENGTH(32)"
  then consider "n < 8" | "8 \<le> n" "n < 16" | "16 \<le> n" "n < 24" | "24 \<le> n" "n < 32"
    by fastforce
  then show "bit (read32 [ucast w, ucast (drop_bit 8 w), ucast (drop_bit 16 w),
      ucast (drop_bit 24 w)] 0) n = bit w n"
    by cases (auto simp add: read32_def bit_simps)
qed

text \<open>An integer is read back from wherever its bytes stand.\<close>

lemma read16_le16:
  "take 2 (drop i bs) = le16 w \<Longrightarrow> read16 bs i = w"
proof -
  assume eq: "take 2 (drop i bs) = le16 w"
  then have "i + 2 \<le> length bs" by (auto simp: le16_def dest: arg_cong [of _ _ length])
  then have "read16 bs i = read16 (take 2 (drop i bs)) 0" by (simp add: read16_def)
  with eq show ?thesis by (simp add: le16_def read16_bytes)
qed

lemma read32_le32:
  "take 4 (drop i bs) = le32 w \<Longrightarrow> read32 bs i = w"
proof -
  assume eq: "take 4 (drop i bs) = le32 w"
  then have "i + 4 \<le> length bs" by (auto simp: le32_def dest: arg_cong [of _ _ length])
  then have "read32 bs i = read32 (take 4 (drop i bs)) 0" by (simp add: read32_def)
  with eq show ?thesis by (simp add: le32_def read32_bytes)
qed

text \<open>Conversely the bytes are those of the integer that is read.\<close>

lemma le16_read16:
  "i + 2 \<le> length bs \<Longrightarrow> le16 (read16 bs i) = take 2 (drop i bs)"
proof -
  assume len: "i + 2 \<le> length bs"
  have "ucast (read16 bs i) = bs ! i" "ucast (drop_bit 8 (read16 bs i)) = bs ! (i + 1)"
    by (auto intro!: bit_word_eqI simp: read16_def bit_simps)
  moreover have "take 2 (drop i bs) = [bs ! i, bs ! (i + 1)]"
    using len by (simp add: numeral_eq_Suc take_Suc_conv_app_nth)
  ultimately show ?thesis by (simp add: le16_def)
qed

lemma le32_read32:
  "i + 4 \<le> length bs \<Longrightarrow> le32 (read32 bs i) = take 4 (drop i bs)"
proof -
  assume len: "i + 4 \<le> length bs"
  have "ucast (read32 bs i) = bs ! i" "ucast (drop_bit 8 (read32 bs i)) = bs ! (i + 1)"
    "ucast (drop_bit 16 (read32 bs i)) = bs ! (i + 2)"
    "ucast (drop_bit 24 (read32 bs i)) = bs ! (i + 3)"
    by (auto intro!: bit_word_eqI simp: read32_def bit_simps)
  moreover have "take 4 (drop i bs) = [bs ! i, bs ! (i + 1), bs ! (i + 2), bs ! (i + 3)]"
    using len by (simp add: numeral_eq_Suc take_Suc_conv_app_nth)
  ultimately show ?thesis by (simp add: le32_def)
qed

lemma read16_append [bytes_simps]:
  "i + 1 < length xs \<Longrightarrow> read16 (xs @ ys) i = read16 xs i"
  by (simp add: read16_def nth_append)

lemma read32_append [bytes_simps]:
  "i + 3 < length xs \<Longrightarrow> read32 (xs @ ys) i = read32 xs i"
  by (simp add: read32_def nth_append)

lemma read16_take [bytes_simps]:
  "i + 1 < n \<Longrightarrow> read16 (take n xs) i = read16 xs i"
  by (simp add: read16_def)

lemma read32_take [bytes_simps]:
  "i + 3 < n \<Longrightarrow> read32 (take n xs) i = read32 xs i"
  by (simp add: read32_def)

lemma read16_drop [bytes_simps]:
  "n + i + 1 < length xs \<Longrightarrow> read16 (drop n xs) i = read16 xs (n + i)"
  by (simp add: read16_def add.assoc)

lemma length_write_at [simp]:
  "i + length xs \<le> length bs \<Longrightarrow> length (write_at bs i xs) = length bs"
  by (simp add: write_at_def)

text \<open>Evaluation of the writes to a buffer of known shape.\<close>

lemma list_update_numeral [bytes_simps]:
  "(x # xs)[numeral v := y] = x # xs[pred_numeral v := y]"
  by (simp add: numeral_eq_Suc)

lemma replicate_numeral_Cons [bytes_simps]:
  "replicate (numeral v) x = x # replicate (pred_numeral v) x"
  by (simp add: numeral_eq_Suc)

lemma replicate_numeral_add [bytes_simps]:
  "replicate (numeral v + n) x = x # replicate (pred_numeral v + n) x"
  by (simp add: numeral_eq_Suc)

lemma write_at_append [bytes_simps]:
  "i + length xs \<le> length as \<Longrightarrow> write_at (as @ bs) i xs = write_at as i xs @ bs"
  by (simp add: write_at_def)

text \<open>A 16-bit integer without its sign bit reads the same signed and unsigned.\<close>

lemma sint_eq_uint16: "\<not> bit (w :: u16) 15 \<Longrightarrow> sint w = uint w"
proof (rule bit_eqI)
  fix n
  assume "\<not> bit w 15"
  moreover have "bit w n \<Longrightarrow> n < 16" using bit_imp_le_length [of w n] by simp
  moreover have "n < 16 \<longleftrightarrow> n < 15 \<or> n = 15" by auto
  ultimately show "bit (sint w) n = bit (uint w) n"
    by (auto simp: sint_uint bit_signed_take_bit_iff bit_uint_iff min_def)
qed

end
