(* ===== verification/Double.thy ===== *)
theory Double
  imports Complex_Main Prelude
begin

text \<open>
  The floating point numbers of the game: a finite value, an infinity (\<open>Inf True\<close> is positive)
  or not a number. The operations treat infinities and NaN as IEEE 754 does; finite values are
  real numbers, so rounding, overflow to infinity and the sign of zero are left out. The C++
  types \<open>float\<close> and \<open>double\<close> are not told apart.
\<close>

datatype double = Fin real | Inf bool | NaN

instantiation double :: "{zero, one, plus, minus, uminus, times, inverse, ord}"
begin

definition "0 = Fin 0"
definition "1 = Fin 1"

fun uminus_double :: "double \<Rightarrow> double" where
  "- Fin a = Fin (- a)"
| "- Inf s = Inf (\<not> s)"
| "- NaN = NaN"

fun plus_double :: "double \<Rightarrow> double \<Rightarrow> double" where
  "Fin a + Fin b = Fin (a + b)"
| "Fin a + Inf t = Inf t"
| "Inf s + Fin b = Inf s"
| "Inf s + Inf t = (if s = t then Inf s else NaN)"
| "NaN + y = NaN"
| "x + NaN = NaN"

definition "x - y = x + (- y :: double)"

fun times_double :: "double \<Rightarrow> double \<Rightarrow> double" where
  "Fin a * Fin b = Fin (a * b)"
| "Fin a * Inf t = (if a = 0 then NaN else Inf (t = (0 < a)))"
| "Inf s * Fin b = (if b = 0 then NaN else Inf (s = (0 < b)))"
| "Inf s * Inf t = Inf (s = t)"
| "NaN * y = NaN"
| "x * NaN = NaN"

fun divide_double :: "double \<Rightarrow> double \<Rightarrow> double" where
  "divide_double (Fin a) (Fin b) =
     (if b = 0 then (if a = 0 then NaN else Inf (0 < a)) else Fin (a / b))"
| "divide_double (Fin a) (Inf t) = Fin 0"
| "divide_double (Inf s) (Fin b) = Inf (s = (0 \<le> b))"
| "divide_double (Inf s) (Inf t) = NaN"
| "divide_double NaN y = NaN"
| "divide_double x NaN = NaN"

definition "inverse (x :: double) = divide 1 x"

fun less_double :: "double \<Rightarrow> double \<Rightarrow> bool" where
  "Fin a < Fin b \<longleftrightarrow> a < b"
| "Fin a < Inf t \<longleftrightarrow> t"
| "Inf s < Fin b \<longleftrightarrow> \<not> s"
| "Inf s < Inf t \<longleftrightarrow> \<not> s \<and> t"
| "NaN < y \<longleftrightarrow> False"
| "x < NaN \<longleftrightarrow> False"

definition "x \<le> y \<longleftrightarrow> x < y \<or> x = (y :: double) \<and> x \<noteq> NaN"

instance ..

end

text \<open>The comparison \<open>==\<close>, and the functions of \<open><cmath>\<close>.\<close>

definition equals :: "double \<Rightarrow> double \<Rightarrow> bool" where
  "equals x y \<longleftrightarrow> x = y \<and> x \<noteq> NaN"

fun fcos :: "double \<Rightarrow> double" where
  "fcos (Fin a) = Fin (cos a)"
| "fcos (Inf s) = NaN"
| "fcos NaN = NaN"

fun fsin :: "double \<Rightarrow> double" where
  "fsin (Fin a) = Fin (sin a)"
| "fsin (Inf s) = NaN"
| "fsin NaN = NaN"

fun fsqrt :: "double \<Rightarrow> double" where
  "fsqrt (Fin a) = (if a < 0 then NaN else Fin (sqrt a))"
| "fsqrt (Inf s) = (if s then Inf True else NaN)"
| "fsqrt NaN = NaN"

definition M_PI :: double where
  "M_PI = Fin pi"

fun finite_double :: "double \<Rightarrow> bool" where
  "finite_double (Fin a) = True"
| "finite_double (Inf s) = False"
| "finite_double NaN = False"

lemma finite_double_iff: "finite_double x \<longleftrightarrow> (\<exists>a. x = Fin a)"
  by (cases x) auto

lemma minus_Fin [simp]: "Fin a - Fin b = Fin (a - b)"
  by (simp add: minus_double_def)

lemma zero_double_less [simp]: "0 < Fin a \<longleftrightarrow> 0 < a" "Fin a < 0 \<longleftrightarrow> a < 0"
  by (simp_all add: zero_double_def)

lemma one_double_less [simp]: "1 < Fin a \<longleftrightarrow> 1 < a"
  by (simp add: one_double_def)

lemma equals_Fin [simp]: "equals (Fin a) (Fin b) \<longleftrightarrow> a = b"
  by (simp add: equals_def)

lemma equals_0 [simp]: "equals (Fin a) 0 \<longleftrightarrow> a = 0"
  by (simp add: zero_double_def)

text \<open>NaN is absorbing.\<close>

lemma NaN_absorbs [simp]:
  "NaN + y = NaN" "y + NaN = NaN" "NaN - y = NaN" "y - NaN = NaN" "NaN * y = NaN" "y * NaN = NaN"
  "NaN / y = NaN" "y / NaN = NaN" "- NaN = NaN"
  by (cases y; simp add: minus_double_def)+

lemma NaN_compares [simp]: "\<not> NaN < y" "\<not> y < NaN" "\<not> equals NaN y" "\<not> equals y NaN"
  by (cases y; simp add: equals_def)+

end
