(* ===== verification/Client.thy ===== *)
theory Client
  imports Double
begin

text \<open>
  The basic data of UPZP-GameProcess/inc and client.cpp: vehicle types, maps, a player's input
  and the client record that all components share.
\<close>

section \<open>inc/vehicle_types.h, inc/maps.h\<close>

datatype VehicleType = PEDESTRIAN | CYCLIST | CAR

text \<open>In metres per second. The default branch is for values that are no enumerator.\<close>

fun VehicleSpeed :: "VehicleType \<Rightarrow> double" where
  "VehicleSpeed PEDESTRIAN = Fin 5"
| "VehicleSpeed CYCLIST = Fin 9"
| "VehicleSpeed CAR = Fin 13.88"

datatype Maps = WARSZAWA | WROCLAW | KRAKOW

fun MapsLatitude :: "Maps \<Rightarrow> double" where
  "MapsLatitude WARSZAWA = Fin 21.025745"
| "MapsLatitude WROCLAW = Fin 17.034299"
| "MapsLatitude KRAKOW = Fin 19.938898"

fun MapsLongitude :: "Maps \<Rightarrow> double" where
  "MapsLongitude WARSZAWA = Fin 52.240679"
| "MapsLongitude WROCLAW = Fin 51.109385"
| "MapsLongitude KRAKOW = Fin 50.061974"

section \<open>inc/player_input.h\<close>

record PlayerInput =
  input_id :: u32
  move :: bool
  direction :: double

definition default_input :: PlayerInput where
  "default_input = \<lparr>input_id = 0, move = False, direction = Fin 0\<rparr>"

section \<open>inc/client.h, client.cpp\<close>

record client =
  Name :: string
  Id :: u32
  Vehicle :: VehicleType
  Ip_v4 :: string
  Port :: u32

definition Client :: "string \<Rightarrow> u32 \<Rightarrow> VehicleType \<Rightarrow> string \<Rightarrow> u32 \<Rightarrow> client" where
  "Client name client_id vehicle ip port =
     \<lparr>Name = name, Id = client_id, Vehicle = vehicle, Ip_v4 = ip, Port = port\<rparr>"

lemma VehicleSpeed_Fin: "\<exists>v > 0. VehicleSpeed t = Fin v"
proof (cases t)
  case CAR
  then show ?thesis by (intro exI [of _ "13.88"]) simp
qed auto

lemma VehicleSpeed_mono:
  "VehicleSpeed PEDESTRIAN < VehicleSpeed CYCLIST" "VehicleSpeed CYCLIST < VehicleSpeed CAR"
  by simp_all

end
