(* ===== verification/Flatbuffers.thy ===== *)
theory Flatbuffers
  imports Client "HOL-Library.Monad_Syntax"
begin

text \<open>
  The FlatBuffers library (flatbuffers/flatbuffers.h), which is not part of the repository, as
  the code that \<open>flatc\<close> generates from the schemas calls it: a record of functions, over types
  for the builder, offsets, pointers into a message and verifiers. What its documentation says
  of them is the predicate \<open>documented\<close>; nothing else is assumed. The rules below let a proof
  step through calls of the builder.
\<close>

section \<open>Values\<close>

text \<open>
  The scalars that the schemas use, tagged with the type argument of the template. \<open>Position\<close> of
  game_status_generated.h is the only struct; the host is little-endian, so \<open>EndianScalar\<close> is
  the identity.
\<close>

type_synonym voffset = u16

datatype scalar =
    Uint64 (uint64_of: u64)
  | Uint32 (uint32_of: u32)
  | Int32 (int32_of: u32)
  | Uint8 (uint8_of: u8)
  | Int8 (int8_of: u8)
  | Float32 (float32_of: double)

fun same_type :: "scalar \<Rightarrow> scalar \<Rightarrow> bool" where
  "same_type (Uint64 a) (Uint64 b) = True"
| "same_type (Uint32 a) (Uint32 b) = True"
| "same_type (Int32 a) (Int32 b) = True"
| "same_type (Uint8 a) (Uint8 b) = True"
| "same_type (Int8 a) (Int8 b) = True"
| "same_type (Float32 a) (Float32 b) = True"
| "same_type _ _ = False"

datatype Position = Position (Position_longitude: double) (Position_latitude: double)

definition Position_default :: Position where
  "Position_default = Position 0 0"

section \<open>The library\<close>

text \<open>
  Functions of the builder are None where an assertion of the library fails. A pointer is None
  for \<open>nullptr\<close>. The functions of the verifier that descend into tables take the generated
  \<open>Verify\<close> as an argument.
\<close>

type_synonym ('v) check = "'v \<Rightarrow> bool \<times> 'v"

record ('b, 'o, 'p, 'v) flatbuffers =
  fb_IsOutRange :: "u8 \<Rightarrow> u8 \<Rightarrow> u8 \<Rightarrow> bool"
  fb_null :: 'o
  fb_FlatBufferBuilder :: 'b
  fb_StartTable :: "'b \<Rightarrow> ('o \<times> 'b) option"
  fb_AddElement :: "voffset \<Rightarrow> scalar \<Rightarrow> scalar \<Rightarrow> 'b \<Rightarrow> 'b option"
  fb_AddOffset :: "voffset \<Rightarrow> 'o \<Rightarrow> 'b \<Rightarrow> 'b option"
  fb_AddStruct :: "voffset \<Rightarrow> Position option \<Rightarrow> 'b \<Rightarrow> 'b option"
  fb_EndTable :: "'o \<Rightarrow> 'b \<Rightarrow> ('o \<times> 'b) option"
  fb_Required :: "'o \<Rightarrow> voffset \<Rightarrow> 'b \<Rightarrow> 'b option"
  fb_CreateString :: "string \<Rightarrow> 'b \<Rightarrow> ('o \<times> 'b) option"
  fb_CreateVector :: "'o list \<Rightarrow> 'b \<Rightarrow> ('o \<times> 'b) option"
  fb_Finish :: "'o \<Rightarrow> 'b \<Rightarrow> 'b option"
  fb_FinishSizePrefixed :: "'o \<Rightarrow> 'b \<Rightarrow> 'b option"
  fb_GetBuffer :: "'b \<Rightarrow> u8 list"
  fb_GetRoot :: "u8 list \<Rightarrow> 'p"
  fb_GetSizePrefixedRoot :: "u8 list \<Rightarrow> 'p"
  fb_GetField :: "'p \<Rightarrow> voffset \<Rightarrow> scalar \<Rightarrow> scalar"
  fb_GetPointer :: "'p \<Rightarrow> voffset \<Rightarrow> 'p option"
  fb_GetStruct :: "'p \<Rightarrow> voffset \<Rightarrow> Position option"
  fb_str :: "'p \<Rightarrow> string"
  fb_size :: "'p \<Rightarrow> nat"
  fb_Get :: "'p \<Rightarrow> nat \<Rightarrow> 'p"
  fb_Verifier :: "u8 list \<Rightarrow> 'v"
  fb_VerifyTableStart :: "'p \<Rightarrow> 'v check"
  fb_VerifyField :: "'p \<Rightarrow> scalar \<Rightarrow> voffset \<Rightarrow> 'v check"
  fb_VerifyStructRequired :: "'p \<Rightarrow> voffset \<Rightarrow> 'v check"
  fb_VerifyOffset :: "'p \<Rightarrow> voffset \<Rightarrow> 'v check"
  fb_VerifyOffsetRequired :: "'p \<Rightarrow> voffset \<Rightarrow> 'v check"
  fb_VerifyString :: "'p option \<Rightarrow> 'v check"
  fb_VerifyVector :: "'p option \<Rightarrow> 'v check"
  fb_VerifyTable :: "('p \<Rightarrow> 'v check) \<Rightarrow> 'p option \<Rightarrow> 'v check"
  fb_VerifyVectorOfTables :: "('p \<Rightarrow> 'v check) \<Rightarrow> 'p option \<Rightarrow> 'v check"
  fb_VerifyEndTable :: "'v check"
  fb_VerifyBuffer :: "('p \<Rightarrow> 'v check) \<Rightarrow> 'v check"
  fb_VerifySizePrefixedBuffer :: "('p \<Rightarrow> 'v check) \<Rightarrow> 'v check"

type_synonym ('b, 'r) build = "'b \<Rightarrow> ('r \<times> 'b) option"

text \<open>A loop that collects the offsets of the objects it makes.\<close>

fun write_all :: "('x \<Rightarrow> ('b, 'o) build) \<Rightarrow> 'x list \<Rightarrow> ('b, 'o list) build" where
  "write_all f [] b = Some ([], b)"
| "write_all f (x # xs) b = do {
     (y, b) \<leftarrow> f x b;
     (ys, b) \<leftarrow> write_all f xs b;
     Some (y # ys, b) }"

text \<open>The optional arguments of the functions that \<open>flatc\<close> calls direct.\<close>

definition string_or_null :: "('b, 'o, 'p, 'v) flatbuffers \<Rightarrow> string option \<Rightarrow> ('b, 'o) build" where
  "string_or_null L s b = (case s of None \<Rightarrow> Some (fb_null L, b) | Some s \<Rightarrow> fb_CreateString L s b)"

definition vector_or_null :: "('b, 'o, 'p, 'v) flatbuffers \<Rightarrow> 'o list option \<Rightarrow> ('b, 'o) build" where
  "vector_or_null L v b = (case v of None \<Rightarrow> Some (fb_null L, b) | Some v \<Rightarrow> fb_CreateVector L v b)"

text \<open>The elements that a range-based loop over a vector visits.\<close>

definition elements :: "('b, 'o, 'p, 'v) flatbuffers \<Rightarrow> 'p \<Rightarrow> 'p list" where
  "elements L v = map (fb_Get L v) [0..<fb_size L v]"

text \<open>The operator \<open>&&\<close> between checks, which does not evaluate what follows a failure.\<close>

fun all_of :: "'v check list \<Rightarrow> 'v check" where
  "all_of [] v = (True, v)"
| "all_of (c # cs) v = (case c v of (ok, v) \<Rightarrow> if ok then all_of cs v else (False, v))"

declare all_of.simps(2) [simp del]

section \<open>What is documented\<close>

text \<open>
  A builder has made objects, each known by its offset, and may be inside a table, of which it
  knows the fields set so far. The objects are strings, vectors of offsets and tables; a field
  that was not set, or set to its default, is absent from a table.
\<close>

datatype 'o entry = Scalar scalar | Reference 'o | Struct Position

type_synonym 'o fields = "voffset \<Rightarrow> 'o entry option"

datatype 'o object = Text string | Vector "'o list" | Table "'o fields"

type_synonym 'o heap = "'o \<Rightarrow> 'o object option"

text \<open>
  The notions of the documentation: what a builder has made, where in a finished message an
  object lies, how many levels and tables a verifier still accepts, and which floating point
  numbers the host can represent (the model has all reals).
\<close>

record ('b, 'o, 'p, 'v) meaning =
  made :: "'b \<Rightarrow> ('o \<times> 'o fields) option \<times> 'o heap"
  place :: "u8 list \<Rightarrow> 'o \<Rightarrow> 'p"
  levels_left :: "'v \<Rightarrow> nat"
  tables_left :: "'v \<Rightarrow> nat"
  representable :: "double \<Rightarrow> bool"

fun holds_scalar :: "(double \<Rightarrow> bool) \<Rightarrow> scalar \<Rightarrow> bool" where
  "holds_scalar R (Float32 x) = R x"
| "holds_scalar R _ = True"

fun holds_struct :: "(double \<Rightarrow> bool) \<Rightarrow> Position option \<Rightarrow> bool" where
  "holds_struct R None = True"
| "holds_struct R (Some (Position x y)) = (R x \<and> R y)"

definition with_scalar :: "voffset \<Rightarrow> scalar \<Rightarrow> scalar \<Rightarrow> 'o fields \<Rightarrow> 'o fields" where
  "with_scalar f v d m = (if v = d then m else m(f \<mapsto> Scalar v))"

definition with_offset :: "'o \<Rightarrow> voffset \<Rightarrow> 'o \<Rightarrow> 'o fields \<Rightarrow> 'o fields" where
  "with_offset null f x m = (if x = null then m else m(f \<mapsto> Reference x))"

definition with_struct :: "voffset \<Rightarrow> Position option \<Rightarrow> 'o fields \<Rightarrow> 'o fields" where
  "with_struct f s m = (case s of None \<Rightarrow> m | Some s \<Rightarrow> m(f \<mapsto> Struct s))"

text \<open>
  The calls that set a field are documented inside a table, once for each field; strings and
  vectors are made, and a message is finished, outside of any table. Offsets that are used must
  be of objects made before. (That the message stays within the 2 GB that offsets can span is
  understood.)
\<close>

definition field_laws :: "('b, 'o, 'p, 'v) flatbuffers \<Rightarrow> ('b, 'o, 'p, 'v) meaning \<Rightarrow> bool" where
  "field_laws L X \<longleftrightarrow>
     (\<forall>b w m h f v d. made X b = (Some (w, m), h) \<longrightarrow> m f = None \<longrightarrow> holds_scalar (representable X) v \<longrightarrow>
        (\<exists>b'. fb_AddElement L f v d b = Some b' \<and> made X b' = (Some (w, with_scalar f v d m), h))) \<and>
     (\<forall>b w m h f x. made X b = (Some (w, m), h) \<longrightarrow> m f = None \<longrightarrow> x = fb_null L \<or> h x \<noteq> None \<longrightarrow>
        (\<exists>b'. fb_AddOffset L f x b = Some b' \<and> made X b' = (Some (w, with_offset (fb_null L) f x m), h))) \<and>
     (\<forall>b w m h f s. made X b = (Some (w, m), h) \<longrightarrow> m f = None \<longrightarrow>
        holds_struct (representable X) s \<longrightarrow>
        (\<exists>b'. fb_AddStruct L f s b = Some b' \<and> made X b' = (Some (w, with_struct f s m), h)))"

definition object_laws :: "('b, 'o, 'p, 'v) flatbuffers \<Rightarrow> ('b, 'o, 'p, 'v) meaning \<Rightarrow> bool" where
  "object_laws L X \<longleftrightarrow>
     made X (fb_FlatBufferBuilder L) = (None, Map.empty) \<and>
     (\<forall>b h. made X b = (None, h) \<longrightarrow>
        (\<exists>w b'. fb_StartTable L b = Some (w, b') \<and> made X b' = (Some (w, Map.empty), h))) \<and>
     (\<forall>b w m h. made X b = (Some (w, m), h) \<longrightarrow>
        (\<exists>x b'. fb_EndTable L w b = Some (x, b') \<and> x \<noteq> fb_null L \<and> h x = None \<and>
           made X b' = (None, h(x \<mapsto> Table m)))) \<and>
     (\<forall>b h x m f. made X b = (None, h) \<longrightarrow> h x = Some (Table m) \<longrightarrow>
        fb_Required L x f b = (if m f = None then None else Some b)) \<and>
     (\<forall>b h s. made X b = (None, h) \<longrightarrow>
        (\<exists>x b'. fb_CreateString L s b = Some (x, b') \<and> x \<noteq> fb_null L \<and> h x = None \<and>
           made X b' = (None, h(x \<mapsto> Text s)))) \<and>
     (\<forall>b h xs. made X b = (None, h) \<longrightarrow> (\<forall>y \<in> set xs. h y \<noteq> None) \<longrightarrow>
        (\<exists>x b'. fb_CreateVector L xs b = Some (x, b') \<and> x \<noteq> fb_null L \<and> h x = None \<and>
           made X b' = (None, h(x \<mapsto> Vector xs))))"

text \<open>What is read in a message that holds the objects of a heap.\<close>

definition reads :: "('b, 'o, 'p, 'v) flatbuffers \<Rightarrow> ('b, 'o, 'p, 'v) meaning \<Rightarrow> u8 list \<Rightarrow> 'o heap \<Rightarrow> bool" where
  "reads L X bs h \<longleftrightarrow>
     (\<forall>x m f d. h x = Some (Table m) \<longrightarrow> m f = None \<longrightarrow> fb_GetField L (place X bs x) f d = d) \<and>
     (\<forall>x m f d v. h x = Some (Table m) \<longrightarrow> m f = Some (Scalar v) \<longrightarrow> same_type v d \<longrightarrow>
        fb_GetField L (place X bs x) f d = v) \<and>
     (\<forall>x m f. h x = Some (Table m) \<longrightarrow> m f = None \<longrightarrow> fb_GetPointer L (place X bs x) f = None) \<and>
     (\<forall>x m f y. h x = Some (Table m) \<longrightarrow> m f = Some (Reference y) \<longrightarrow>
        fb_GetPointer L (place X bs x) f = Some (place X bs y)) \<and>
     (\<forall>x m f. h x = Some (Table m) \<longrightarrow> m f = None \<longrightarrow> fb_GetStruct L (place X bs x) f = None) \<and>
     (\<forall>x m f p. h x = Some (Table m) \<longrightarrow> m f = Some (Struct p) \<longrightarrow>
        fb_GetStruct L (place X bs x) f = Some p) \<and>
     (\<forall>x s. h x = Some (Text s) \<longrightarrow> fb_str L (place X bs x) = s) \<and>
     (\<forall>x ys. h x = Some (Vector ys) \<longrightarrow> fb_size L (place X bs x) = length ys \<and>
        (\<forall>i < length ys. fb_Get L (place X bs x) i = place X bs (ys ! i)))"

text \<open>
  The checks of a verifier on such a message. Each table takes one level until it is left, and
  one of the tables that are accepted at most.
\<close>

definition verifies :: "('b, 'o, 'p, 'v) flatbuffers \<Rightarrow> ('b, 'o, 'p, 'v) meaning \<Rightarrow> u8 list \<Rightarrow> 'o heap \<Rightarrow> bool" where
  "verifies L X bs h \<longleftrightarrow>
     (\<forall>x m v. h x = Some (Table m) \<longrightarrow>
        (\<exists>v'. fb_VerifyTableStart L (place X bs x) v = (0 < levels_left X v \<and> 0 < tables_left X v, v') \<and>
           levels_left X v' = levels_left X v - 1 \<and> tables_left X v' = tables_left X v - 1)) \<and>
     (\<forall>x m f d v. h x = Some (Table m) \<longrightarrow> (\<forall>e. m f = Some e \<longrightarrow> (\<exists>s. e = Scalar s \<and> same_type s d)) \<longrightarrow>
        fb_VerifyField L (place X bs x) d f v = (True, v)) \<and>
     (\<forall>x m f v. h x = Some (Table m) \<longrightarrow> (\<forall>e. m f = Some e \<longrightarrow> (\<exists>p. e = Struct p)) \<longrightarrow>
        fb_VerifyStructRequired L (place X bs x) f v = (m f \<noteq> None, v)) \<and>
     (\<forall>x m f v. h x = Some (Table m) \<longrightarrow> (\<forall>e. m f = Some e \<longrightarrow> (\<exists>y. e = Reference y)) \<longrightarrow>
        fb_VerifyOffset L (place X bs x) f v = (True, v) \<and>
        fb_VerifyOffsetRequired L (place X bs x) f v = (m f \<noteq> None, v)) \<and>
     (\<forall>v c. fb_VerifyString L None v = (True, v) \<and> fb_VerifyVector L None v = (True, v) \<and>
        fb_VerifyTable L c None v = (True, v) \<and> fb_VerifyVectorOfTables L c None v = (True, v)) \<and>
     (\<forall>x s v. h x = Some (Text s) \<longrightarrow> fb_VerifyString L (Some (place X bs x)) v = (True, v)) \<and>
     (\<forall>x ys v c. h x = Some (Vector ys) \<longrightarrow> fb_VerifyVector L (Some (place X bs x)) v = (True, v) \<and>
        fb_VerifyVectorOfTables L c (Some (place X bs x)) v = all_of (map (\<lambda>y. c (place X bs y)) ys) v) \<and>
     (\<forall>x m v c. h x = Some (Table m) \<longrightarrow>
        fb_VerifyTable L c (Some (place X bs x)) v = c (place X bs x) v) \<and>
     (\<forall>v. \<exists>v'. fb_VerifyEndTable L v = (True, v') \<and> levels_left X v' = levels_left X v + 1 \<and>
        tables_left X v' = tables_left X v)"

text \<open>
  A finished message holds the objects made, and its root is the object that was named. With a
  size prefix it is preceded by four bytes. A verifier accepts by default 64 levels and a
  million tables.
\<close>

definition message_laws :: "('b, 'o, 'p, 'v) flatbuffers \<Rightarrow> ('b, 'o, 'p, 'v) meaning \<Rightarrow> bool" where
  "message_laws L X \<longleftrightarrow>
     (\<forall>b h x. made X b = (None, h) \<longrightarrow> h x \<noteq> None \<longrightarrow>
        (\<exists>b'. fb_Finish L x b = Some b' \<and> reads L X (fb_GetBuffer L b') h \<and>
           verifies L X (fb_GetBuffer L b') h \<and>
           fb_GetRoot L (fb_GetBuffer L b') = place X (fb_GetBuffer L b') x \<and>
           (\<forall>c. fb_VerifyBuffer L c (fb_Verifier L (fb_GetBuffer L b')) =
              c (place X (fb_GetBuffer L b') x) (fb_Verifier L (fb_GetBuffer L b'))))) \<and>
     (\<forall>b h x. made X b = (None, h) \<longrightarrow> h x \<noteq> None \<longrightarrow>
        (\<exists>b' bs. fb_FinishSizePrefixed L x b = Some b' \<and> bs = drop 4 (fb_GetBuffer L b') \<and>
           reads L X bs h \<and> verifies L X bs h \<and>
           fb_GetSizePrefixedRoot L (fb_GetBuffer L b') = place X bs x \<and>
           (\<forall>c. fb_VerifySizePrefixedBuffer L c (fb_Verifier L (fb_GetBuffer L b')) =
              c (place X bs x) (fb_Verifier L (fb_GetBuffer L b'))))) \<and>
     (\<forall>bs. levels_left X (fb_Verifier L bs) = 64 \<and> tables_left X (fb_Verifier L bs) = 1000000)"

definition documented :: "('b, 'o, 'p, 'v) flatbuffers \<Rightarrow> ('b, 'o, 'p, 'v) meaning \<Rightarrow> bool" where
  "documented L X \<longleftrightarrow> field_laws L X \<and> object_laws L X \<and> message_laws L X \<and>
     (\<forall>e low high. fb_IsOutRange L e low high \<longleftrightarrow> sint e < sint low \<or> sint high < sint e)"

section \<open>Stepping through the calls of a builder\<close>

definition succeeds :: "'a option \<Rightarrow> ('a \<Rightarrow> bool) \<Rightarrow> bool" where
  "succeeds r Q \<longleftrightarrow> (\<exists>y. r = Some y \<and> Q y)"

lemma succeedsE: "succeeds r Q \<Longrightarrow> (\<And>y. r = Some y \<Longrightarrow> Q y \<Longrightarrow> thesis) \<Longrightarrow> thesis"
  by (auto simp: succeeds_def)

lemma succeeds_Some: "Q y \<Longrightarrow> succeeds (Some y) Q"
  by (simp add: succeeds_def)

lemma succeeds_bind: "succeeds r (\<lambda>y. succeeds (f y) Q) \<Longrightarrow> succeeds (r \<bind> f) Q"
  by (auto simp: succeeds_def)

lemma succeeds_case: "succeeds (f x b) Q \<Longrightarrow> succeeds (case (x, b) of (x, b) \<Rightarrow> f x b) Q"
  by simp

text \<open>The state of a builder outside of tables and inside of one.\<close>

definition idle :: "('b, 'o, 'p, 'v) meaning \<Rightarrow> 'b \<Rightarrow> 'o heap \<Rightarrow> bool" where
  "idle X b h \<longleftrightarrow> made X b = (None, h)"

definition inside :: "('b, 'o, 'p, 'v) meaning \<Rightarrow> 'b \<Rightarrow> 'o \<Rightarrow> 'o fields \<Rightarrow> 'o heap \<Rightarrow> bool" where
  "inside X b w m h \<longleftrightarrow> made X b = (Some (w, m), h)"

lemma idle_new: "documented L X \<Longrightarrow> idle X (fb_FlatBufferBuilder L) Map.empty"
  by (simp add: documented_def object_laws_def idle_def)

lemma succeeds_AddElement:
  "documented L X \<Longrightarrow> inside X b w m h \<Longrightarrow> m f = None \<Longrightarrow> holds_scalar (representable X) v \<Longrightarrow>
    (\<And>b'. inside X b' w (with_scalar f v d m) h \<Longrightarrow> Q b') \<Longrightarrow> succeeds (fb_AddElement L f v d b) Q"
  unfolding documented_def field_laws_def inside_def succeeds_def by metis

lemma succeeds_AddOffset:
  "documented L X \<Longrightarrow> inside X b w m h \<Longrightarrow> m f = None \<Longrightarrow> x = fb_null L \<or> h x \<noteq> None \<Longrightarrow>
    (\<And>b'. inside X b' w (with_offset (fb_null L) f x m) h \<Longrightarrow> Q b') \<Longrightarrow> succeeds (fb_AddOffset L f x b) Q"
  unfolding documented_def field_laws_def inside_def succeeds_def by metis

lemma succeeds_AddStruct:
  "documented L X \<Longrightarrow> inside X b w m h \<Longrightarrow> m f = None \<Longrightarrow>
    holds_struct (representable X) s \<Longrightarrow>
    (\<And>b'. inside X b' w (with_struct f s m) h \<Longrightarrow> Q b') \<Longrightarrow> succeeds (fb_AddStruct L f s b) Q"
  unfolding documented_def field_laws_def inside_def succeeds_def by metis

lemma succeeds_StartTable:
  "documented L X \<Longrightarrow> idle X b h \<Longrightarrow> (\<And>w b'. inside X b' w Map.empty h \<Longrightarrow> Q (w, b')) \<Longrightarrow>
    succeeds (fb_StartTable L b) Q"
  unfolding documented_def object_laws_def idle_def inside_def succeeds_def by metis

lemma succeeds_EndTable:
  "documented L X \<Longrightarrow> inside X b w m h \<Longrightarrow>
    (\<And>x b'. idle X b' (h(x \<mapsto> Table m)) \<Longrightarrow> x \<noteq> fb_null L \<Longrightarrow> h x = None \<Longrightarrow> Q (x, b')) \<Longrightarrow>
    succeeds (fb_EndTable L w b) Q"
  unfolding documented_def object_laws_def idle_def inside_def succeeds_def by metis

lemma succeeds_Required:
  "documented L X \<Longrightarrow> idle X b h \<Longrightarrow> h x = Some (Table m) \<Longrightarrow> m f \<noteq> None \<Longrightarrow> Q b \<Longrightarrow>
    succeeds (fb_Required L x f b) Q"
  unfolding documented_def object_laws_def idle_def succeeds_def by metis

lemma succeeds_CreateString:
  "documented L X \<Longrightarrow> idle X b h \<Longrightarrow>
    (\<And>x b'. idle X b' (h(x \<mapsto> Text s)) \<Longrightarrow> x \<noteq> fb_null L \<Longrightarrow> h x = None \<Longrightarrow> Q (x, b')) \<Longrightarrow>
    succeeds (fb_CreateString L s b) Q"
  unfolding documented_def object_laws_def idle_def succeeds_def by metis

lemma succeeds_CreateVector:
  "documented L X \<Longrightarrow> idle X b h \<Longrightarrow> (\<And>y. y \<in> set ys \<Longrightarrow> h y \<noteq> None) \<Longrightarrow>
    (\<And>x b'. idle X b' (h(x \<mapsto> Vector ys)) \<Longrightarrow> x \<noteq> fb_null L \<Longrightarrow> h x = None \<Longrightarrow> Q (x, b')) \<Longrightarrow>
    succeeds (fb_CreateVector L ys b) Q"
  unfolding documented_def object_laws_def idle_def succeeds_def by metis

text \<open>
  One step of a build: the rules that apply to a goal \<open>succeeds\<close>, for a library as documented.
\<close>

lemmas build_steps = succeeds_bind succeeds_case succeeds_Some

lemmas build_calls = succeeds_StartTable succeeds_AddElement succeeds_AddOffset succeeds_AddStruct
  succeeds_EndTable succeeds_Required succeeds_CreateString succeeds_CreateVector

text \<open>What setting a field once leaves in it.\<close>

definition set_scalar :: "scalar \<Rightarrow> scalar \<Rightarrow> 'o entry option" where
  "set_scalar v d = (if v = d then None else Some (Scalar v))"

definition set_offset :: "'o \<Rightarrow> 'o \<Rightarrow> 'o entry option" where
  "set_offset null x = (if x = null then None else Some (Reference x))"

lemma with_fields_apply [simp]:
  "with_scalar f v d m g = (if g = f \<and> v \<noteq> d then Some (Scalar v) else m g)"
  "with_offset null f x m g = (if g = f \<and> x \<noteq> null then Some (Reference x) else m g)"
  "with_struct f s m g = (if g = f \<and> s \<noteq> None then Some (Struct (the s)) else m g)"
  by (auto simp: with_scalar_def with_offset_def with_struct_def split: option.splits)

lemma set_offset_simps [simp]:
  "set_offset null null = None" "x \<noteq> null \<Longrightarrow> set_offset null x = Some (Reference x)"
  by (simp_all add: set_offset_def)

text \<open>A message that a builder has finished, seen as the objects that it holds.\<close>

definition message :: "('b, 'o, 'p, 'v) flatbuffers \<Rightarrow> ('b, 'o, 'p, 'v) meaning \<Rightarrow> u8 list \<Rightarrow> 'o heap \<Rightarrow> 'o \<Rightarrow> bool" where
  "message L X bs h x \<longleftrightarrow> reads L X bs h \<and> verifies L X bs h \<and> h x \<noteq> None \<and>
     fb_GetRoot L bs = place X bs x \<and>
     (\<forall>c. fb_VerifyBuffer L c (fb_Verifier L bs) = c (place X bs x) (fb_Verifier L bs)) \<and>
     levels_left X (fb_Verifier L bs) = 64 \<and> tables_left X (fb_Verifier L bs) = 1000000"

lemma succeeds_Finish:
  "documented L X \<Longrightarrow> idle X b h \<Longrightarrow> h x \<noteq> None \<Longrightarrow>
    (\<And>b'. message L X (fb_GetBuffer L b') h x \<Longrightarrow> Q b') \<Longrightarrow> succeeds (fb_Finish L x b) Q"
  unfolding documented_def message_laws_def idle_def succeeds_def message_def by metis

text \<open>Objects are never changed: what is known of a heap holds in each that extends it.\<close>

lemma map_le_new: "h x = None \<Longrightarrow> h \<subseteq>\<^sub>m h(x \<mapsto> y)"
  by (auto simp: map_le_def)

lemma map_le_Some: "h \<subseteq>\<^sub>m h' \<Longrightarrow> h x = Some y \<Longrightarrow> h' x = Some y"
  by (auto simp: map_le_def dom_def)

text \<open>
  A build outside of tables that makes an object with a property, from the objects of a heap:
  \<open>lasting\<close> properties are kept when more objects are made.
\<close>

definition lasting :: "('o heap \<Rightarrow> 'y \<Rightarrow> bool) \<Rightarrow> bool" where
  "lasting P \<longleftrightarrow> (\<forall>h h' y. h \<subseteq>\<^sub>m h' \<longrightarrow> P h y \<longrightarrow> P h' y)"

definition makes :: "('b, 'o, 'p, 'v) meaning \<Rightarrow> 'o heap \<Rightarrow> ('b, 'y) build \<Rightarrow> ('o heap \<Rightarrow> 'y \<Rightarrow> bool) \<Rightarrow> bool" where
  "makes X h f P \<longleftrightarrow> (\<forall>b. idle X b h \<longrightarrow>
     (\<exists>y b' h'. f b = Some (y, b') \<and> idle X b' h' \<and> h \<subseteq>\<^sub>m h' \<and> P h' y))"

lemma lastingD: "lasting P \<Longrightarrow> h \<subseteq>\<^sub>m h' \<Longrightarrow> P h y \<Longrightarrow> P h' y"
  unfolding lasting_def by blast

lemma lasting_list_all2:
  "(\<And>x. lasting (\<lambda>h y. R h y x)) \<Longrightarrow> lasting (\<lambda>h ys. list_all2 (R h) ys xs)"
  unfolding lasting_def by (meson list_all2_mono)

lemma makesI:
  assumes "\<And>b. idle X b h \<Longrightarrow>
    succeeds (f b) (\<lambda>r. \<exists>y b' h'. r = (y, b') \<and> idle X b' h' \<and> h \<subseteq>\<^sub>m h' \<and> P h' y)"
  shows "makes X h f P"
  using assms unfolding makes_def by (fastforce elim: succeedsE)

lemma makesE:
  assumes "makes X h f P" "idle X b h"
  obtains y b' h' where "f b = Some (y, b')" "idle X b' h'" "h \<subseteq>\<^sub>m h'" "P h' y"
  using assms unfolding makes_def by blast

text \<open>Making a table, string or vector in one go.\<close>

lemma makes_new:
  assumes "\<And>b Q. idle X b h \<Longrightarrow>
    (\<And>y b' z. idle X b' (h(y \<mapsto> z)) \<Longrightarrow> h y = None \<Longrightarrow> P (h(y \<mapsto> z)) y \<Longrightarrow> Q (y, b')) \<Longrightarrow> succeeds (f b) Q"
  shows "makes X h f P"
proof (rule makesI)
  fix b
  assume "idle X b h"
  then show "succeeds (f b) (\<lambda>r. \<exists>y b' h'. r = (y, b') \<and> idle X b' h' \<and> h \<subseteq>\<^sub>m h' \<and> P h' y)"
    by (rule assms) (blast intro: map_le_new)
qed

lemma makes_CreateString:
  "documented L X \<Longrightarrow> makes X h (fb_CreateString L s) (\<lambda>h x. h x = Some (Text s) \<and> x \<noteq> fb_null L)"
  by (rule makes_new, erule (1) succeeds_CreateString) simp

lemma makes_CreateVector:
  "documented L X \<Longrightarrow> (\<And>y. y \<in> set ys \<Longrightarrow> h y \<noteq> None) \<Longrightarrow>
    makes X h (fb_CreateVector L ys) (\<lambda>h x. h x = Some (Vector ys) \<and> x \<noteq> fb_null L)"
  by (rule makes_new, erule (1) succeeds_CreateVector) simp_all

lemma makes_bind:
  assumes "makes X h f P" "\<And>h' y. h \<subseteq>\<^sub>m h' \<Longrightarrow> P h' y \<Longrightarrow> makes X h' (g y) P'"
  shows "makes X h (\<lambda>b. f b \<bind> (\<lambda>(y, b). g y b)) P'"
  unfolding makes_def
proof (intro allI impI)
  fix b
  assume "idle X b h"
  with assms(1) obtain y b1 h1 where f: "f b = Some (y, b1)" "idle X b1 h1" "h \<subseteq>\<^sub>m h1" "P h1 y"
    by (rule makesE)
  from assms(2) [OF f(3,4)] f(2) obtain z b2 h2
    where "g y b1 = Some (z, b2)" "idle X b2 h2" "h1 \<subseteq>\<^sub>m h2" "P' h2 z"
    by (rule makesE)
  with f show "\<exists>y b' h'. f b \<bind> (\<lambda>(y, b). g y b) = Some (y, b') \<and> idle X b' h' \<and> h \<subseteq>\<^sub>m h' \<and> P' h' y"
    by (auto intro: map_le_trans)
qed

lemma makes_Some: "P h y \<Longrightarrow> makes X h (\<lambda>b. Some (y, b)) P"
  by (auto simp: makes_def)

lemma makes_write_all:
  assumes "\<And>x. lasting (\<lambda>h y. R h y x)" "\<And>x h. x \<in> set xs \<Longrightarrow> makes X h (f x) (\<lambda>h y. R h y x)"
  shows "makes X h (write_all f xs) (\<lambda>h ys. list_all2 (R h) ys xs)"
  using assms(2)
proof (induction xs arbitrary: h)
  case Nil
  then show ?case by (auto simp: makes_def intro: map_le_refl)
next
  case (Cons x xs)
  have "makes X h (\<lambda>b. f x b \<bind> (\<lambda>(y, b). write_all f xs b \<bind> (\<lambda>(ys, b). Some (y # ys, b))))
      (\<lambda>h ys. list_all2 (R h) ys (x # xs))"
  proof (rule makes_bind [OF Cons.prems], simp, rule makes_bind [OF Cons.IH])
    fix h1 y h2 ys
    assume "R h1 y x" "h1 \<subseteq>\<^sub>m h2" "list_all2 (R h2) ys xs"
    then have "list_all2 (R h2) (y # ys) (x # xs)" by (simp add: lastingD [OF assms(1)])
    then show "makes X h2 (\<lambda>b. Some (y # ys, b)) (\<lambda>h ys. list_all2 (R h) ys (x # xs))" by (rule makes_Some)
  qed (simp add: Cons.prems)
  then show ?case by simp
qed

text \<open>A message is finished with the object that a build has made as its root.\<close>

lemma write_message:
  assumes D: "documented L X" and f: "makes X Map.empty f P" and P: "\<And>h x. P h x \<Longrightarrow> h x \<noteq> None"
  obtains bs h x where
    "f (fb_FlatBufferBuilder L) \<bind> (\<lambda>(x, b). fb_Finish L x b \<bind> (\<lambda>b. Some (fb_GetBuffer L b))) = Some bs"
    "message L X bs h x" "P h x"
proof -
  from f idle_new [OF D] obtain x b h where *: "f (fb_FlatBufferBuilder L) = Some (x, b)" "idle X b h" "P h x"
    by (rule makesE)
  have "succeeds (fb_Finish L x b) (\<lambda>b'. message L X (fb_GetBuffer L b') h x)"
    using * P by (intro succeeds_Finish [OF D, of b h x])
  with * show thesis by (auto elim!: succeedsE intro: that)
qed

section \<open>Reading the fields that were set\<close>

lemma GetField_set:
  "message L X bs h r \<Longrightarrow> h x = Some (Table m) \<Longrightarrow> m f = set_scalar v d \<Longrightarrow> same_type v d \<Longrightarrow>
    fb_GetField L (place X bs x) f d = v"
  unfolding message_def reads_def set_scalar_def by (metis option.discI option.inject)

lemma GetPointer_set:
  "message L X bs h r \<Longrightarrow> h x = Some (Table m) \<Longrightarrow> m f = set_offset null y \<Longrightarrow>
    fb_GetPointer L (place X bs x) f = (if y = null then None else Some (place X bs y))"
  unfolding message_def reads_def set_offset_def by metis

lemma GetPointer_Some:
  "message L X bs h r \<Longrightarrow> h x = Some (Table m) \<Longrightarrow> m f = Some (Reference y) \<Longrightarrow>
    fb_GetPointer L (place X bs x) f = Some (place X bs y)"
  unfolding message_def reads_def by metis

lemma GetStruct_Some:
  "message L X bs h r \<Longrightarrow> h x = Some (Table m) \<Longrightarrow> m f = Some (Struct p) \<Longrightarrow>
    fb_GetStruct L (place X bs x) f = Some p"
  unfolding message_def reads_def by metis

lemma str_text: "message L X bs h r \<Longrightarrow> h x = Some (Text s) \<Longrightarrow> fb_str L (place X bs x) = s"
  unfolding message_def reads_def by metis

lemma vector_elements:
  assumes "message L X bs h r" "h x = Some (Vector ys)"
  shows "fb_size L (place X bs x) = length ys"
    "i < length ys \<Longrightarrow> fb_Get L (place X bs x) i = place X bs (ys ! i)"
  using assms unfolding message_def reads_def by metis+

lemma elements_vector:
  "message L X bs h r \<Longrightarrow> h x = Some (Vector ys) \<Longrightarrow> elements L (place X bs x) = map (place X bs) ys"
  unfolding elements_def by (rule nth_equalityI) (simp_all add: vector_elements)

lemma those_list_all2: "list_all2 (\<lambda>y w. f y = Some w) ys ws \<Longrightarrow> those (map f ys) = Some ws"
  by (induction ys ws rule: list_all2_induct) simp_all

section \<open>Verifying them\<close>

text \<open>
  A check that accepts when enough levels and tables are left, and gives back the levels.
\<close>

definition accepts :: "('b, 'o, 'p, 'v) meaning \<Rightarrow> nat \<Rightarrow> nat \<Rightarrow> 'v check \<Rightarrow> bool" where
  "accepts X l n c \<longleftrightarrow> (\<forall>v. l \<le> levels_left X v \<longrightarrow> n \<le> tables_left X v \<longrightarrow>
     (\<exists>v'. c v = (True, v') \<and> levels_left X v' = levels_left X v \<and> tables_left X v' = tables_left X v - n))"

lemma acceptsD:
  "accepts X l n c \<Longrightarrow> l \<le> levels_left X v \<Longrightarrow> n \<le> tables_left X v \<Longrightarrow> fst (c v)"
  unfolding accepts_def by (metis fst_conv)

lemma accepts_mono: "accepts X l n c \<Longrightarrow> l \<le> l' \<Longrightarrow> accepts X l' n c"
  by (simp add: accepts_def)

lemma accepts_skip: "(\<And>v. c v = (True, v)) \<Longrightarrow> accepts X 0 0 c"
  by (simp add: accepts_def)

lemma accepts_Nil: "accepts X 0 0 (all_of [])"
  by (simp add: accepts_def)

lemma accepts_Cons:
  assumes "accepts X l n c" "accepts X l' n' (all_of cs)"
  shows "accepts X (max l l') (n + n') (all_of (c # cs))"
  unfolding accepts_def
proof (intro allI impI)
  fix v
  assume v: "max l l' \<le> levels_left X v" "n + n' \<le> tables_left X v"
  with assms(1) obtain u where u: "c v = (True, u)" "levels_left X u = levels_left X v"
      "tables_left X u = tables_left X v - n"
    unfolding accepts_def by (meson add_leD1 max.boundedE)
  with v have "l' \<le> levels_left X u" "n' \<le> tables_left X u" by simp_all
  with assms(2) obtain u' where "all_of cs u = (True, u')" "levels_left X u' = levels_left X u"
      "tables_left X u' = tables_left X u - n'"
    unfolding accepts_def by meson
  with u show "\<exists>v'. all_of (c # cs) v = (True, v') \<and> levels_left X v' = levels_left X v \<and>
      tables_left X v' = tables_left X v - (n + n')"
    by (intro exI [of _ u']) (simp add: all_of.simps)
qed

lemma accepts_skips: "accepts X 0 0 c \<Longrightarrow> accepts X l n (all_of cs) \<Longrightarrow> accepts X l n (all_of (c # cs))"
  using accepts_Cons [of X 0 0 c l n cs] by simp

lemma accepts_front: "list_all (accepts X 0 0) cs \<Longrightarrow> accepts X l n (all_of ds) \<Longrightarrow> accepts X l n (all_of (cs @ ds))"
  by (induction cs) (auto intro: accepts_skips)

lemma accepts_front_only: "list_all (accepts X 0 0) cs \<Longrightarrow> accepts X 0 0 (all_of cs)"
  using accepts_front [of X cs 0 0 "[]"] accepts_Nil [of X] by simp

lemma accepts_single: "accepts X l n c \<Longrightarrow> accepts X l n (all_of [c])"
  using accepts_Cons [OF _ accepts_Nil, of X l n c] by simp

text \<open>The fields of a table, between the calls that open and leave it.\<close>

lemma all_of_append: "all_of (cs @ ds) v = (case all_of cs v of (ok, v) \<Rightarrow> if ok then all_of ds v else (False, v))"
  by (induction cs arbitrary: v) (simp_all add: all_of.simps split: prod.splits)

lemma accepts_table:
  assumes M: "message L X bs h r" and x: "h x = Some (Table m)" and "accepts X l n (all_of cs)"
  shows "accepts X (Suc l) (Suc n)
    (all_of (fb_VerifyTableStart L (place X bs x) # cs @ [fb_VerifyEndTable L]))"
  unfolding accepts_def
proof (intro allI impI)
  fix v
  assume v: "Suc l \<le> levels_left X v" "Suc n \<le> tables_left X v"
  from M x obtain u where u: "fb_VerifyTableStart L (place X bs x) v = (0 < levels_left X v \<and> 0 < tables_left X v, u)"
      "levels_left X u = levels_left X v - 1" "tables_left X u = tables_left X v - 1"
    unfolding message_def verifies_def by meson
  with v have "l \<le> levels_left X u" "n \<le> tables_left X u" by linarith+
  with assms(3) obtain u' where u': "all_of cs u = (True, u')" "levels_left X u' = levels_left X u"
      "tables_left X u' = tables_left X u - n"
    unfolding accepts_def by meson
  from M obtain e where e: "fb_VerifyEndTable L u' = (True, e)" "levels_left X e = levels_left X u' + 1"
      "tables_left X e = tables_left X u'"
    unfolding message_def verifies_def by meson
  have "all_of (fb_VerifyTableStart L (place X bs x) # cs @ [fb_VerifyEndTable L]) v = (True, e)"
    using v u u' e by (simp add: all_of.simps all_of_append)
  moreover have "levels_left X e = levels_left X v" "tables_left X e = tables_left X v - Suc n"
    using v u u' e by linarith+
  ultimately show "\<exists>v'. all_of (fb_VerifyTableStart L (place X bs x) # cs @ [fb_VerifyEndTable L]) v = (True, v') \<and>
      levels_left X v' = levels_left X v \<and> tables_left X v' = tables_left X v - Suc n"
    by blast
qed

lemma accepts_field:
  assumes "message L X bs h r" "h x = Some (Table m)"
  shows "m f = set_scalar s d \<Longrightarrow> same_type s d \<Longrightarrow> accepts X 0 0 (fb_VerifyField L (place X bs x) d f)"
    "m f = Some (Struct p) \<Longrightarrow> accepts X 0 0 (fb_VerifyStructRequired L (place X bs x) f)"
    "m f = set_offset null y \<Longrightarrow> accepts X 0 0 (fb_VerifyOffset L (place X bs x) f)"
    "m f = set_offset null y \<Longrightarrow> y \<noteq> null \<Longrightarrow> accepts X 0 0 (fb_VerifyOffsetRequired L (place X bs x) f)"
  using assms unfolding message_def verifies_def set_scalar_def set_offset_def
  by (auto intro!: accepts_skip split: if_splits)

lemma accepts_reference:
  assumes "message L X bs h r" "h x = Some (Table m)" "m f = Some (Reference y)"
  shows "accepts X 0 0 (fb_VerifyOffset L (place X bs x) f)"
    "accepts X 0 0 (fb_VerifyOffsetRequired L (place X bs x) f)"
  using assms unfolding message_def verifies_def by (auto intro!: accepts_skip)

lemma accepts_string:
  "message L X bs h r \<Longrightarrow> y = None \<or> (\<exists>x s. y = Some (place X bs x) \<and> h x = Some (Text s)) \<Longrightarrow>
    accepts X 0 0 (fb_VerifyString L y)"
  unfolding message_def verifies_def by (auto intro!: accepts_skip)

lemma accepts_no_object:
  "message L X bs h r \<Longrightarrow> accepts X 0 0 (fb_VerifyVector L None)"
  "message L X bs h r \<Longrightarrow> accepts X 0 0 (fb_VerifyTable L c None)"
  "message L X bs h r \<Longrightarrow> accepts X 0 0 (fb_VerifyVectorOfTables L c None)"
  unfolding message_def verifies_def by (auto intro!: accepts_skip)

lemma accepts_subtable:
  "message L X bs h r \<Longrightarrow> h x = Some (Table m) \<Longrightarrow> accepts X l n (c (place X bs x)) \<Longrightarrow>
    accepts X l n (fb_VerifyTable L c (Some (place X bs x)))"
  unfolding message_def verifies_def accepts_def by metis

lemma accepts_sum:
  "list_all2 (\<lambda>c n. accepts X l n c) cs ns \<Longrightarrow> accepts X l (sum_list ns) (all_of cs)"
proof (induction cs ns rule: list_all2_induct)
  case Nil
  then show ?case by (simp add: accepts_def)
next
  case (Cons c cs n ns)
  from accepts_Cons [OF Cons(1,3)] show ?case by simp
qed

lemma accepts_vector:
  assumes "message L X bs h r" "h x = Some (Vector ys)"
  shows "accepts X 0 0 (fb_VerifyVector L (Some (place X bs x)))"
    "list_all2 (\<lambda>y n. accepts X l n (c (place X bs y))) ys ns \<Longrightarrow>
      accepts X l (sum_list ns) (fb_VerifyVectorOfTables L c (Some (place X bs x)))"
proof -
  show "accepts X 0 0 (fb_VerifyVector L (Some (place X bs x)))"
    using assms unfolding message_def verifies_def by (auto intro!: accepts_skip)
  assume "list_all2 (\<lambda>y n. accepts X l n (c (place X bs y))) ys ns"
  then have "accepts X l (sum_list ns) (all_of (map (\<lambda>y. c (place X bs y)) ys))"
    by (intro accepts_sum) (simp add: list.rel_map)
  moreover have "fb_VerifyVectorOfTables L c (Some (place X bs x)) v = all_of (map (\<lambda>y. c (place X bs y)) ys) v" for v
    using assms unfolding message_def verifies_def by metis
  ultimately show "accepts X l (sum_list ns) (fb_VerifyVectorOfTables L c (Some (place X bs x)))"
    by (simp add: accepts_def)
qed

text \<open>The default verifier accepts the root if it needs at most 64 levels and a million tables.\<close>

lemma VerifyBuffer_accepts:
  assumes "message L X bs h r" "accepts X l n (c (place X bs r))" "l \<le> 64" "n \<le> 1000000"
  shows "fst (fb_VerifyBuffer L c (fb_Verifier L bs))"
  using assms acceptsD [OF assms(2), of "fb_Verifier L bs"] by (simp add: message_def)

end
