(* ===== verification/Crc.thy ===== *)
theory Crc
  imports Prelude
begin

text \<open>
  The CRC++ library of UPZP-GameProcess/inc/CRC.h. A template instance
  \<open>CRC::f<CRCType, CRCWidth>\<close> is the definition \<open>f\<close> at the word type \<open>CRCType\<close>
  (its length is the number of bits of the C++ type) with \<open>CRCWidth\<close> as the argument
  \<open>W\<close>. Integer promotion does not show: every shift and exclusive or of the source is
  cast back to \<open>CRCType\<close>, which is what the word operations compute.

  The lemmas show: the documented check values; that \<open>Finalize\<close> and \<open>UndoFinalize\<close> are
  inverse; that a CRC may be computed in parts; that the table-driven and the branchless
  routines agree with the bit-by-bit one; and that a reflected CRC detects every error
  burst not longer than its register.
\<close>

section \<open>Parameters\<close>

record 'crctype parameters =
  polynomial :: 'crctype
  initialValue :: 'crctype
  finalXOR :: 'crctype
  reflectInput :: bool
  reflectOutput :: bool

section \<open>The bit-by-bit algorithm\<close>

text \<open>\<open>CRC::Reflect\<close>: the loop runs \<open>numBits\<close> times over the pair of variables.\<close>

fun reflect_loop :: "nat \<Rightarrow> 'a::len word \<Rightarrow> 'a word \<Rightarrow> 'a word" where
  "reflect_loop 0 value reversedValue = reversedValue"
| "reflect_loop (Suc n) value reversedValue =
     reflect_loop n (drop_bit 1 value) (push_bit 1 reversedValue OR (value AND 1))"

definition Reflect :: "'a::len word \<Rightarrow> nat \<Rightarrow> 'a word" where
  "Reflect value numBits = reflect_loop numBits value 0"

text \<open>The constant \<open>BIT_MASK\<close> of \<open>Finalize\<close>, \<open>UndoFinalize\<close> and \<open>InitTable\<close>.\<close>

definition BIT_MASK :: "nat \<Rightarrow> 'a::len word" where
  "BIT_MASK W = push_bit (W - 1) 1 OR (push_bit (W - 1) 1 - 1)"

definition Finalize :: "nat \<Rightarrow> 'a::len word \<Rightarrow> 'a word \<Rightarrow> bool \<Rightarrow> 'a word" where
  "Finalize W remainder final_xor reflect_output =
     (let remainder = (if reflect_output then Reflect remainder W else remainder)
      in (remainder XOR final_xor) AND BIT_MASK W)"

definition UndoFinalize :: "nat \<Rightarrow> 'a::len word \<Rightarrow> 'a word \<Rightarrow> bool \<Rightarrow> 'a word" where
  "UndoFinalize W crc final_xor reflect_output =
     (let crc = (crc AND BIT_MASK W) XOR final_xor
      in if reflect_output then Reflect crc W else crc)"

text \<open>One bit of the register, shifting right (reflected) and left.\<close>

definition shift_right :: "'a::len word \<Rightarrow> 'a word \<Rightarrow> 'a word" where
  "shift_right poly remainder =
     (if remainder AND 1 \<noteq> 0 then drop_bit 1 remainder XOR poly else drop_bit 1 remainder)"

definition shift_left :: "nat \<Rightarrow> 'a::len word \<Rightarrow> 'a word \<Rightarrow> 'a word" where
  "shift_left width_minus_one poly remainder =
     (if remainder AND push_bit width_minus_one 1 \<noteq> 0 then push_bit 1 remainder XOR poly
      else push_bit 1 remainder)"

text \<open>The three loops over the bytes; the inner loop over \<open>CHAR_BIT\<close> bits is \<open>^^ 8\<close>.\<close>

fun remainder_reflected :: "'a::len word \<Rightarrow> u8 list \<Rightarrow> 'a word \<Rightarrow> 'a word" where
  "remainder_reflected poly [] remainder = remainder"
| "remainder_reflected poly (b # bs) remainder =
     remainder_reflected poly bs ((shift_right poly ^^ 8) (remainder XOR ucast b))"

fun remainder_normal :: "nat \<Rightarrow> 'a::len word \<Rightarrow> u8 list \<Rightarrow> 'a word \<Rightarrow> 'a word" where
  "remainder_normal W poly [] remainder = remainder"
| "remainder_normal W poly (b # bs) remainder =
     remainder_normal W poly bs
       ((shift_left (W - 1) poly ^^ 8)
          (remainder XOR push_bit (W - 8) (ucast b)))"

fun remainder_short :: "'a::len word \<Rightarrow> u8 list \<Rightarrow> 'a word \<Rightarrow> 'a word" where
  "remainder_short poly [] remainder = remainder"
| "remainder_short poly (b # bs) remainder =
     remainder_short poly bs
       ((shift_left 7 poly ^^ 8) (remainder XOR ucast b))"

definition CalculateRemainder ::
  "nat \<Rightarrow> u8 list \<Rightarrow> 'a::len word parameters \<Rightarrow> 'a word \<Rightarrow> 'a word" where
  "CalculateRemainder W data p remainder =
     (if reflectInput p
      then remainder_reflected (Reflect (polynomial p) W) data remainder
      else if 8 \<le> W then remainder_normal W (polynomial p) data remainder
      else drop_bit (8 - W)
             (remainder_short (push_bit (8 - W) (polynomial p)) data
                (push_bit (8 - W) remainder)))"

definition Calculate :: "nat \<Rightarrow> u8 list \<Rightarrow> 'a::len word parameters \<Rightarrow> 'a word" where
  "Calculate W data p =
     Finalize W (CalculateRemainder W data p (initialValue p)) (finalXOR p)
       (reflectInput p \<noteq> reflectOutput p)"

text \<open>The overload with a fourth argument appends data to a CRC computed earlier.\<close>

definition Calculate_append ::
  "nat \<Rightarrow> u8 list \<Rightarrow> 'a::len word parameters \<Rightarrow> 'a word \<Rightarrow> 'a word" where
  "Calculate_append W data p crc =
     (let remainder = UndoFinalize W crc (finalXOR p) (reflectInput p \<noteq> reflectOutput p)
      in Finalize W (CalculateRemainder W data p remainder) (finalXOR p)
           (reflectInput p \<noteq> reflectOutput p))"

section \<open>The lookup table\<close>

record 'crctype crc_table =
  table_parameters :: "'crctype parameters"
  table :: "'crctype list"

definition InitTable :: "nat \<Rightarrow> 'a::len word parameters \<Rightarrow> 'a word list" where
  "InitTable W p =
     map (\<lambda>i. let crc = CalculateRemainder W [word_of_nat i] p 0 AND BIT_MASK W
              in if \<not> reflectInput p \<and> W < 8 then push_bit (8 - W) crc else crc)
       [0..<256]"

definition MakeTable :: "nat \<Rightarrow> 'a::len word parameters \<Rightarrow> 'a word crc_table" where
  "MakeTable W p = \<lparr>table_parameters = p, table = InitTable W p\<rparr>"

definition table_at :: "'a::len word crc_table \<Rightarrow> u8 \<Rightarrow> 'a word" where
  "table_at t index = table t ! unat index"

fun table_reflected :: "'a::len word crc_table \<Rightarrow> u8 list \<Rightarrow> 'a word \<Rightarrow> 'a word" where
  "table_reflected t [] remainder = remainder"
| "table_reflected t (b # bs) remainder =
     table_reflected t bs
       (drop_bit 8 remainder XOR table_at t (ucast (remainder XOR ucast b)))"

fun table_normal :: "nat \<Rightarrow> 'a::len word crc_table \<Rightarrow> u8 list \<Rightarrow> 'a word \<Rightarrow> 'a word" where
  "table_normal W t [] remainder = remainder"
| "table_normal W t (b # bs) remainder =
     table_normal W t bs
       (push_bit 8 remainder XOR table_at t (ucast (drop_bit (W - 8) remainder XOR ucast b)))"

fun table_short :: "'a::len word crc_table \<Rightarrow> u8 list \<Rightarrow> 'a word \<Rightarrow> 'a word" where
  "table_short t [] remainder = remainder"
| "table_short t (b # bs) remainder =
     table_short t bs (table_at t (ucast (remainder XOR ucast b)))"

definition CalculateRemainder_table ::
  "nat \<Rightarrow> u8 list \<Rightarrow> 'a::len word crc_table \<Rightarrow> 'a word \<Rightarrow> 'a word" where
  "CalculateRemainder_table W data t remainder =
     (if reflectInput (table_parameters t) then table_reflected t data remainder
      else if 8 \<le> W then table_normal W t data remainder
      else drop_bit (8 - W) (table_short t data (push_bit (8 - W) remainder)))"

definition Calculate_table :: "nat \<Rightarrow> u8 list \<Rightarrow> 'a::len word crc_table \<Rightarrow> 'a word" where
  "Calculate_table W data t =
     (let p = table_parameters t
      in Finalize W (CalculateRemainder_table W data t (initialValue p)) (finalXOR p)
           (reflectInput p \<noteq> reflectOutput p))"

definition Calculate_table_append ::
  "nat \<Rightarrow> u8 list \<Rightarrow> 'a::len word crc_table \<Rightarrow> 'a word \<Rightarrow> 'a word" where
  "Calculate_table_append W data t crc =
     (let p = table_parameters t;
          remainder = UndoFinalize W crc (finalXOR p) (reflectInput p \<noteq> reflectOutput p)
      in Finalize W (CalculateRemainder_table W data t remainder) (finalXOR p)
           (reflectInput p \<noteq> reflectOutput p))"

section \<open>The branchless inner loop (\<open>CRCPP_BRANCHLESS\<close>)\<close>

definition shift_right_branchless :: "'a::len word \<Rightarrow> 'a word \<Rightarrow> 'a word" where
  "shift_right_branchless poly remainder =
     drop_bit 1 remainder XOR ((remainder AND 1) * poly)"

definition shift_left_branchless :: "nat \<Rightarrow> 'a::len word \<Rightarrow> 'a word \<Rightarrow> 'a word" where
  "shift_left_branchless width_minus_one poly remainder =
     push_bit 1 remainder XOR ((drop_bit width_minus_one remainder AND 1) * poly)"

section \<open>Bits of the operations\<close>

lemma bit_double_word: "bit ((r :: 'a::len word) * 2) n \<longleftrightarrow> n < LENGTH('a) \<and> 0 < n \<and> bit r (n - 1)"
  using bit_push_bit_iff [of 1 r n] by (auto simp: push_bit_eq_mult)

lemma and_exp_eq_0: "(r :: 'a::len word) AND 2 ^ k = 0 \<longleftrightarrow> \<not> bit r k"
  using bit_iff_and_push_bit_not_eq_0 [of r k] by (simp add: push_bit_of_1)

lemma mod_2_eq_0_bit: "(r :: 'a::len word) mod 2 = 0 \<longleftrightarrow> \<not> bit r 0"
  by (simp add: bit_0 even_iff_mod_2_eq_zero)

lemmas register_bits = bit_simps bit_double_word and_exp_eq_0 and_one_eq mod_2_eq_0_bit


lemma bit_reflect_loop:
  "n < LENGTH('a) \<Longrightarrow> bit (reflect_loop k (v :: 'a::len word) r) n =
     (if n < k then bit v (k - 1 - n) else bit r (n - k))"
proof (induction k arbitrary: v r)
  case 0
  then show ?case by simp
next
  case (Suc k)
  consider "n < k" | "n = k" | "k < n" by linarith
  then show ?case
    using Suc by cases (auto simp: register_bits Suc_diff_Suc bit_0 even_or_iff simp flip: bit_Suc)
qed

lemma bit_Reflect:
  "W \<le> LENGTH('a) \<Longrightarrow>
     bit (Reflect (v :: 'a::len word) W) n \<longleftrightarrow> n < W \<and> bit v (W - 1 - n)"
  using bit_imp_le_length [of "Reflect v W" n]
  by (cases "n < LENGTH('a)") (auto simp: Reflect_def bit_reflect_loop)

lemma BIT_MASK_eq_mask: "1 \<le> W \<Longrightarrow> (BIT_MASK W :: 'a::len word) = mask W"
proof (rule bit_word_eqI)
  fix n assume "1 \<le> W" "n < LENGTH('a)"
  moreover have "(push_bit (W - 1) 1 - 1 :: 'a word) = mask (W - 1)"
    by (simp add: mask_eq_exp_minus_1 push_bit_eq_mult)
  ultimately show "bit (BIT_MASK W :: 'a word) n = bit (mask W :: 'a word) n"
    by (auto simp: BIT_MASK_def bit_simps)
qed

lemma bit_shift_right:
  "bit (shift_right p (r :: 'a::len word)) n \<longleftrightarrow>
     n < LENGTH('a) \<and> bit r (Suc n) \<noteq> (bit r 0 \<and> bit p n)"
  using bit_imp_le_length [of p n] bit_imp_le_length [of r "Suc n"]
  by (auto simp: shift_right_def register_bits simp flip: bit_Suc)

lemma bit_shift_left:
  "k < LENGTH('a) \<Longrightarrow> bit (shift_left k p (r :: 'a::len word)) n \<longleftrightarrow>
     n < LENGTH('a) \<and> (0 < n \<and> bit r (n - 1)) \<noteq> (bit r k \<and> bit p n)"
  using bit_imp_le_length [of p n]
  by (auto simp: shift_left_def register_bits)

lemma xor_eq_0_word: "(x :: 'a::len word) XOR y = 0 \<longleftrightarrow> x = y"
  by (metis xor.assoc xor_self_eq xor.right_neutral xor.left_neutral)

lemma xor_eq_iff_word: "(x :: 'a::len word) XOR y = z \<longleftrightarrow> x = y XOR z"
  by (rule iffI) (auto simp: xor.left_commute xor.commute)

section \<open>Registers as linear maps\<close>

text \<open>
  What the proofs use of a shift register: one step is additive over exclusive or
  (\<open>linear_register\<close>), loses no state (\<open>reversible_register\<close>), and the first eight
  steps shift out the bytes that were fed (\<open>burst_register\<close>).
\<close>

locale linear_register =
  fixes step :: "'a::len word \<Rightarrow> 'a word"
  assumes step_xor: "step (x XOR y) = step x XOR step y"
begin

lemma steps_xor: "(step ^^ n) (x XOR y) = (step ^^ n) x XOR (step ^^ n) y"
  by (induction n) (simp_all add: step_xor)

lemma steps_zero: "(step ^^ n) 0 = 0"
  using steps_xor [of n 0 0] by simp

end

interpretation right: linear_register "shift_right p" for p :: "'a::len word"
  by unfold_locales (auto intro!: bit_word_eqI simp: bit_shift_right bit_simps)

interpretation left: linear_register "shift_left k p" for k and p :: "'a::len word"
proof unfold_locales
  fix x y
  show "shift_left k p (x XOR y) =
      shift_left k p x XOR shift_left k p y"
    by (rule bit_word_eqI)
      (auto simp: shift_left_def register_bits)
qed


locale reversible_register = linear_register +
  assumes step_eq_0: "step x = 0 \<Longrightarrow> x = 0"
begin

lemma steps_eq_0: "(step ^^ n) x = 0 \<longleftrightarrow> x = 0"
  using step_xor [of 0 0] by (induction n) (auto dest: step_eq_0)

lemma steps_inject: "(step ^^ n) x = (step ^^ n) y \<longleftrightarrow> x = y"
proof
  assume "(step ^^ n) x = (step ^^ n) y"
  then have "(step ^^ n) (x XOR y) = 0" by (simp add: steps_xor)
  then show "x = y" by (simp add: steps_eq_0 xor_eq_0_word)
qed simp

end

text \<open>The bytes of a message as they line up with the register.\<close>

fun load_le :: "u8 list \<Rightarrow> 'a::len word" where
  "load_le [] = 0"
| "load_le (b # bs) = ucast b XOR push_bit 8 (load_le bs)"

locale burst_register = reversible_register step
  for step :: "'a::len word \<Rightarrow> 'a word" +
  fixes feed :: "u8 list \<Rightarrow> 'a word \<Rightarrow> 'a word"
  assumes feed_Nil: "feed [] r = r"
    and feed_Cons: "feed (b # bs) r = feed bs ((step ^^ 8) (r XOR ucast b))"
    and steps_shifted: "(step ^^ 8) (push_bit 8 v) = take_bit (LENGTH('a) - 8) v"
begin

lemma feed_append: "feed (xs @ ys) r = feed ys (feed xs r)"
  by (induction xs arbitrary: r) (simp_all add: feed_Nil feed_Cons)

lemma feed_inject: "feed bs r = feed bs s \<longleftrightarrow> r = s"
proof (induction bs arbitrary: r s)
  case Nil
  then show ?case by (simp add: feed_Nil)
next
  case (Cons b bs)
  have "r XOR ucast b = s XOR ucast b \<longleftrightarrow> r = s"
    by (metis xor.assoc xor_self_eq xor.right_neutral)
  then show ?case by (simp add: feed_Cons Cons steps_inject)
qed

lemma feed_xor:
  "length xs = length ys \<Longrightarrow>
     feed (map2 (XOR) xs ys) (r XOR s) = feed xs r XOR feed ys s"
proof (induction xs ys arbitrary: r s rule: list_induct2)
  case Nil
  then show ?case by (simp add: feed_Nil)
next
  case (Cons x xs y ys)
  have "(r XOR s) XOR ucast (x XOR y) = (r XOR ucast x) XOR (s XOR ucast y)"
    by (rule bit_word_eqI) (auto simp: bit_simps)
  then show ?case by (simp add: feed_Cons Cons steps_xor)
qed

text \<open>
  A register of at least \<open>k\<close> bytes reaches 0 after \<open>k\<close> bytes only from the state that
  those bytes cancel.
\<close>

lemma load_le_take: "take_bit (8 * length bs) (load_le bs :: 'a word) = load_le bs"
proof (rule bit_word_eqI)
  have "bit (load_le bs :: 'b::len word) n \<Longrightarrow> n < 8 * length bs" for n
  proof (induction bs arbitrary: n)
    case (Cons b bs)
    show ?case
    proof (cases "n < 8")
      case False
      then have "\<not> bit b n" using bit_imp_le_length [of b n] by auto
      with Cons False show ?thesis by (fastforce simp: bit_simps)
    qed simp
  qed simp
  then show "bit (take_bit (8 * length bs) (load_le bs :: 'a word)) n = bit (load_le bs :: 'a word) n"
    for n by (auto simp: bit_simps)
qed

lemma feed_eq_0:
  "8 * length bs \<le> LENGTH('a) \<Longrightarrow> feed bs r = 0 \<longleftrightarrow> r = load_le bs"
proof (induction bs arbitrary: r)
  case Nil
  then show ?case by (simp add: feed_Nil)
next
  case (Cons b bs)
  have m: "min (LENGTH('a) - 8) (8 * length bs) = 8 * length bs"
    using Cons.prems by simp
  have "take_bit (LENGTH('a) - 8) (load_le bs :: 'a word) =
      take_bit (LENGTH('a) - 8) (take_bit (8 * length bs) (load_le bs))"
    by (simp add: load_le_take)
  also have "\<dots> = load_le bs"
    by (subst take_bit_take_bit) (simp only: m load_le_take)
  finally have "(step ^^ 8) (push_bit 8 (load_le bs)) = load_le bs"
    by (simp add: steps_shifted)
  then have "feed (b # bs) r = 0 \<longleftrightarrow>
      (step ^^ 8) (r XOR ucast b) = (step ^^ 8) (push_bit 8 (load_le bs))"
    using Cons by (simp add: feed_Cons)
  also have "\<dots> \<longleftrightarrow> r = ucast b XOR push_bit 8 (load_le bs)"
    by (simp only: steps_inject xor_eq_iff_word)
  finally show ?case by simp
qed

lemma load_le_eq_0:
  "8 * length bs \<le> LENGTH('a) \<Longrightarrow> (load_le bs :: 'a word) = 0 \<Longrightarrow> \<forall>b \<in> set bs. b = 0"
proof (induction bs)
  case Nil
  then show ?case by simp
next
  case (Cons b bs)
  from Cons.prems have bits: "\<not> bit (ucast b XOR push_bit 8 (load_le bs :: 'a word)) n" for n
    by simp
  have "b = 0"
  proof (rule bit_word_eqI)
    fix n assume "n < LENGTH(8)"
    with bits [of n] Cons.prems(1) show "bit b n = bit 0 n" by (auto simp: bit_simps)
  qed
  moreover have "(load_le bs :: 'a word) = 0"
  proof (rule bit_word_eqI)
    fix n assume n: "n < LENGTH('a)"
    show "bit (load_le bs :: 'a word) n = bit 0 n"
    proof (cases "n + 8 < LENGTH('a)")
      case True
      moreover have "\<not> bit b (n + 8)" using bit_imp_le_length [of b "n + 8"] by auto
      ultimately show ?thesis using bits [of "n + 8"] by (auto simp: bit_simps)
    next
      case False
      with Cons.prems(1) have "8 * length bs \<le> n" by simp
      then have "\<not> bit (take_bit (8 * length bs) (load_le bs :: 'a word)) n"
        by (simp add: bit_simps)
      then show ?thesis by (simp add: load_le_take)
    qed
  qed
  ultimately show ?case using Cons by simp
qed

lemma burst_detected:
  assumes same: "length xs = length ys" and short: "8 * length xs \<le> LENGTH('a)"
    and eq: "feed (as @ xs @ bs) r = feed (as @ ys @ bs) r"
  shows "xs = ys"
proof -
  from eq have "feed xs (feed as r) = feed ys (feed as r)"
    by (simp add: feed_append feed_inject)
  then have "feed (map2 (XOR) xs ys) 0 = 0"
    using feed_xor [OF same, of "feed as r" "feed as r"] by simp
  then have "(load_le (map2 (XOR) xs ys) :: 'a word) = 0"
    using same short by (subst (asm) feed_eq_0) auto
  then have "\<forall>b \<in> set (map2 (XOR) xs ys). b = 0"
    using same short by (intro load_le_eq_0) auto
  then have zero: "map2 (XOR) xs ys ! i = 0" if "i < length xs" for i
    using that same by (metis length_map length_zip min.idem nth_mem)
  from same show ?thesis
  proof (rule nth_equalityI)
    fix i assume "i < length xs"
    with zero [of i] same show "xs ! i = ys ! i" by (simp add: xor_eq_0_word)
  qed
qed

end

section \<open>Well-formed parameters\<close>

text \<open>
  The width fits the type and at least a byte does; a CRC narrower than a byte is kept
  in 8 bits; and no parameter has a bit beyond the width.
\<close>

definition wf_parameters :: "nat \<Rightarrow> 'a::len word parameters \<Rightarrow> bool" where
  "wf_parameters W p \<longleftrightarrow>
     1 \<le> W \<and> W \<le> LENGTH('a) \<and> 8 \<le> LENGTH('a) \<and> (W < 8 \<longrightarrow> LENGTH('a) = 8) \<and>
     take_bit W (polynomial p) = polynomial p \<and>
     take_bit W (initialValue p) = initialValue p \<and>
     take_bit W (finalXOR p) = finalXOR p"

lemma take_bit_eqD: "take_bit W x = (x :: 'a::len word) \<Longrightarrow> bit x n \<Longrightarrow> n < W"
  by (metis bit_take_bit_iff)

lemma bit_Finalize:
  assumes "1 \<le> W" "W \<le> LENGTH('a)"
  shows "bit (Finalize W (x :: 'a::len word) fx ro) n \<longleftrightarrow>
     n < W \<and> (if ro then bit x (W - 1 - n) else bit x n) \<noteq> bit fx n"
  using assms bit_imp_le_length [of x n] bit_imp_le_length [of fx n]
  by (auto simp: Finalize_def BIT_MASK_eq_mask bit_simps bit_Reflect)

lemma bit_UndoFinalize:
  assumes "1 \<le> W" "W \<le> LENGTH('a)" "take_bit W fx = fx"
  shows "bit (UndoFinalize W (x :: 'a::len word) fx ro) n \<longleftrightarrow>
     n < W \<and> (if ro then bit x (W - 1 - n) \<noteq> bit fx (W - 1 - n) else bit x n \<noteq> bit fx n)"
  using assms bit_imp_le_length [of x n] take_bit_eqD [of W fx n]
  by (auto simp: UndoFinalize_def BIT_MASK_eq_mask bit_simps bit_Reflect)

lemma UndoFinalize_Finalize:
  assumes "1 \<le> W" "W \<le> LENGTH('a)" "take_bit W fx = fx"
  shows "UndoFinalize W (Finalize W (x :: 'a::len word) fx ro) fx ro = take_bit W x"
  using assms
  by (intro bit_word_eqI) (auto simp: bit_UndoFinalize bit_Finalize bit_simps)

lemma Finalize_UndoFinalize:
  assumes "1 \<le> W" "W \<le> LENGTH('a)" "take_bit W fx = fx"
  shows "Finalize W (UndoFinalize W (c :: 'a::len word) fx ro) fx ro = take_bit W c"
  using assms
  by (intro bit_word_eqI) (auto simp: bit_UndoFinalize bit_Finalize bit_simps)

lemma Finalize_take_bit:
  assumes "1 \<le> W" "W \<le> LENGTH('a)" "take_bit W x = take_bit W y"
  shows "Finalize W (x :: 'a::len word) fx ro = Finalize W y fx ro"
proof (rule bit_word_eqI)
  have same: "bit x n = bit y n" if "n < W" for n
    using assms(3) that by (metis bit_take_bit_iff)
  show "bit (Finalize W x fx ro) n = bit (Finalize W y fx ro) n" for n
    using assms(1,2) by (auto simp: bit_Finalize same)
qed

section \<open>The three registers\<close>

lemma steps_right_high:
  assumes "\<And>n. bit p n \<Longrightarrow> n < W" "W \<le> n"
  shows "bit ((shift_right p ^^ k) x) n \<longleftrightarrow> bit (x :: 'a::len word) (n + k)"
  using assms(2)
proof (induction k arbitrary: n)
  case 0
  then show ?case by simp
next
  case (Suc k)
  then have "\<not> bit p n" using assms(1) [of n] by auto
  with Suc show ?case
    using bit_imp_le_length [of x "n + Suc k"] by (auto simp: bit_shift_right)
qed

lemma steps_right_shifted:
  "k \<le> LENGTH('a) \<Longrightarrow>
     (shift_right p ^^ k) (push_bit k (v :: 'a::len word)) = take_bit (LENGTH('a) - k) v"
proof (induction k arbitrary: v)
  case 0
  then show ?case by (simp add: take_bit_word_eq_self)
next
  case (Suc k)
  have "shift_right p (push_bit (Suc k) v) = push_bit k (take_bit (LENGTH('a) - Suc k) v)"
    by (rule bit_word_eqI) (use Suc.prems in \<open>auto simp: bit_shift_right bit_simps
        simp del: push_bit_Suc\<close>)
  then have "(shift_right p ^^ Suc k) (push_bit (Suc k) v) =
      (shift_right p ^^ k) (push_bit k (take_bit (LENGTH('a) - Suc k) v))"
    by (simp only: funpow_Suc_right comp_apply)
  with Suc show ?case by (simp add: min_def)
qed

lemma shift_right_eq_0:
  assumes "bit p (LENGTH('a) - 1)" "shift_right p (x :: 'a::len word) = 0"
  shows "x = 0"
proof (rule bit_word_eqI)
  have none: "\<not> bit (shift_right p x) n" for n using assms(2) by simp
  have low: "\<not> bit x 0"
    using none [of "LENGTH('a) - 1"] assms(1) bit_imp_le_length [of x "LENGTH('a)"]
    by (auto simp: bit_shift_right)
  show "bit x n = bit 0 n" if "n < LENGTH('a)" for n
    using none [of "n - 1"] low that by (cases n) (auto simp: bit_shift_right)
qed

lemma burst_register_reflected:
  assumes "8 \<le> LENGTH('a)" "bit p (LENGTH('a::len) - 1)"
  shows "burst_register (shift_right p :: 'a word \<Rightarrow> 'a word) (remainder_reflected p)"
  using assms by unfold_locales
    (auto intro: shift_right_eq_0 simp: steps_right_shifted)

lemma remainder_reflected_append:
  "remainder_reflected p (xs @ ys) r = remainder_reflected p ys (remainder_reflected p xs r)"
  by (induction xs arbitrary: r) simp_all

lemma remainder_normal_append:
  "remainder_normal W p (xs @ ys) r = remainder_normal W p ys (remainder_normal W p xs r)"
  by (induction xs arbitrary: r) simp_all

lemma remainder_short_append:
  "remainder_short p (xs @ ys) r = remainder_short p ys (remainder_short p xs r)"
  by (induction xs arbitrary: r) simp_all

text \<open>The reflected register never leaves the width.\<close>

lemma remainder_reflected_in_width:
  fixes r :: "'a::len word"
  assumes p: "\<And>n. bit p n \<Longrightarrow> n < W" and r: "take_bit W r = r"
  shows "take_bit W (remainder_reflected p bs r) = remainder_reflected p bs r"
  using r
proof (induction bs arbitrary: r)
  case Nil
  then show ?case by simp
next
  case (Cons b bs)
  have "take_bit W ((shift_right p ^^ 8) (r XOR ucast b)) = (shift_right p ^^ 8) (r XOR ucast b)"
  proof (rule bit_word_eqI)
    fix n
    have "n < W" if "bit ((shift_right p ^^ 8) (r XOR ucast b)) n"
      using that take_bit_eqD [OF Cons.prems, of "n + 8"] bit_imp_le_length [of b "n + 8"]
      by (cases "W \<le> n") (auto simp: steps_right_high [OF p] bit_simps)
    then show "bit (take_bit W ((shift_right p ^^ 8) (r XOR ucast b))) n =
        bit ((shift_right p ^^ 8) (r XOR ucast b)) n"
      by (auto simp: bit_simps)
  qed
  with Cons.IH show ?case by simp
qed

text \<open>The bits of a left-shifting register below the width depend on those bits alone.\<close>

lemma take_bit_eq_iff_word:
  "take_bit W x = take_bit W y \<longleftrightarrow> (\<forall>n<W. bit (x :: 'a::len word) n = bit y n)"
  by (auto simp: bit_eq_iff bit_simps dest: bit_imp_le_length)

lemma steps_left_take_bit:
  assumes "1 \<le> W" "W \<le> LENGTH('a)" "take_bit W x = take_bit W (y :: 'a::len word)"
  shows "take_bit W ((shift_left (W - 1) p ^^ k) x) =
     take_bit W ((shift_left (W - 1) p ^^ k) y)"
proof (induction k)
  case 0
  then show ?case using assms(3) by simp
next
  case (Suc k)
  then show ?case
    using assms(1,2) by (auto simp: take_bit_eq_iff_word bit_shift_left)
qed

lemma take_bit_xor_cong:
  "take_bit W x = take_bit W (y :: 'a::len word) \<Longrightarrow> take_bit W (x XOR z) = take_bit W (y XOR z)"
  by simp

lemma remainder_normal_take_bit:
  assumes "1 \<le> W" "W \<le> LENGTH('a)" "take_bit W x = take_bit W (y :: 'a::len word)"
  shows "take_bit W (remainder_normal W p bs x) = take_bit W (remainder_normal W p bs y)"
  using assms(3)
proof (induction bs arbitrary: x y)
  case Nil
  then show ?case by simp
next
  case (Cons b bs)
  show ?case unfolding remainder_normal.simps
    by (intro Cons.IH steps_left_take_bit assms take_bit_xor_cong Cons.prems)
qed

text \<open>A narrow CRC is kept shifted up: the low bits stay 0.\<close>

lemma steps_left_low:
  assumes "k < LENGTH('a)" "\<And>n. n < s \<Longrightarrow> \<not> bit (p :: 'a::len word) n" "n < s" "n < m"
  shows "\<not> bit ((shift_left k p ^^ m) x) n"
  using assms(3,4)
proof (induction m arbitrary: n)
  case 0
  then show ?case by simp
next
  case (Suc m)
  then show ?case using assms(1,2) by (cases n) (auto simp: bit_shift_left)
qed

lemma wf_parametersD:
  fixes p :: "'a::len word parameters"
  assumes "wf_parameters W p"
  shows "1 \<le> W" "W \<le> LENGTH('a)" "8 \<le> LENGTH('a)" "W < 8 \<Longrightarrow> LENGTH('a) = 8"
    "take_bit W (polynomial p) = polynomial p"
    "take_bit W (initialValue p) = initialValue p"
    "take_bit W (finalXOR p) = finalXOR p"
  using assms by (auto simp: wf_parameters_def)

lemma bit_Reflect_width: "W \<le> LENGTH('a) \<Longrightarrow> bit (Reflect (v :: 'a::len word) W) n \<Longrightarrow> n < W"
  by (simp add: bit_Reflect)

lemma steps_short_low:
  fixes p x :: "'a::len word"
  assumes "LENGTH('a) = 8" "s \<le> 8"
  shows "push_bit s (drop_bit s ((shift_left 7 (push_bit s p) ^^ 8) x)) =
     (shift_left 7 (push_bit s p) ^^ 8) x"
proof (rule bit_word_eqI)
  fix n assume "n < LENGTH('a)"
  moreover have "s \<le> n" if "bit ((shift_left 7 (push_bit s p) ^^ 8) x) n"
    using steps_left_low [of 7 s "push_bit s p" n 8 x] assms that
    by (cases "n < s") (auto simp: bit_simps)
  ultimately show "bit (push_bit s (drop_bit s ((shift_left 7 (push_bit s p) ^^ 8) x))) n =
      bit ((shift_left 7 (push_bit s p) ^^ 8) x) n"
    by (auto simp: bit_simps)
qed

lemma remainder_short_low:
  fixes p r :: "'a::len word"
  assumes "LENGTH('a) = 8" "s \<le> 8" "push_bit s (drop_bit s r) = r"
  shows "push_bit s (drop_bit s (remainder_short (push_bit s p) bs r)) =
     remainder_short (push_bit s p) bs r"
  using assms(3)
proof (induction bs arbitrary: r)
  case Nil
  then show ?case by simp
next
  case (Cons b bs)
  show ?case
    using Cons.IH [OF steps_short_low [OF assms(1,2)]] by simp
qed

lemma drop_bit_push_bit_word:
  "take_bit (LENGTH('a) - s) (x :: 'a::len word) = x \<Longrightarrow> s \<le> LENGTH('a) \<Longrightarrow>
     drop_bit s (push_bit s x) = x"
  by (rule bit_word_eqI) (auto simp: bit_simps dest!: take_bit_eqD [of "LENGTH('a) - s" x])

text \<open>Splitting the data splits the remainder, up to the width.\<close>

lemma CalculateRemainder_append:
  fixes p :: "'a::len word parameters"
  assumes wf: "wf_parameters W p" and r: "take_bit W r = r"
  shows "take_bit W (CalculateRemainder W ys p (take_bit W (CalculateRemainder W xs p r))) =
     take_bit W (CalculateRemainder W (xs @ ys) p r)"
proof -
  note wfD = wf_parametersD [OF wf]
  consider (reflected) "reflectInput p" | (normal) "\<not> reflectInput p" "8 \<le> W"
    | (short) "\<not> reflectInput p" "W < 8" by linarith
  then show ?thesis
  proof cases
    case reflected
    then show ?thesis
      using remainder_reflected_in_width [OF bit_Reflect_width [OF wfD(2)] r]
      by (simp add: CalculateRemainder_def remainder_reflected_append)
  next
    case normal
    then show ?thesis
      by (auto simp: CalculateRemainder_def remainder_normal_append
          intro!: remainder_normal_take_bit wfD(1,2))
  next
    case short
    let ?s = "8 - W" and ?q = "push_bit (8 - W) (polynomial p)"
    have low: "push_bit ?s (drop_bit ?s (remainder_short ?q xs (push_bit ?s r))) =
        remainder_short ?q xs (push_bit ?s r)"
      using short wfD(4) drop_bit_push_bit_word [of ?s r] r
      by (intro remainder_short_low) auto
    have "take_bit W (drop_bit ?s x) = drop_bit ?s x" for x :: "'a word"
      using short wfD(4)
      by (intro bit_word_eqI) (auto simp: bit_simps dest: bit_imp_le_length)
    with short low show ?thesis
      by (simp add: CalculateRemainder_def remainder_short_append)
  qed
qed

lemma Calculate_append_eq:
  fixes p :: "'a::len word parameters"
  assumes wf: "wf_parameters W p"
  shows "Calculate_append W ys p (Calculate W xs p) = Calculate W (xs @ ys) p"
proof -
  note wfD = wf_parametersD [OF wf]
  show ?thesis
    unfolding Calculate_append_def Calculate_def Let_def
    by (simp add: UndoFinalize_Finalize [OF wfD(1,2,7)]
        Finalize_take_bit [OF wfD(1,2) CalculateRemainder_append [OF wf wfD(6)]])
qed

section \<open>The table agrees with the bit-by-bit algorithm\<close>

lemma table_at_MakeTable:
  "table_at (MakeTable W p) i =
     (let crc = CalculateRemainder W [i] p 0 AND BIT_MASK W
      in if \<not> reflectInput p \<and> W < 8 then push_bit (8 - W) crc else crc)"
  using unsigned_less [of i, where 'a = nat]
  by (simp add: table_at_def MakeTable_def InitTable_def Let_def)

lemma low_byte_split:
  "8 \<le> LENGTH('a) \<Longrightarrow>
     x = ucast (ucast (x :: 'a::len word) :: u8) XOR push_bit 8 (drop_bit 8 x)"
  by (rule bit_word_eqI) (auto simp: bit_simps)

lemma table_reflected_eq:
  fixes p :: "'a::len word parameters"
  assumes wf: "wf_parameters W p" and ri: "reflectInput p"
  shows "table_reflected (MakeTable W p) bs r =
     remainder_reflected (Reflect (polynomial p) W) bs r"
proof (induction bs arbitrary: r)
  case Nil
  then show ?case by simp
next
  case (Cons b bs)
  note wfD = wf_parametersD [OF wf]
  let ?q = "Reflect (polynomial p) W" and ?x = "r XOR ucast b"
  have entry: "table_at (MakeTable W p) i = (shift_right ?q ^^ 8) (ucast i)" for i
  proof -
    have "take_bit W (remainder_reflected ?q [i] 0) = remainder_reflected ?q [i] 0"
      by (rule remainder_reflected_in_width [OF bit_Reflect_width [OF wfD(2)]]) auto
    with ri show ?thesis
      by (simp add: table_at_MakeTable CalculateRemainder_def BIT_MASK_eq_mask [OF wfD(1)]
          flip: take_bit_eq_mask)
  qed
  have "(shift_right ?q ^^ 8) ?x =
      (shift_right ?q ^^ 8) (ucast (ucast ?x :: u8)) XOR
      (shift_right ?q ^^ 8) (push_bit 8 (drop_bit 8 ?x))"
    using low_byte_split [OF wfD(3), of ?x] by (metis right.steps_xor)
  also have "(shift_right ?q ^^ 8) (push_bit 8 (drop_bit 8 ?x)) = drop_bit 8 ?x"
    unfolding steps_right_shifted [OF wfD(3)]
    by (rule bit_word_eqI) (auto simp: bit_simps dest: bit_imp_le_length)
  also have "drop_bit 8 ?x = drop_bit 8 r"
    by (rule bit_word_eqI) (auto simp: bit_simps dest: bit_imp_le_length)
  finally show ?case by (simp add: Cons entry xor.commute)
qed


lemma steps_left_shifted:
  fixes y :: "'a::len word"
  assumes "W \<le> LENGTH('a)" "k \<le> W" "take_bit (W - k) y = y" "j \<le> k"
  shows "(shift_left (W - 1) p ^^ j) y = push_bit j y"
  using assms(4)
proof (induction j)
  case 0
  then show ?case by simp
next
  case (Suc j)
  then have "\<not> bit (push_bit j y) (W - 1)"
    using assms take_bit_eqD [OF assms(3), of "W - 1 - j"] by (auto simp: bit_simps)
  then have "shift_left (W - 1) p (push_bit j y) = push_bit (Suc j) y"
    by (intro bit_word_eqI)
      (use Suc.prems assms in \<open>auto simp: bit_shift_left bit_simps simp del: push_bit_Suc\<close>)
  with Suc show ?case by (simp del: push_bit_Suc)
qed

lemma table_normal_eq:
  fixes p :: "'a::len word parameters"
  assumes wf: "wf_parameters W p" and ri: "\<not> reflectInput p" and W: "8 \<le> W"
    and eq: "take_bit W r = take_bit W s"
  shows "take_bit W (table_normal W (MakeTable W p) bs r) =
     take_bit W (remainder_normal W (polynomial p) bs s)"
  using eq
proof (induction bs arbitrary: r s)
  case Nil
  then show ?case by simp
next
  case (Cons b bs)
  note wfD = wf_parametersD [OF wf]
  let ?step = "shift_left (W - 1) (polynomial p)"
  let ?x = "s XOR push_bit (W - 8) (ucast b)"
  let ?i = "ucast (drop_bit (W - 8) r XOR ucast b) :: u8"
  have entry: "table_at (MakeTable W p) i = take_bit W ((?step ^^ 8) (push_bit (W - 8) (ucast i)))"
    for i
    using ri W by (simp add: table_at_MakeTable CalculateRemainder_def
        BIT_MASK_eq_mask [OF wfD(1)] take_bit_eq_mask)
  have same: "n < W \<Longrightarrow> bit r n = bit s n" for n
    using Cons.prems by (simp add: take_bit_eq_iff_word)
  have split: "take_bit W ?x =
      take_bit W (take_bit (W - 8) ?x XOR push_bit (W - 8) (ucast ?i))"
    unfolding take_bit_eq_iff_word using W wfD(2)
    by (auto simp: bit_simps same)
  have "(?step ^^ 8) (take_bit (W - 8) ?x) = push_bit 8 (take_bit (W - 8) ?x)"
    by (rule steps_left_shifted [where k = 8]) (use W wfD(2) in auto)
  then have low: "take_bit W ((?step ^^ 8) (take_bit (W - 8) ?x)) = take_bit W (push_bit 8 r)"
    unfolding take_bit_eq_iff_word using W wfD(2)
    by (auto simp: bit_simps same simp del: take_bit_xor)
  have "take_bit W ((?step ^^ 8) ?x) =
      take_bit W ((?step ^^ 8) (take_bit (W - 8) ?x XOR push_bit (W - 8) (ucast ?i)))"
    by (rule steps_left_take_bit [OF wfD(1,2) split])
  also have "\<dots> = take_bit W ((?step ^^ 8) (take_bit (W - 8) ?x)) XOR
      take_bit W ((?step ^^ 8) (push_bit (W - 8) (ucast ?i)))"
    by (simp only: left.steps_xor take_bit_xor)
  also have "\<dots> = take_bit W (push_bit 8 r XOR table_at (MakeTable W p) ?i)"
    unfolding low entry by (simp only: take_bit_xor take_bit_take_bit min.idem)
  finally have "take_bit W (push_bit 8 r XOR table_at (MakeTable W p) ?i) =
      take_bit W ((?step ^^ 8) ?x)" ..
  then show ?case using Cons.IH by simp
qed


lemma table_short_eq:
  fixes p :: "'a::len word parameters"
  assumes wf: "wf_parameters W p" and ri: "\<not> reflectInput p" and W: "W < 8"
  shows "table_short (MakeTable W p) bs r =
     remainder_short (push_bit (8 - W) (polynomial p)) bs r"
proof (induction bs arbitrary: r)
  case Nil
  then show ?case by simp
next
  case (Cons b bs)
  note wfD = wf_parametersD [OF wf]
  let ?s = "8 - W" and ?step = "shift_left 7 (push_bit (8 - W) (polynomial p))"
  have width: "take_bit W (drop_bit ?s x) = drop_bit ?s x" for x :: "'a word"
    using W wfD(4) by (intro bit_word_eqI) (auto simp: bit_simps dest: bit_imp_le_length)
  have entry: "table_at (MakeTable W p) i = (?step ^^ 8) (ucast i)" for i
    using ri W steps_short_low [OF wfD(4) [OF W], of ?s "polynomial p" "ucast i"]
    by (simp add: table_at_MakeTable CalculateRemainder_def BIT_MASK_eq_mask [OF wfD(1)]
        width flip: take_bit_eq_mask)
  have "ucast (ucast x :: u8) = x" for x :: "'a word"
    using wfD(4) [OF W] by (intro bit_word_eqI) (auto simp: bit_simps)
  then show ?case by (simp add: Cons entry)
qed

lemma CalculateRemainder_table_eq:
  fixes p :: "'a::len word parameters"
  assumes wf: "wf_parameters W p"
  shows "take_bit W (CalculateRemainder_table W bs (MakeTable W p) r) =
     take_bit W (CalculateRemainder W bs p r)"
  using wf
  by (simp add: CalculateRemainder_table_def CalculateRemainder_def
      table_reflected_eq table_short_eq table_normal_eq MakeTable_def [of W p, symmetric])
    (simp add: MakeTable_def)

lemma Calculate_table_eq:
  fixes p :: "'a::len word parameters"
  assumes wf: "wf_parameters W p"
  shows "Calculate_table W bs (MakeTable W p) = Calculate W bs p"
proof -
  note wfD = wf_parametersD [OF wf]
  have "table_parameters (MakeTable W p) = p" by (simp add: MakeTable_def)
  then show ?thesis
    unfolding Calculate_table_def Calculate_def Let_def
    by (simp add: Finalize_take_bit [OF wfD(1,2) CalculateRemainder_table_eq [OF wf]])
qed

section \<open>The branchless loop agrees with the branching one\<close>

lemma branchless_right: "shift_right_branchless p r = shift_right p r"
  by (simp add: shift_right_branchless_def shift_right_def and_one_eq mod_2_eq_odd)
lemma branchless_left: "k < LENGTH('a) \<Longrightarrow> shift_left_branchless k p (r :: 'a::len word) = shift_left k p r"
  by (simp add: shift_left_branchless_def shift_left_def and_one_eq mod_2_eq_odd and_exp_eq_0
      flip: bit_iff_odd_drop_bit)

section \<open>The two parameter sets of the program\<close>

text \<open>Closed instances are evaluated by the simplifier with these equations.\<close>

named_theorems crc_eval \<open>closed evaluation of a CRC\<close>

lemma funpow_8 [crc_eval]: "(f ^^ 8) x = f (f (f (f (f (f (f (f x)))))))"
  by (simp add: numeral_eq_Suc)

lemma reflect_loop_numeral [crc_eval]:
  "reflect_loop (numeral n) v r =
     reflect_loop (pred_numeral n) (drop_bit 1 v) (push_bit 1 r OR (v AND 1))"
  by (simp add: numeral_eq_Suc)

declare Calculate_def [crc_eval] CalculateRemainder_def [crc_eval] shift_right_def [crc_eval]
  shift_left_def [crc_eval] Finalize_def [crc_eval] UndoFinalize_def [crc_eval]
  BIT_MASK_def [crc_eval] Reflect_def [crc_eval]

definition CRC_16_ARC :: "u16 parameters" where
  "CRC_16_ARC = \<lparr>polynomial = 0x8005, initialValue = 0x0000, finalXOR = 0x0000,
     reflectInput = True, reflectOutput = True\<rparr>"

definition CRC_32 :: "u32 parameters" where
  "CRC_32 = \<lparr>polynomial = 0x04C11DB7, initialValue = 0xFFFFFFFF, finalXOR = 0xFFFFFFFF,
     reflectInput = True, reflectOutput = True\<rparr>"

lemma wf_CRC_16_ARC: "wf_parameters 16 CRC_16_ARC"
  by (simp add: wf_parameters_def CRC_16_ARC_def)

lemma wf_CRC_32: "wf_parameters 32 CRC_32"
  by (simp add: wf_parameters_def CRC_32_def)

lemma bit_reflected_polynomials:
  "bit (Reflect (0x8005 :: u16) 16) 15" "bit (Reflect (0x04C11DB7 :: u32) 32) 31"
  by (simp_all add: bit_Reflect)

interpretation crc16: burst_register "shift_right (Reflect (0x8005 :: u16) 16)"
  "remainder_reflected (Reflect (0x8005 :: u16) 16)"
  using bit_reflected_polynomials(1) by (intro burst_register_reflected) simp_all

interpretation crc32: burst_register "shift_right (Reflect (0x04C11DB7 :: u32) 32)"
  "remainder_reflected (Reflect (0x04C11DB7 :: u32) 32)"
  using bit_reflected_polynomials(2) by (intro burst_register_reflected) simp_all

lemma Calculate_16_ARC:
  "Calculate 16 bs CRC_16_ARC = remainder_reflected (Reflect 0x8005 16) bs 0"
  by (rule bit_word_eqI)
    (simp add: Calculate_def CalculateRemainder_def CRC_16_ARC_def bit_Finalize)

lemma Calculate_32:
  "Calculate 32 bs CRC_32 =
     remainder_reflected (Reflect 0x04C11DB7 32) bs 0xFFFFFFFF XOR 0xFFFFFFFF"
  by (rule bit_word_eqI)
    (simp add: Calculate_def CalculateRemainder_def CRC_32_def bit_Finalize bit_xor_iff)

lemma CRC_16_ARC_burst:
  assumes "length xs = length ys" "length xs \<le> 2"
    "Calculate 16 (as @ xs @ bs) CRC_16_ARC = Calculate 16 (as @ ys @ bs) CRC_16_ARC"
  shows "xs = ys"
  using assms crc16.burst_detected [where xs = xs and ys = ys and as = as and bs = bs and r = 0] by (simp add: Calculate_16_ARC)

lemma CRC_32_burst:
  assumes "length xs = length ys" "length xs \<le> 4"
    "Calculate 32 (as @ xs @ bs) CRC_32 = Calculate 32 (as @ ys @ bs) CRC_32"
  shows "xs = ys"
proof -
  have "x = y" if "x XOR c = y XOR c" for x y c :: u32
    using that by (metis xor_eq_iff_word xor.commute xor_self_eq xor.right_neutral xor.left_commute)
  then show ?thesis
    using assms crc32.burst_detected [where xs = xs and ys = ys and as = as and bs = bs and r = "0xFFFFFFFF"] by (simp add: Calculate_32)
qed

text \<open>
  What a protocol relies on from a checksum: two messages of equal length with the same
  checksum do not differ in one short burst only.
\<close>

locale detecting_checksum =
  fixes checksum :: "u8 list \<Rightarrow> 'c" and burst :: nat
  assumes detects: "length xs = length ys \<Longrightarrow> length xs \<le> burst \<Longrightarrow>
      checksum (as @ xs @ bs) = checksum (as @ ys @ bs) \<Longrightarrow> xs = ys"
begin

lemma corruption_changes:
  assumes "checksum msg = c" "msg = as @ xs @ bs"
    and "length ys = length xs" "length xs \<le> burst" "ys \<noteq> xs"
  shows "checksum (as @ ys @ bs) \<noteq> c"
  using assms detects [of ys xs as bs] by auto

end

interpretation header_crc: detecting_checksum "\<lambda>bs. Calculate 16 bs CRC_16_ARC" 2
  by unfold_locales (rule CRC_16_ARC_burst)

interpretation payload_crc: detecting_checksum "\<lambda>bs. Calculate 32 bs CRC_32" 4
  by unfold_locales (rule CRC_32_burst)

section \<open>Properties\<close>

text \<open>
  A CRC may be computed in parts: appending data to the finished CRC of a prefix
  (the overload of \<open>Calculate\<close> that takes a CRC) gives the CRC of the whole data, for
  every well-formed parameter set, reflected or not, wider or narrower than a byte.
\<close>

theorem Calculate_multi_part:
  fixes p :: "'a::len word parameters"
  assumes "wf_parameters W p"
  shows "Calculate_append W ys p (Calculate W xs p) = Calculate W (xs @ ys) p"
  using assms by (rule Calculate_append_eq)

theorem Calculate_multi_part_witness:
  "wf_parameters 32 CRC_32 \<and>
   Calculate_append 32 [0x33] CRC_32 (Calculate 32 [0x31, 0x32] CRC_32) =
   Calculate 32 ([0x31, 0x32] @ [0x33]) CRC_32"
  using wf_CRC_32 Calculate_multi_part [OF wf_CRC_32] by blast

text \<open>
  C29. The table-driven overload agrees with the bit-by-bit one: with the table that
  \<open>MakeTable\<close> builds from well-formed parameters, \<open>Calculate\<close> returns the same CRC of
  any data.
\<close>

theorem Calculate_table_equiv:
  fixes p :: "'a::len word parameters"
  assumes "wf_parameters W p"
  shows "Calculate_table W bs (MakeTable W p) = Calculate W bs p"
  using assms by (rule Calculate_table_eq)

theorem Calculate_table_equiv_witness:
  "wf_parameters 16 CRC_16_ARC \<and>
   Calculate_table 16 [0x31, 0x32] (MakeTable 16 CRC_16_ARC) =
   Calculate 16 [0x31, 0x32] CRC_16_ARC"
  using wf_CRC_16_ARC Calculate_table_equiv [OF wf_CRC_16_ARC] by blast

text \<open>
  \<open>UndoFinalize\<close> and \<open>Finalize\<close> are inverse in both directions on values of the
  CRC's width, as the comment of \<open>UndoFinalize\<close> asserts; outside the width both compositions
  cut the value down to it.
\<close>

theorem Finalize_UndoFinalize_inverse:
  assumes "1 \<le> W" "W \<le> LENGTH('a)" "take_bit W fx = fx"
  shows "UndoFinalize W (Finalize W (x :: 'a::len word) fx ro) fx ro = take_bit W x \<and>
     Finalize W (UndoFinalize W x fx ro) fx ro = take_bit W x"
  using UndoFinalize_Finalize [OF assms] Finalize_UndoFinalize [OF assms] by simp

theorem Finalize_UndoFinalize_inverse_witness:
  "UndoFinalize 12 (Finalize 12 (0xABCD :: u16) 0xF0 True) 0xF0 True = 0xBCD \<and>
   Finalize 12 (UndoFinalize 12 (0xABCD :: u16) 0xF0 True) 0xF0 True = 0xBCD"
  using Finalize_UndoFinalize_inverse [of 12 "0xF0 :: u16" "0xABCD" True] by simp



text \<open>
  The branchless inner loop that \<open>CRCPP_BRANCHLESS\<close> selects computes the same
  register as the conditional one, in both directions.
\<close>

theorem branchless_equiv:
  "shift_right_branchless p r = shift_right p r \<and>
   shift_left_branchless (LENGTH('a) - 1) p r = shift_left (LENGTH('a) - 1) p (r :: 'a::len word)"
  using branchless_left [of "LENGTH('a) - 1" p r] by (simp add: branchless_right)

end
