(* ===== verification/Datagram.thy ===== *)
theory Datagram
  imports Crc
begin

text \<open>
  The datagram format of UPZP-GameProcess/datagram/datagram.cpp: its parser \<open>Load\<close>, its
  serializer \<open>Get\<close> and its accessors. A buffer is the list of the bytes that are readable
  from its pointer; \<open>char\<close> values are those bytes. Members that the constructor leaves
  uninitialised are whatever the incoming record holds.

  \<open>Load\<close> returns how it ended together with the object as it is left then: returned, left
  by one of its exceptions, or having read memory behind the buffer, which C++ leaves
  undefined. Running out of memory is not modelled.
\<close>

section \<open>The data\<close>

text \<open>A field \<open>x\<close> is the member \<open>x_\<close> of the class.\<close>

record datagram =
  version :: u16
  payload_length :: u32
  payload_checksum :: u32
  payload_checksum_included :: bool
  payload :: "u8 list"

definition BEGIN_SEQUENCE :: u16 where
  "BEGIN_SEQUENCE = 0xABDA"

datatype load_error =
    Shorter_Than_Minimal
  | Bad_Begin_Sequence
  | Shorter_Than_Checksum_Header
  | Bad_Header_Checksum
  | Payload_Overflow

datatype load_result = Loaded | Thrown load_error | Out_Of_Bounds

section \<open>Parsing\<close>

text \<open>
  The sum of the length check is formed in \<open>uint32_t\<close>: \<open>payload_length\<close> has that type
  and \<open>header_lenght\<close> is promoted to it. The vector of the payload is then filled from
  \<open>payload_length\<close> bytes of memory, wherever these end.
\<close>

definition Load :: "u8 list \<Rightarrow> nat \<Rightarrow> datagram \<Rightarrow> load_result \<times> datagram" where
  "Load buffer len d =
     (if len < 12 then (Thrown Shorter_Than_Minimal, d)
      else if read16 buffer 0 \<noteq> BEGIN_SEQUENCE then (Thrown Bad_Begin_Sequence, d)
      else
        let d = d\<lparr>version := read16 buffer 2 AND 0x00FF,
                  payload_checksum_included := (buffer ! 3 AND 0x80 \<noteq> 0),
                  payload_length := read32 buffer 4\<rparr>
        in if payload_checksum_included d \<and> len < 16
           then (Thrown Shorter_Than_Checksum_Header, d)
           else
             let d = (if payload_checksum_included d
                      then d\<lparr>payload_checksum := read32 buffer 8\<rparr> else d);
                 header_length = (if payload_checksum_included d then 16 else 12);
                 header_checksum = (if payload_checksum_included d then read16 buffer 14
                                    else read16 buffer 10);
                 header_crc = Calculate 16 (take (header_length - 2) buffer) CRC_16_ARC
             in if header_checksum \<noteq> header_crc then (Thrown Bad_Header_Checksum, d)
                else if len < unat (payload_length d + word_of_nat header_length)
                then (Thrown Payload_Overflow, d)
                else if length buffer < header_length + unat (payload_length d)
                then (Out_Of_Bounds, d)
                else (Loaded, d\<lparr>payload :=
                  take (unat (payload_length d)) (drop header_length buffer)\<rparr>))"

section \<open>Accessors\<close>

definition PayloadCorrectness :: "datagram \<Rightarrow> bool" where
  "PayloadCorrectness d =
     (if unat (payload_length d) \<noteq> length (payload d) then False
      else if payload_checksum_included d \<and>
              Calculate 32 (payload d) CRC_32 \<noteq> payload_checksum d then False
      else True)"

definition Payload :: "datagram \<Rightarrow> u8 list" where
  "Payload d = payload d"

definition Version :: "datagram \<Rightarrow> int" where
  "Version d = sint (version d)"

definition SetVersion :: "u16 \<Rightarrow> datagram \<Rightarrow> datagram" where
  "SetVersion v d = d\<lparr>version := v AND 0x7FFF\<rparr>"

definition SetPayloadChecksum :: "bool \<Rightarrow> datagram \<Rightarrow> datagram" where
  "SetPayloadChecksum include d = d\<lparr>payload_checksum_included := include\<rparr>"

definition SetPayload :: "u8 list \<Rightarrow> nat \<Rightarrow> datagram \<Rightarrow> datagram" where
  "SetPayload buffer len d =
     (if len \<le> 2 ^ 32 - 1
      then d\<lparr>payload := take len buffer, payload_length := word_of_nat len\<rparr>
      else d)"

section \<open>Serializing\<close>

definition Get :: "datagram \<Rightarrow> u8 list" where
  "Get d =
     (let len = 12 + length (payload d);
          len = (if payload_checksum_included d then len + 4 else len);
          retval = replicate len 0;
          retval = retval[0 := ucast (BEGIN_SEQUENCE AND 0x00FF)];
          retval = retval[1 := ucast (drop_bit 8 (BEGIN_SEQUENCE AND 0xFF00))];
          retval = retval[2 := ucast (version d AND 0x00FF)];
          retval = retval[3 := ucast (drop_bit 8 (version d AND 0x7F00))];
          retval = (if payload_checksum_included d then retval[3 := retval ! 3 OR 0x80]
                    else retval);
          retval = write_at retval 4 (le32 (word_of_nat (length (payload d))))
      in if payload_checksum_included d
         then let retval = write_at retval 8 (le32 (Calculate 32 (payload d) CRC_32));
                  retval = write_at retval 14 (le16 (Calculate 16 (take 14 retval) CRC_16_ARC))
              in write_at retval 16 (payload d)
         else let retval = write_at retval 10 (le16 (Calculate 16 (take 10 retval) CRC_16_ARC))
              in write_at retval 12 (payload d))"

text \<open>An object in zeroed memory, for closed examples.\<close>

definition zero_datagram :: datagram where
  "zero_datagram = \<lparr>version = 0, payload_length = 0, payload_checksum = 0,
     payload_checksum_included = False, payload = []\<rparr>"

section \<open>The shape of a serialized datagram\<close>

text \<open>
  The header without its checksum, and with it. The two bytes before the header checksum
  are never written: they keep the 0 that the vector was created with.
\<close>

definition header_fields :: "datagram \<Rightarrow> u8 list" where
  "header_fields d =
     [0xDA, 0xAB, ucast (version d AND 0x00FF),
      (if payload_checksum_included d
       then ucast (drop_bit 8 (version d AND 0x7F00)) OR 0x80
       else ucast (drop_bit 8 (version d AND 0x7F00)))] @
     le32 (word_of_nat (length (payload d))) @
     (if payload_checksum_included d then le32 (Calculate 32 (payload d) CRC_32) else []) @ [0, 0]"

definition header :: "datagram \<Rightarrow> u8 list" where
  "header d = header_fields d @ le16 (Calculate 16 (header_fields d) CRC_16_ARC)"

definition header_size :: "datagram \<Rightarrow> nat" where
  "header_size d = (if payload_checksum_included d then 16 else 12)"

lemma length_header_fields: "length (header_fields d) = header_size d - 2"
  by (simp add: header_fields_def header_size_def)

lemma length_header [simp]: "length (header d) = header_size d"
  by (simp add: header_def length_header_fields header_size_def)

lemma header_size_cases: "header_size d = 12 \<or> header_size d = 16"
  by (simp add: header_size_def)

lemma Get_eq: "Get d = header d @ payload d"
proof (cases "payload_checksum_included d")
  case True
  then show ?thesis
    by (simp add: Get_def header_def header_fields_def BEGIN_SEQUENCE_def write_at_def
        le16_def le32_def Let_def bytes_simps)
next
  case False
  then show ?thesis
    by (simp add: Get_def header_def header_fields_def BEGIN_SEQUENCE_def write_at_def
        le16_def le32_def Let_def bytes_simps)
qed


lemma flag_bit: "x AND 0x80 \<noteq> 0 \<longleftrightarrow> bit (x :: u8) 7"
  using bit_iff_and_push_bit_not_eq_0 [of x 7] by simp

lemma header_append: "header d @ xs = header_fields d @
    le16 (Calculate 16 (header_fields d) CRC_16_ARC) @ xs"
  by (simp add: header_def)

lemma header_reads:
  "read16 (header d @ xs) 0 = BEGIN_SEQUENCE"
  "read16 (header d @ xs) 2 AND 0x00FF = version d AND 0x00FF"
  "(header d @ xs) ! 3 AND 0x80 \<noteq> 0 \<longleftrightarrow> payload_checksum_included d"
  "read32 (header d @ xs) 4 = word_of_nat (length (payload d))"
  "payload_checksum_included d \<Longrightarrow> read32 (header d @ xs) 8 = Calculate 32 (payload d) CRC_32"
  "read16 (header d @ xs) (header_size d - 2) = Calculate 16 (header_fields d) CRC_16_ARC"
  "take (header_size d - 2) (header d @ xs) = header_fields d"
proof -
  show "read16 (header d @ xs) 0 = BEGIN_SEQUENCE"
    by (rule read16_le16) (simp add: header_append header_fields_def BEGIN_SEQUENCE_def le16_def)
  show "read16 (header d @ xs) 2 AND 0x00FF = version d AND 0x00FF"
    by (rule bit_word_eqI)
      (auto simp: header_append header_fields_def read16_def bit_simps bytes_simps)
  show "(header d @ xs) ! 3 AND 0x80 \<noteq> 0 \<longleftrightarrow> payload_checksum_included d"
    by (simp add: flag_bit header_append header_fields_def bit_simps)
  show "read32 (header d @ xs) 4 = word_of_nat (length (payload d))"
    by (rule read32_le32) (simp add: header_append header_fields_def le32_def)
  show "read32 (header d @ xs) 8 = Calculate 32 (payload d) CRC_32" if "payload_checksum_included d"
    by (rule read32_le32) (simp add: header_append header_fields_def le32_def that)
  show "read16 (header d @ xs) (header_size d - 2) = Calculate 16 (header_fields d) CRC_16_ARC"
    by (rule read16_le16) (simp add: header_append length_header_fields)
  show "take (header_size d - 2) (header d @ xs) = header_fields d"
    by (simp add: header_append length_header_fields)
qed

section \<open>Round trips\<close>

text \<open>What a receiver's object holds after it has loaded a serialized datagram.\<close>

definition loaded_from :: "datagram \<Rightarrow> datagram \<Rightarrow> datagram" where
  "loaded_from d d0 = d0\<lparr>
     version := version d AND 0x00FF,
     payload_length := word_of_nat (length (payload d)),
     payload_checksum := (if payload_checksum_included d then Calculate 32 (payload d) CRC_32
                          else payload_checksum d0),
     payload_checksum_included := payload_checksum_included d,
     payload := payload d\<rparr>"

lemma unat_of_nat_sum: "unat (word_of_nat m + word_of_nat n :: u32) \<le> m + n"
  by (metis of_nat_add unat_of_nat mod_less_eq_dividend)

lemma Load_Get:
  assumes small: "length (payload d) < 2 ^ 32" and len: "length (Get d) \<le> len"
  shows "Load (Get d @ rest) len d0 = (Loaded, loaded_from d d0)"
proof -
  let ?n = "length (payload d)"
  have n: "unat (word_of_nat ?n :: u32) = ?n"
    using small by (simp add: unat_of_nat)
  note sum = unat_of_nat_sum [of ?n]
  show ?thesis
  proof (cases "payload_checksum_included d")
    case True
    then show ?thesis
      using header_reads [of d "payload d @ rest"] len sum [of 16] n
      by (simp add: Load_def Get_eq header_size_def loaded_from_def)
  next
    case False
    then show ?thesis
      using header_reads [of d "payload d @ rest"] len sum [of 12] n
      by (simp add: Load_def Get_eq header_size_def loaded_from_def)
  qed
qed

section \<open>What a successful or failed load says\<close>

lemma Load_LoadedD:
  assumes "Load buffer len d0 = (Loaded, d)"
  shows "12 \<le> len" "header_size d \<le> len" "read16 buffer 0 = BEGIN_SEQUENCE"
    "payload_checksum_included d \<longleftrightarrow> buffer ! 3 AND 0x80 \<noteq> 0"
    "payload_length d = read32 buffer 4" "version d = read16 buffer 2 AND 0x00FF"
    "payload_checksum d =
       (if payload_checksum_included d then read32 buffer 8 else payload_checksum d0)"
    "read16 buffer (header_size d - 2) =
       Calculate 16 (take (header_size d - 2) buffer) CRC_16_ARC"
    "header_size d + unat (payload_length d) \<le> length buffer"
    "payload d = take (unat (payload_length d)) (drop (header_size d) buffer)"
  using assms
  by (auto simp: Load_def header_size_def Let_def split: if_splits)

lemma Load_Loaded_length:
  assumes "Load buffer len d0 = (Loaded, d)"
  shows "length (payload d) = unat (payload_length d)"
  using Load_LoadedD(9,10) [OF assms] by simp

lemma Load_Loaded_correct:
  assumes "Load buffer len d0 = (Loaded, d)"
  shows "PayloadCorrectness d \<longleftrightarrow>
     (payload_checksum_included d \<longrightarrow> Calculate 32 (payload d) CRC_32 = payload_checksum d)"
  using Load_Loaded_length [OF assms] by (simp add: PayloadCorrectness_def)

lemma Load_not_Loaded_payload:
  "fst (Load buffer len d) \<noteq> Loaded \<Longrightarrow> payload (snd (Load buffer len d)) = payload d"
  by (auto simp: Load_def Let_def split: if_splits)

lemma Load_Out_Of_BoundsD:
  assumes "Load buffer len d0 = (Out_Of_Bounds, d)"
  shows "unat (payload_length d + word_of_nat (header_size d)) \<le> len"
    "length buffer < header_size d + unat (payload_length d)"
  using assms
  by (auto simp: Load_def header_size_def Let_def split: if_splits)

lemma header_length_wraps:
  fixes l :: u32
  assumes "unat (l + word_of_nat h) \<le> len" "len < h + unat l" "h < 2 ^ 32"
  shows "2 ^ 32 \<le> h + unat l"
proof (rule ccontr)
  assume "\<not> 2 ^ 32 \<le> h + unat l"
  then have "unat (l + word_of_nat h) = unat l + h"
    using assms(3) by (simp add: unat_word_ariths unat_of_nat)
  with assms(1,2) show False by simp
qed

lemma Load_bounds:
  assumes "len \<le> length buffer" "Load buffer len d0 = (Out_Of_Bounds, d)"
  shows "2 ^ 32 \<le> header_size d + unat (payload_length d)"
  using Load_Out_Of_BoundsD [OF assms(2)] assms(1) header_size_cases [of d]
  by (intro header_length_wraps [where len = len]) auto

text \<open>Where the length does not wrap, a load returns or throws, and returns inside \<open>len\<close>.\<close>

lemma Load_Loaded_within:
  assumes "Load buffer len d0 = (Loaded, d)" "header_size d + unat (payload_length d) < 2 ^ 32"
  shows "header_size d + unat (payload_length d) \<le> len"
proof (rule ccontr)
  assume "\<not> header_size d + unat (payload_length d) \<le> len"
  moreover have "unat (payload_length d + word_of_nat (header_size d)) \<le> len"
    using assms(1) by (auto simp: Load_def header_size_def Let_def split: if_splits)
  ultimately show False
    using header_length_wraps [of "payload_length d" "header_size d" len] assms(2)
      header_size_cases [of d] by auto
qed

text \<open>A loaded buffer is the serialization of what was loaded.\<close>

lemma version_bytes:
  "ucast ((read16 bs 2 AND 0x7FFF) AND 0x00FF) = bs ! 2"
  "bit (bs ! 3) 7 \<Longrightarrow>
     ucast (drop_bit 8 ((read16 bs 2 AND 0x7FFF) AND 0x7F00)) OR 0x80 = bs ! 3"
  "\<not> bit (bs ! 3) 7 \<Longrightarrow>
     ucast (drop_bit 8 ((read16 bs 2 AND 0x7FFF) AND 0x7F00)) = bs ! 3"
proof -
  have seven: "n = 7" if "n < LENGTH(8)" "\<not> n < 7" for n
    using that by auto
  show "ucast ((read16 bs 2 AND 0x7FFF) AND 0x00FF) = bs ! 2"
    by (rule bit_word_eqI) (auto simp: read16_def bit_simps bytes_simps)
  show "ucast (drop_bit 8 ((read16 bs 2 AND 0x7FFF) AND 0x7F00)) OR 0x80 = bs ! 3"
    if "bit (bs ! 3) 7"
    by (rule bit_word_eqI) (use that in \<open>auto simp: read16_def bit_simps bytes_simps dest: seven\<close>)
  show "ucast (drop_bit 8 ((read16 bs 2 AND 0x7FFF) AND 0x7F00)) = bs ! 3"
    if "\<not> bit (bs ! 3) 7"
  proof (rule bit_word_eqI)
    fix n assume "n < LENGTH(8)"
    then have "n = 7 \<or> n < 7" by auto
    then show "bit (ucast (drop_bit 8 ((read16 bs 2 AND 0x7FFF) AND 0x7F00)) :: u8) n = bit (bs ! 3) n"
      using that by (auto simp: read16_def bit_simps bytes_simps)
  qed
qed

text \<open>A buffer taken apart at the boundaries of the header's fields.\<close>

lemma take_fields:
  assumes "12 \<le> length bs"
  shows "take 10 bs = take 2 bs @ [bs ! 2, bs ! 3] @ take 4 (drop 4 bs) @ take 2 (drop 8 bs)"
    and "take 14 bs = take 2 bs @ [bs ! 2, bs ! 3] @ take 4 (drop 4 bs) @ take 4 (drop 8 bs) @
      take 2 (drop 12 bs)"
proof -
  have pair: "[bs ! 2, bs ! 3] = take 2 (drop 2 bs)"
    using assms by (simp add: numeral_eq_Suc take_Suc_conv_app_nth)
  have "take 10 bs = take (2 + (2 + (4 + 2))) bs" "take 14 bs = take (2 + (2 + (4 + (4 + 2)))) bs"
    by simp_all
  then show "take 10 bs = take 2 bs @ [bs ! 2, bs ! 3] @ take 4 (drop 4 bs) @ take 2 (drop 8 bs)"
    and "take 14 bs = take 2 bs @ [bs ! 2, bs ! 3] @ take 4 (drop 4 bs) @ take 4 (drop 8 bs) @
      take 2 (drop 12 bs)"
    unfolding pair take_add drop_drop by simp_all
qed

lemma le16_BEGIN_SEQUENCE: "le16 BEGIN_SEQUENCE = [0xDA, 0xAB]"
  by (simp add: BEGIN_SEQUENCE_def le16_def)

lemma Load_Loaded_Get:
  assumes load: "Load buffer len d0 = (Loaded, d)" and correct: "PayloadCorrectness d"
    and padding: "take 2 (drop (header_size d - 4) buffer) = [0, 0]"
  shows "take (header_size d + unat (payload_length d)) buffer =
     Get (d\<lparr>version := read16 buffer 2 AND 0x7FFF\<rparr>)"
proof -
  note D = Load_LoadedD [OF load]
  let ?e = "d\<lparr>version := read16 buffer 2 AND 0x7FFF\<rparr>"
  let ?h = "header_size d"
  have h: "?h = (if payload_checksum_included d then 16 else 12)"
    by (simp add: header_size_def)
  have len: "?h \<le> length buffer" "12 \<le> length buffer"
    "payload_checksum_included d \<Longrightarrow> 16 \<le> length buffer"
    using D(9) h by (auto split: if_splits)
  have start: "take 2 buffer = [0xDA, 0xAB]"
    using le16_read16 [of 0 buffer] len D(3) le16_BEGIN_SEQUENCE by auto
  have plen: "take 4 (drop 4 buffer) = le32 (word_of_nat (length (payload d)))"
    using le32_read32 [of 4 buffer] len D(5) Load_Loaded_length [OF load] by auto
  have crc32: "take 4 (drop 8 buffer) = le32 (Calculate 32 (payload d) CRC_32)"
    if "payload_checksum_included d"
    using le32_read32 [of 8 buffer] len D(7) Load_Loaded_correct [OF load] correct that by auto
  have fields: "take (?h - 2) buffer = header_fields ?e"
    using h len take_fields [of buffer] start plen crc32 padding version_bytes [of buffer]
      D(4) flag_bit [of "buffer ! 3"]
    by (auto simp: header_fields_def)
  have check: "take 2 (drop (?h - 2) buffer) = le16 (Calculate 16 (header_fields ?e) CRC_16_ARC)"
    using le16_read16 [of "?h - 2" buffer] len D(8) fields h by auto
  have "take (?h + unat (payload_length d)) buffer =
      take (?h - 2) buffer @ take 2 (drop (?h - 2) buffer) @
      take (unat (payload_length d)) (drop ?h buffer)"
  proof -
    have e: "?h + unat (payload_length d) = (?h - 2) + (2 + unat (payload_length d))"
      "2 + (?h - 2) = ?h" using header_size_cases [of d] by auto
    show ?thesis unfolding e(1) take_add drop_drop e(2) by simp
  qed
  with fields check D(10) show ?thesis
    by (simp add: Get_eq header_def)
qed

section \<open>Corruption\<close>

text \<open>
  A header whose checksum does not match its fields is never loaded; the fields are the
  bytes in front of the checksum, whose number the flag in byte 3 decides.
\<close>

lemma Load_checksum_mismatch:
  assumes "h = (if buffer ! 3 AND 0x80 \<noteq> 0 then 16 else 12)"
    and "read16 buffer (h - 2) \<noteq> Calculate 16 (take (h - 2) buffer) CRC_16_ARC"
  shows "\<exists>e. fst (Load buffer len d0) = Thrown e"
  using assms by (auto simp: Load_def Let_def split: if_splits)

lemma nth_after_burst:
  assumes "length as + length xs \<le> i" "i < length as + length xs + length bs"
    "length ys = length xs"
  shows "((as @ ys @ bs) @ rest) ! i = (as @ xs @ bs) ! i"
proof -
  have "\<not> i < length as" "\<not> i - length as < length xs" "i - length as - length xs < length bs"
    using assms(1,2) by auto
  with assms(3) show ?thesis by (simp add: nth_append)
qed

lemma Load_corrupted_fields:
  assumes get: "Get d = as @ xs @ bs" and flag: "(as @ ys @ bs) ! 3 AND 0x80 \<noteq> 0 \<longleftrightarrow> payload_checksum_included d"
    and fields: "length as + length xs \<le> header_size d - 2"
    and burst: "length ys = length xs" "length xs \<le> 2" "ys \<noteq> xs"
  shows "\<exists>e. fst (Load ((as @ ys @ bs) @ rest) len d0) = Thrown e"
proof (rule Load_checksum_mismatch)
  let ?h = "header_size d" and ?buffer = "(as @ ys @ bs) @ rest"
  define cs where "cs = take (?h - 2 - length as - length xs) bs"
  have len: "?h \<le> length (as @ ys @ bs)"
    using arg_cong [OF get, of length] burst(1) by (simp add: Get_eq)
  have h: "4 \<le> ?h" using header_size_cases [of d] by auto
  show "?h = (if ?buffer ! 3 AND 0x80 \<noteq> 0 then 16 else 12)"
  proof -
    have "?buffer ! 3 = (as @ ys @ bs) ! 3"
      using nth_append [of "as @ ys @ bs" rest 3] len h by simp
    with flag show ?thesis by (simp only: header_size_def)
  qed
  have "header_fields d = take (?h - 2) (Get d)"
    by (simp only: Get_eq header_reads(7))
  also have "\<dots> = as @ xs @ cs"
    using fields by (simp add: get cs_def)
  finally have orig: "header_fields d = as @ xs @ cs" .
  have new: "take (?h - 2) ?buffer = as @ ys @ cs"
    using fields burst(1) len by (simp add: cs_def)
  have "read16 ?buffer (?h - 2) = read16 (Get d) (?h - 2)"
    using fields burst(1) len h nth_after_burst [of as xs "?h - 2" bs ys rest]
      nth_after_burst [of as xs "?h - 2 + 1" bs ys rest]
    by (simp add: read16_def get)
  also have "\<dots> = Calculate 16 (header_fields d) CRC_16_ARC"
    by (simp only: Get_eq header_reads(6))
  finally show "read16 ?buffer (?h - 2) \<noteq> Calculate 16 (take (?h - 2) ?buffer) CRC_16_ARC"
    unfolding new using header_crc.corruption_changes [OF refl orig burst] by metis
qed

lemma Load_corrupted_payload:
  assumes inc: "payload_checksum_included d" and small: "length (payload d) < 2 ^ 32"
    and pay: "payload d = as @ xs @ bs"
    and burst: "length ys = length xs" "length xs \<le> 4" "ys \<noteq> xs"
    and len: "length (Get d) \<le> len"
  shows "\<exists>d'. Load ((header d @ as @ ys @ bs) @ rest) len d0 = (Loaded, d') \<and>
     payload d' = as @ ys @ bs \<and> \<not> PayloadCorrectness d'"
proof -
  let ?p = "as @ ys @ bs"
  have same: "length ?p = length (payload d)" using burst(1) pay by simp
  have n: "unat (word_of_nat (length (payload d)) :: u32) = length (payload d)"
    using small by (simp add: unat_of_nat)
  let ?d' = "(loaded_from d d0)\<lparr>payload := ?p\<rparr>"
  have load: "Load ((header d @ ?p) @ rest) len d0 = (Loaded, ?d')"
    using header_reads [of d "?p @ rest"] inc n same len
      unat_of_nat_sum [of "length (payload d)" 16]
    by (simp add: Load_def Get_eq header_size_def loaded_from_def)
  have "Calculate 32 ?p CRC_32 \<noteq> Calculate 32 (payload d) CRC_32"
    by (rule payload_crc.corruption_changes [OF refl pay burst])
  then have "\<not> PayloadCorrectness ?d'"
    by (simp add: PayloadCorrectness_def loaded_from_def inc)
  with load show ?thesis by auto
qed

section \<open>Properties\<close>

declare Load_def [crc_eval] Let_def [crc_eval] read16_def [crc_eval] read32_def [crc_eval]
  BEGIN_SEQUENCE_def [crc_eval] CRC_16_ARC_def [crc_eval] CRC_32_def [crc_eval]
  PayloadCorrectness_def [crc_eval]

lemma version_low_byte: "sint (v AND 0x00FF :: u16) = uint v mod 256"
proof -
  have "v AND 0x00FF = take_bit 8 v"
    by (rule bit_word_eqI) (auto simp: bit_simps bytes_simps)
  moreover have "sint (take_bit 8 v) = uint (take_bit 8 v)"
    by (rule sint_eq_uint16) (simp add: bit_simps)
  moreover have "take_bit 8 (uint v) = uint v mod 256"
    by (simp add: take_bit_eq_mod)
  moreover have "uint (take_bit 8 v) = take_bit 8 (uint v)"
    by (rule unsigned_take_bit_eq)
  ultimately show ?thesis by (simp only:)
qed

text \<open>
  C14. Serializing and parsing a datagram gives back its payload and its checksum flag, the
  payload passes the checksum test, and of the version the low 8 bits survive; this holds
  whatever follows the datagram in the buffer and whatever object loads it.
\<close>

theorem datagram_roundtrip:
  assumes "length (payload d) < 2 ^ 32" "length (Get d) \<le> len"
  shows "\<exists>d'. Load (Get d @ rest) len d0 = (Loaded, d') \<and> Payload d' = Payload d \<and>
     payload_checksum_included d' = payload_checksum_included d \<and> PayloadCorrectness d' \<and>
     Version d' = uint (version d) mod 256"
  using assms
  by (simp add: Load_Get) (simp add: loaded_from_def Payload_def PayloadCorrectness_def
      Version_def version_low_byte unat_of_nat)

theorem datagram_roundtrip_witness:
  "\<exists>d'. Load (Get (zero_datagram\<lparr>version := 101, payload := [0x41]\<rparr>) @ [7, 7]) 15 zero_datagram =
       (Loaded, d') \<and>
     Payload d' = [0x41]"
  using datagram_roundtrip [of "zero_datagram\<lparr>version := 101, payload := [0x41]\<rparr>" 15 "[7, 7]"
      zero_datagram]
  by (auto simp: Get_eq header_size_def Payload_def zero_datagram_def)

text \<open>
  A version of 256 or more does not survive a round trip, although \<open>SetVersion\<close> keeps
  15 bits of it and \<open>Get\<close> writes them: \<open>Load\<close> keeps only the low byte. The version read
  back is the one that was set exactly when that is below 256.
\<close>

theorem version_survives_iff_below_256:
  assumes "d = SetVersion v d1" "length (payload d) < 2 ^ 32"
    and "Load (Get d) (length (Get d)) d0 = (Loaded, d')"
  shows "Version d' = Version d \<longleftrightarrow> Version d < 256"
proof -
  have pos: "Version d = uint (version d)"
    unfolding Version_def assms(1) SetVersion_def
    by (rule sint_eq_uint16) (simp add: bit_simps bytes_simps)
  have "Version d' = uint (version d) mod 256"
    using Load_Get [OF assms(2) order_refl, of "[]" d0] assms(3)
    by (auto simp: loaded_from_def Version_def version_low_byte)
  moreover have "0 \<le> uint (version d)" by simp
  ultimately show ?thesis unfolding pos by presburger
qed

theorem version_survives_iff_below_256_witness:
  "Version (snd (Load (Get (SetVersion 300 zero_datagram))
     (length (Get (SetVersion 300 zero_datagram))) zero_datagram)) \<noteq> 300"
proof -
  let ?d = "SetVersion 300 zero_datagram"
  have p: "length (payload ?d) < 2 ^ 32" by (simp add: SetVersion_def zero_datagram_def)
  have load: "Load (Get ?d) (length (Get ?d)) zero_datagram =
      (Loaded, loaded_from ?d zero_datagram)"
    using Load_Get [OF p order_refl, of "[]"] by simp
  have "Version ?d = 300" by (simp add: Version_def SetVersion_def)
  with version_survives_iff_below_256 [OF refl p load] show ?thesis
    by (simp add: load)
qed







text \<open>
  C39. Memory safety of \<open>Load\<close> up to its length check: with a buffer of at least \<open>len\<close>
  bytes, it reads behind the buffer only if the transmitted payload length and the
  header together reach 2 to the 32, so that the 32-bit sum of the check wraps around.
\<close>

theorem Load_out_of_bounds_only_on_wrap:
  assumes "len \<le> length buffer"
    and "Load buffer len d0 = (Out_Of_Bounds, d)"
  shows "2 ^ 32 \<le> header_size d + unat (payload_length d)"
  using assms by (rule Load_bounds)

definition wrapping_packet :: "u8 list" where
  "wrapping_packet = [0xDA, 0xAB, 101, 0, 0xF8, 0xFF, 0xFF, 0xFF, 0, 0, 0x68, 0x21]"

lemma Load_wrapping_packet:
  "Load wrapping_packet 12 zero_datagram =
     (Out_Of_Bounds, zero_datagram\<lparr>version := 101, payload_length := 0xFFFFFFF8\<rparr>)"
  by (simp add: wrapping_packet_def crc_eval zero_datagram_def)

theorem Load_out_of_bounds_only_on_wrap_witness:
  "2 ^ 32 \<le> header_size (zero_datagram\<lparr>version := 101, payload_length := 0xFFFFFFF8\<rparr>) +
     unat (0xFFFFFFF8 :: u32)"
  using Load_out_of_bounds_only_on_wrap [OF _ Load_wrapping_packet]
  by (simp add: wrapping_packet_def)

text \<open>
  The wrap-around is reachable from the network: a 12-byte packet with a correct begin
  sequence and a correct header checksum whose length field is 0xFFFFFFF8 passes the length
  check of \<open>Load\<close>, which then copies about 4 GiB from behind the receive buffer.
\<close>

theorem wrapping_packet_overreads:
  "length wrapping_packet = 12 \<and> fst (Load wrapping_packet 12 zero_datagram) = Out_Of_Bounds"
  by (simp add: Load_wrapping_packet) (simp add: wrapping_packet_def)

text \<open>
  A load that does not return normally leaves the payload that the object held before:
  \<open>payload_\<close> is assigned last, after every check.
\<close>

theorem failed_load_keeps_payload:
  assumes "fst (Load buffer len d) \<noteq> Loaded"
  shows "Payload (snd (Load buffer len d)) = Payload d"
  using Load_not_Loaded_payload [OF assms] by (simp add: Payload_def)

theorem failed_load_keeps_payload_witness:
  "Payload (snd (Load [1, 2] 2 (zero_datagram\<lparr>payload := [5]\<rparr>))) = [5]"
  using failed_load_keeps_payload [of "[1, 2]" 2 "zero_datagram\<lparr>payload := [5]\<rparr>"]
  by (simp add: Load_def Payload_def)

end
