(* ===== verification/Sequence_Filter.thy ===== *)
theory Sequence_Filter
  imports Main
begin

text \<open>
  The interface of a receiver that accepts a message only when its sequence number is above the
  last one accepted: \<open>offer\<close> presents a message and says whether it was accepted. The lemmas
  speak about any sequence of messages.
\<close>

locale sequence_filter =
  fixes seq :: "'s \<Rightarrow> 'n :: linorder"
    and offer :: "'m \<Rightarrow> 's \<Rightarrow> bool \<times> 's"
  assumes accepted_increases: "offer m s = (True, t) \<Longrightarrow> seq s < seq t"
    and rejected_keeps: "offer m s = (False, t) \<Longrightarrow> t = s"
    and old_rejected: "offer m s = (True, t) \<Longrightarrow> seq t \<le> seq u \<Longrightarrow> offer m u = (False, u)"
begin

text \<open>The accepted messages of a run, each with the number that it left.\<close>

fun run :: "'m list \<Rightarrow> 's \<Rightarrow> ('m \<times> 'n) list \<times> 's" where
  "run [] s = ([], s)"
| "run (m # ms) s =
     (let (ok, t) = offer m s; (acc, u) = run ms t
      in (if ok then (m, seq t) # acc else acc, u))"

lemma run_Cons_cases:
  assumes "run (m # ms) s = (acc, u)"
  obtains (accepted) t acc' where "offer m s = (True, t)" "run ms t = (acc', u)"
      "acc = (m, seq t) # acc'" "seq s < seq t"
    | (rejected) "offer m s = (False, s)" "run ms s = (acc, u)"
proof -
  obtain ok t where o: "offer m s = (ok, t)" by (rule prod.exhaust)
  obtain acc' u' where r: "run ms t = (acc', u')" by (rule prod.exhaust)
  from assms o r show ?thesis
    by (cases ok) (auto intro: that accepted_increases dest: rejected_keeps)
qed

lemma run_mono: "run ms s = (acc, u) \<Longrightarrow> seq s \<le> seq u"
proof (induction ms arbitrary: s acc)
  case (Cons m ms)
  from Cons.prems show ?case
    by (cases rule: run_Cons_cases) (use Cons.IH in \<open>fastforce+\<close>)
qed simp

lemma run_bounds: "run ms s = (acc, u) \<Longrightarrow> n \<in> snd ` set acc \<Longrightarrow> seq s < n \<and> n \<le> seq u"
proof (induction ms arbitrary: s acc)
  case (Cons m ms)
  from Cons.prems(1) show ?case
  proof (cases rule: run_Cons_cases)
    case (accepted t acc')
    then show ?thesis
      using Cons.IH [OF accepted(2)] Cons.prems(2) run_mono [OF accepted(2)] by fastforce
  next
    case rejected
    then show ?thesis using Cons.IH [OF rejected(2) Cons.prems(2)] by simp
  qed
qed simp

lemma run_strictly_sorted: "run ms s = (acc, u) \<Longrightarrow> sorted_wrt (<) (map snd acc)"
proof (induction ms arbitrary: s acc)
  case (Cons m ms)
  from Cons.prems show ?case
  proof (cases rule: run_Cons_cases)
    case (accepted t acc')
    then show ?thesis
      using Cons.IH [OF accepted(2)] run_bounds [OF accepted(2)] by fastforce
  next
    case rejected
    then show ?thesis using Cons.IH by blast
  qed
qed simp

lemma old_not_accepted:
  assumes "offer m s = (True, t)" "seq t \<le> seq u" "run ms u = (acc, v)"
  shows "m \<notin> fst ` set acc"
  using assms(2,3)
proof (induction ms arbitrary: u acc)
  case (Cons m' ms)
  from Cons.prems(2) show ?case
  proof (cases rule: run_Cons_cases)
    case (accepted t' acc')
    have "m \<noteq> m'" using old_rejected [OF assms(1) Cons.prems(1)] accepted(1) by auto
    then show ?thesis
      using Cons.IH [OF _ accepted(2)] accepted Cons.prems(1) by auto
  next
    case rejected
    then show ?thesis using Cons.IH [OF Cons.prems(1)] by blast
  qed
qed simp

lemma run_accepts_once: "run ms s = (acc, u) \<Longrightarrow> distinct (map fst acc)"
proof (induction ms arbitrary: s acc)
  case (Cons m ms)
  from Cons.prems show ?case
  proof (cases rule: run_Cons_cases)
    case (accepted t acc')
    then show ?thesis
      using Cons.IH [OF accepted(2)] old_not_accepted [OF accepted(1) _ accepted(2)] by auto
  next
    case rejected
    then show ?thesis using Cons.IH by blast
  qed
qed simp

end

end
