(* ===== verification/Client_Udp.thy ===== *)
theory Client_Udp
  imports Client Datagram Sequence_Filter
begin

text \<open>
  A client as the UDP communication sees it, client_communication/client_udp.cpp: the player's
  last input, the sequence number that came with it and the endpoint to send to.

  \<open>make_address\<close> of asio and \<open>GetInput\<close>, the FlatBuffers view of a payload, are parameters.
  \<open>make_address\<close> is None where it throws. \<open>get_input\<close> is None where the accessors, which check
  nothing, leave the payload.
\<close>

section \<open>The state\<close>

text \<open>What the accessors of inc/player_input_generated.h return.\<close>

record wire_input =
  sequence :: u64
  wire_id :: u32
  disconnect :: bool
  wire_direction :: double
  wire_move :: bool

record 'a endpoint =
  address :: 'a
  port :: u16

record 'a client_udp = client +
  input :: PlayerInput
  last_sequence :: u64
  remote_endpoint :: "'a endpoint"
  first_connection :: bool

section \<open>The operations\<close>

text \<open>The port of an endpoint has 16 bits, the configured one 32.\<close>

definition ClientUdp :: "(string \<Rightarrow> 'a option) \<Rightarrow> string \<Rightarrow> u32 \<Rightarrow> VehicleType \<Rightarrow> string \<Rightarrow>
    u32 \<Rightarrow> 'a client_udp option" where
  "ClientUdp make_address name client_id vehicle ip p =
     (case make_address ip of
        None \<Rightarrow> None
      | Some a \<Rightarrow>
          Some (client.extend (Client name client_id vehicle ip p)
            (client_udp.fields
              (default_input\<lparr>input_id := client_id, move := False, direction := Fin 0\<rparr>)
              0 \<lparr>address = a, port = ucast p\<rparr> True)))"

definition ClientUdp_of_client :: "(string \<Rightarrow> 'a option) \<Rightarrow> client \<Rightarrow> 'a client_udp option" where
  "ClientUdp_of_client make_address c =
     ClientUdp make_address (Name c) (Id c) (Vehicle c) (Ip_v4 c) (Port c)"

datatype decoded = Exception load_error | Read_Out_Of_Bounds | Result bool

text \<open>\<open>d0\<close> is the local object, which the default constructor leaves indeterminate.\<close>

definition DecodeDatagram :: "(u8 list \<Rightarrow> wire_input option) \<Rightarrow> datagram \<Rightarrow> u8 list \<Rightarrow> nat \<Rightarrow>
    'a client_udp \<Rightarrow> decoded \<times> 'a client_udp" where
  "DecodeDatagram get_input d0 received len c =
     (case Load received len d0 of
        (Thrown e, d) \<Rightarrow> (Exception e, c)
      | (Out_Of_Bounds, d) \<Rightarrow> (Read_Out_Of_Bounds, c)
      | (Loaded, d) \<Rightarrow>
          if Version d = 101
          then case get_input (Payload d) of
              None \<Rightarrow> (Read_Out_Of_Bounds, c)
            | Some i \<Rightarrow>
                if last_sequence c < sequence i \<and> wire_id i = Id c
                then (Result True, c
                  \<lparr>input := (input c)\<lparr>move := wire_move i, direction := wire_direction i\<rparr>,
                   last_sequence := sequence i\<rparr>)
                else (Result False, c)
          else (Result False, c))"

definition Input :: "'a client_udp \<Rightarrow> PlayerInput" where
  "Input c = input c"

section \<open>Library\<close>

lemma ClientUdp_eq: "ClientUdp make_address name n v ip p =
    map_option (\<lambda>a. \<lparr>Name = name, Id = n, Vehicle = v, Ip_v4 = ip, Port = p,
      input = \<lparr>input_id = n, move = False, direction = Fin 0\<rparr>, last_sequence = 0,
      remote_endpoint = \<lparr>address = a, port = ucast p\<rparr>, first_connection = True\<rparr>) (make_address ip)"
  by (simp add: ClientUdp_def Client_def client.defs client_udp.defs default_input_def
      split: option.splits)

text \<open>The input of a client carries the id of the client.\<close>

definition own_input :: "'a client_udp \<Rightarrow> bool" where
  "own_input c \<longleftrightarrow> input_id (input c) = Id c"

lemma ClientUdp_own_input: "ClientUdp make_address name n v ip p = Some c \<Longrightarrow> own_input c"
  by (auto simp: ClientUdp_eq own_input_def)

text \<open>What is fixed at construction.\<close>

definition same_identity :: "'a client_udp \<Rightarrow> 'a client_udp \<Rightarrow> bool" where
  "same_identity c c' \<longleftrightarrow> Name c' = Name c \<and> Id c' = Id c \<and> Vehicle c' = Vehicle c \<and>
     Ip_v4 c' = Ip_v4 c \<and> Port c' = Port c"

lemma same_identity_refl [simp]: "same_identity c c"
  by (simp add: same_identity_def)

lemma DecodeDatagram_cases:
  assumes "DecodeDatagram get_input d0 received len c = (r, c')"
  obtains (accepted) d i where "r = Result True" "Load received len d0 = (Loaded, d)"
      "Version d = 101" "get_input (Payload d) = Some i" "last_sequence c < sequence i"
      "wire_id i = Id c"
      "c' = c\<lparr>input := (input c)\<lparr>move := wire_move i, direction := wire_direction i\<rparr>,
         last_sequence := sequence i\<rparr>"
    | (kept) "r \<noteq> Result True" "c' = c"
proof (cases "r = Result True")
  case True
  obtain lr d where load: "Load received len d0 = (lr, d)" by (rule prod.exhaust)
  with assms True have "lr = Loaded" "Version d = 101"
    by (auto simp: DecodeDatagram_def split: load_result.splits if_splits)
  with assms True load obtain i where "get_input (Payload d) = Some i"
    by (auto simp: DecodeDatagram_def split: option.splits)
  with assms True load \<open>lr = Loaded\<close> \<open>Version d = 101\<close> show ?thesis
    by (intro accepted [of d i]) (auto simp: DecodeDatagram_def split: if_splits)
next
  case False
  with assms have "c' = c"
    by (simp add: DecodeDatagram_def split: prod.splits load_result.splits option.splits if_splits)
  with False show ?thesis by (rule kept)
qed

lemma DecodeDatagram_accepts:
  assumes "Load received len d0 = (Loaded, d)" "Version d = 101" "get_input (Payload d) = Some i"
    "last_sequence c < sequence i" "wire_id i = Id c"
  shows "DecodeDatagram get_input d0 received len c =
    (Result True, c\<lparr>input := (input c)\<lparr>move := wire_move i, direction := wire_direction i\<rparr>,
       last_sequence := sequence i\<rparr>)"
  using assms by (simp add: DecodeDatagram_def)

lemma DecodeDatagram_keeps:
  "DecodeDatagram get_input d0 received len c = (r, c') \<Longrightarrow>
     same_identity c c' \<and> (own_input c \<longrightarrow> own_input c') \<and>
     remote_endpoint c' = remote_endpoint c \<and> first_connection c' = first_connection c"
  by (erule DecodeDatagram_cases) (auto simp: same_identity_def own_input_def)

definition offer_datagram :: "(u8 list \<Rightarrow> wire_input option) \<Rightarrow> datagram \<Rightarrow> u8 list \<Rightarrow>
    'a client_udp \<Rightarrow> bool \<times> 'a client_udp" where
  "offer_datagram get_input d0 received c =
     (let (r, c') = DecodeDatagram get_input d0 received (length received) c in (r = Result True, c'))"

interpretation inputs: sequence_filter "last_sequence :: 'a client_udp \<Rightarrow> u64" "offer_datagram get_input d0"
proof unfold_locales
  fix m :: "u8 list" and s t u :: "'a client_udp"
  let ?dec = "DecodeDatagram get_input d0 m (length m)"
  show "offer_datagram get_input d0 m s = (True, t) \<Longrightarrow> last_sequence s < last_sequence t"
    "offer_datagram get_input d0 m s = (False, t) \<Longrightarrow> t = s"
    by (cases "?dec s" rule: prod.exhaust; auto simp: offer_datagram_def elim: DecodeDatagram_cases)+
  assume acc: "offer_datagram get_input d0 m s = (True, t)" and le: "last_sequence t \<le> last_sequence u"
  obtain r c where dec: "?dec s = (r, c)" by (rule prod.exhaust)
  with acc have "r = Result True" "c = t" by (auto simp: offer_datagram_def)
  with dec le show "offer_datagram get_input d0 m u = (False, u)"
    by (elim DecodeDatagram_cases) (auto simp: offer_datagram_def DecodeDatagram_def)
qed

text \<open>The datagrams that a client accepts out of a sequence of them, with their numbers.\<close>

fun accepted_inputs :: "(u8 list \<Rightarrow> wire_input option) \<Rightarrow> datagram \<Rightarrow> u8 list list \<Rightarrow>
    'a client_udp \<Rightarrow> (u8 list \<times> u64) list" where
  "accepted_inputs get_input d0 [] c = []"
| "accepted_inputs get_input d0 (m # ms) c =
     (case DecodeDatagram get_input d0 m (length m) c of
        (r, c') \<Rightarrow>
          if r = Result True
          then (m, last_sequence c') # accepted_inputs get_input d0 ms c'
          else accepted_inputs get_input d0 ms c')"

lemma accepted_inputs_run:
  "accepted_inputs get_input d0 ms c = fst (inputs.run get_input d0 ms c)"
  by (induction ms arbitrary: c)
    (auto simp: offer_datagram_def Let_def split: prod.splits)

section \<open>Properties\<close>

definition example_input :: wire_input where
  "example_input = \<lparr>sequence = 1, wire_id = 5, disconnect = False, wire_direction = Fin 0,
     wire_move = True\<rparr>"

definition example_view :: "u8 list \<Rightarrow> wire_input option" where
  "example_view p = (if p = [0x41] then Some example_input else None)"

definition example_client :: "nat client_udp" where
  "example_client = \<lparr>Name = ''ann'', Id = 5, Vehicle = CAR, Ip_v4 = ''10.0.0.1'', Port = 9000,
     input = default_input, last_sequence = 0,
     remote_endpoint = \<lparr>address = 1, port = 9000\<rparr>, first_connection = True\<rparr>"

text \<open>
  A fresh input arrives: a datagram of version 101, serialized by \<open>Get\<close> with or without a
  payload checksum, whose payload views as an input of this client with a sequence number above
  the last, is accepted, and the client takes over movement, direction and number.
\<close>

theorem fresh_input_accepted:
  assumes "version d AND 0x00FF = 101" "length (payload d) < 2 ^ 32"
    "get_input (payload d) = Some i" "last_sequence c < sequence i" "wire_id i = Id c"
  shows "DecodeDatagram get_input d0 (Get d) (length (Get d)) c =
    (Result True, c\<lparr>input := (input c)\<lparr>move := wire_move i, direction := wire_direction i\<rparr>,
       last_sequence := sequence i\<rparr>)"
proof (rule DecodeDatagram_accepts [of _ _ _ "loaded_from d d0"])
  show "Load (Get d) (length (Get d)) d0 = (Loaded, loaded_from d d0)"
    using Load_Get [OF assms(2) order_refl, of "[]" d0] by simp
  show "Version (loaded_from d d0) = 101"
    using assms(1) by (simp add: Version_def loaded_from_def)
qed (use assms in \<open>simp_all add: Payload_def loaded_from_def\<close>)

theorem fresh_input_accepted_witness:
  "fst (DecodeDatagram example_view zero_datagram
     (Get (zero_datagram\<lparr>version := 101, payload := [0x41]\<rparr>)) 13 example_client) = Result True"
  using fresh_input_accepted [of "zero_datagram\<lparr>version := 101, payload := [0x41]\<rparr>" example_view
      example_input example_client zero_datagram]
  by (simp add: zero_datagram_def example_view_def example_input_def example_client_def
      Get_eq header_size_def)

text \<open>
  C23. Duplicated and reordered datagrams: out of any sequence of received datagrams a client
  accepts each at most once, and the sequence numbers it accepts are strictly increasing.
\<close>

theorem inputs_accepted_in_order:
  "sorted_wrt (<) (map snd (accepted_inputs get_input d0 ms c)) \<and>
   distinct (map fst (accepted_inputs get_input d0 ms c))"
  unfolding accepted_inputs_run
  using inputs.run_strictly_sorted inputs.run_accepts_once by (metis prod.collapse)

text \<open>
  \<open>DecodeDatagram\<close> never asks \<open>PayloadCorrectness\<close>: a datagram of version 101 whose payload was
  changed in transit within any 32 consecutive bits fails that check and is decoded all the same,
  its input taken from the changed payload.
\<close>

theorem corrupted_input_accepted:
  assumes "payload d = as @ xs @ bs" "payload_checksum_included d" "length (payload d) < 2 ^ 32"
    "length xs \<le> 4" "length ys = length xs" "ys \<noteq> xs" "version d AND 0x00FF = 101"
    "get_input (as @ ys @ bs) = Some i" "last_sequence c < sequence i" "wire_id i = Id c"
  shows "\<exists>d'. Load (header d @ as @ ys @ bs) (length (Get d)) d0 = (Loaded, d') \<and>
    \<not> PayloadCorrectness d' \<and>
    DecodeDatagram get_input d0 (header d @ as @ ys @ bs) (length (Get d)) c =
      (Result True, c\<lparr>input := (input c)\<lparr>move := wire_move i, direction := wire_direction i\<rparr>,
         last_sequence := sequence i\<rparr>)"
proof -
  let ?b = "header d @ as @ ys @ bs"
  obtain d' where d': "Load ?b (length (Get d)) d0 = (Loaded, d')" "payload d' = as @ ys @ bs"
      "\<not> PayloadCorrectness d'"
    using Load_corrupted_payload [OF assms(2,3,1,5,4,6) order_refl, of "[]" d0] by auto
  moreover have "Version d' = 101"
    using Load_LoadedD(6) [OF d'(1)] header_reads(2) [of d "as @ ys @ bs"] assms(7)
    by (simp add: Version_def)
  ultimately show ?thesis
    using DecodeDatagram_accepts [OF d'(1), of get_input i c] assms(8-10)
    by (simp add: Payload_def)
qed

theorem corrupted_input_accepted_witness:
  "fst (DecodeDatagram example_view zero_datagram
     (header (zero_datagram\<lparr>version := 101, payload := [0x40], payload_checksum_included := True\<rparr>) @
      [0x41]) 17 example_client) = Result True"
  using corrupted_input_accepted [of
      "zero_datagram\<lparr>version := 101, payload := [0x40], payload_checksum_included := True\<rparr>"
      "[]" "[0x40]" "[]" "[0x41]" example_view example_input example_client zero_datagram]
  by (auto simp: zero_datagram_def example_view_def example_input_def example_client_def
      Get_eq header_size_def)

end
