(* ===== verification/Input_Message.thy ===== *)
theory Input_Message
  imports Flatbuffers Client_Udp
begin

text \<open>
  inc/player_input_generated.h: the table \<open>Input\<close> with its accessors and \<open>Verify\<close>, its builder, and
  the functions for a whole message. Then the message that the test client writes and the fields
  that \<open>DecodeDatagram\<close> reads, which give back what was written.
\<close>

section \<open>The table Input\<close>

definition Input_VT_SEQUENCE :: voffset where "Input_VT_SEQUENCE = 4"
definition Input_VT_ID :: voffset where "Input_VT_ID = 6"
definition Input_VT_DISCONNECT :: voffset where "Input_VT_DISCONNECT = 8"
definition Input_VT_DIRECTION :: voffset where "Input_VT_DIRECTION = 10"
definition Input_VT_MOVE :: voffset where "Input_VT_MOVE = 12"

lemmas Input_VT = Input_VT_SEQUENCE_def Input_VT_ID_def Input_VT_DISCONNECT_def
  Input_VT_DIRECTION_def Input_VT_MOVE_def

definition Input_sequence :: "('b, 'o, 'p, 'v) flatbuffers \<Rightarrow> 'p \<Rightarrow> u64" where
  "Input_sequence L p = uint64_of (fb_GetField L p Input_VT_SEQUENCE (Uint64 0))"

definition Input_id :: "('b, 'o, 'p, 'v) flatbuffers \<Rightarrow> 'p \<Rightarrow> u32" where
  "Input_id L p = uint32_of (fb_GetField L p Input_VT_ID (Uint32 0))"

definition Input_disconnect :: "('b, 'o, 'p, 'v) flatbuffers \<Rightarrow> 'p \<Rightarrow> bool" where
  "Input_disconnect L p \<longleftrightarrow> uint8_of (fb_GetField L p Input_VT_DISCONNECT (Uint8 0)) \<noteq> 0"

definition Input_direction :: "('b, 'o, 'p, 'v) flatbuffers \<Rightarrow> 'p \<Rightarrow> double" where
  "Input_direction L p = float32_of (fb_GetField L p Input_VT_DIRECTION (Float32 0))"

definition Input_move :: "('b, 'o, 'p, 'v) flatbuffers \<Rightarrow> 'p \<Rightarrow> bool" where
  "Input_move L p \<longleftrightarrow> uint8_of (fb_GetField L p Input_VT_MOVE (Uint8 0)) \<noteq> 0"

definition Input_Verify :: "('b, 'o, 'p, 'v) flatbuffers \<Rightarrow> 'p \<Rightarrow> 'v check" where
  "Input_Verify L p = all_of
     [fb_VerifyTableStart L p,
      fb_VerifyField L p (Uint64 0) Input_VT_SEQUENCE,
      fb_VerifyField L p (Uint32 0) Input_VT_ID,
      fb_VerifyField L p (Uint8 0) Input_VT_DISCONNECT,
      fb_VerifyField L p (Float32 0) Input_VT_DIRECTION,
      fb_VerifyField L p (Uint8 0) Input_VT_MOVE,
      fb_VerifyEndTable L]"

definition InputBuilder_add_sequence :: "('b, 'o, 'p, 'v) flatbuffers \<Rightarrow> u64 \<Rightarrow> 'b \<Rightarrow> 'b option" where
  "InputBuilder_add_sequence L v = fb_AddElement L Input_VT_SEQUENCE (Uint64 v) (Uint64 0)"

definition InputBuilder_add_id :: "('b, 'o, 'p, 'v) flatbuffers \<Rightarrow> u32 \<Rightarrow> 'b \<Rightarrow> 'b option" where
  "InputBuilder_add_id L v = fb_AddElement L Input_VT_ID (Uint32 v) (Uint32 0)"

definition InputBuilder_add_disconnect :: "('b, 'o, 'p, 'v) flatbuffers \<Rightarrow> bool \<Rightarrow> 'b \<Rightarrow> 'b option" where
  "InputBuilder_add_disconnect L v = fb_AddElement L Input_VT_DISCONNECT (Uint8 (of_bool v)) (Uint8 0)"

definition InputBuilder_add_direction :: "('b, 'o, 'p, 'v) flatbuffers \<Rightarrow> double \<Rightarrow> 'b \<Rightarrow> 'b option" where
  "InputBuilder_add_direction L v = fb_AddElement L Input_VT_DIRECTION (Float32 v) (Float32 0)"

definition InputBuilder_add_move :: "('b, 'o, 'p, 'v) flatbuffers \<Rightarrow> bool \<Rightarrow> 'b \<Rightarrow> 'b option" where
  "InputBuilder_add_move L v = fb_AddElement L Input_VT_MOVE (Uint8 (of_bool v)) (Uint8 0)"

definition InputBuilder :: "('b, 'o, 'p, 'v) flatbuffers \<Rightarrow> ('b, 'o) build" where
  "InputBuilder L b = fb_StartTable L b"

definition InputBuilder_Finish :: "('b, 'o, 'p, 'v) flatbuffers \<Rightarrow> 'o \<Rightarrow> ('b, 'o) build" where
  "InputBuilder_Finish L start b = fb_EndTable L start b"

lemmas InputBuilder_defs = InputBuilder_def InputBuilder_add_sequence_def InputBuilder_add_id_def
  InputBuilder_add_disconnect_def InputBuilder_add_direction_def InputBuilder_add_move_def
  InputBuilder_Finish_def

definition CreateInput :: "('b, 'o, 'p, 'v) flatbuffers \<Rightarrow> u64 \<Rightarrow> u32 \<Rightarrow> bool \<Rightarrow> double \<Rightarrow> bool \<Rightarrow>
    ('b, 'o) build" where
  "CreateInput L sequence' id' disconnect' direction' move' b = do {
     (start, b) \<leftarrow> InputBuilder L b;
     b \<leftarrow> InputBuilder_add_sequence L sequence' b;
     b \<leftarrow> InputBuilder_add_direction L direction' b;
     b \<leftarrow> InputBuilder_add_id L id' b;
     b \<leftarrow> InputBuilder_add_move L move' b;
     b \<leftarrow> InputBuilder_add_disconnect L disconnect' b;
     InputBuilder_Finish L start b }"

definition GetInput :: "('b, 'o, 'p, 'v) flatbuffers \<Rightarrow> u8 list \<Rightarrow> 'p" where
  "GetInput L buf = fb_GetRoot L buf"

definition GetSizePrefixedInput :: "('b, 'o, 'p, 'v) flatbuffers \<Rightarrow> u8 list \<Rightarrow> 'p" where
  "GetSizePrefixedInput L buf = fb_GetSizePrefixedRoot L buf"

definition VerifyInputBuffer :: "('b, 'o, 'p, 'v) flatbuffers \<Rightarrow> 'v check" where
  "VerifyInputBuffer L = fb_VerifyBuffer L (Input_Verify L)"

definition VerifySizePrefixedInputBuffer :: "('b, 'o, 'p, 'v) flatbuffers \<Rightarrow> 'v check" where
  "VerifySizePrefixedInputBuffer L = fb_VerifySizePrefixedBuffer L (Input_Verify L)"

definition FinishInputBuffer :: "('b, 'o, 'p, 'v) flatbuffers \<Rightarrow> 'o \<Rightarrow> 'b \<Rightarrow> 'b option" where
  "FinishInputBuffer L x = fb_Finish L x"

definition FinishSizePrefixedInputBuffer :: "('b, 'o, 'p, 'v) flatbuffers \<Rightarrow> 'o \<Rightarrow> 'b \<Rightarrow> 'b option" where
  "FinishSizePrefixedInputBuffer L x = fb_FinishSizePrefixed L x"

section \<open>Writing and reading an input\<close>

text \<open>
  The message that \<open>MockInputDatagram\<close> builds, and the fields that \<open>DecodeDatagram\<close> reads through
  \<open>GetInput\<close>.
\<close>

definition write_input :: "('b, 'o, 'p, 'v) flatbuffers \<Rightarrow> wire_input \<Rightarrow> u8 list option" where
  "write_input L i = do {
     (x, b) \<leftarrow> CreateInput L (sequence i) (wire_id i) (disconnect i) (wire_direction i) (wire_move i)
       (fb_FlatBufferBuilder L);
     b \<leftarrow> fb_Finish L x b;
     Some (fb_GetBuffer L b) }"

definition view_input :: "('b, 'o, 'p, 'v) flatbuffers \<Rightarrow> u8 list \<Rightarrow> wire_input" where
  "view_input L bs =
     (let p = GetInput L bs
      in \<lparr>sequence = Input_sequence L p, wire_id = Input_id L p, disconnect = Input_disconnect L p,
          wire_direction = Input_direction L p, wire_move = Input_move L p\<rparr>)"

section \<open>Library\<close>

text \<open>The table of an input, as the schema types it.\<close>

definition input_table :: "wire_input \<Rightarrow> 'o fields \<Rightarrow> bool" where
  "input_table i m \<longleftrightarrow>
     m Input_VT_SEQUENCE = set_scalar (Uint64 (sequence i)) (Uint64 0) \<and>
     m Input_VT_ID = set_scalar (Uint32 (wire_id i)) (Uint32 0) \<and>
     m Input_VT_DISCONNECT = set_scalar (Uint8 (of_bool (disconnect i))) (Uint8 0) \<and>
     m Input_VT_DIRECTION = set_scalar (Float32 (wire_direction i)) (Float32 0) \<and>
     m Input_VT_MOVE = set_scalar (Uint8 (of_bool (wire_move i))) (Uint8 0)"

lemma succeeds_CreateInput:
  assumes D: "documented L X" and b: "idle X b h" and dir: "representable X (wire_direction i)"
    and Q: "\<And>x b' m. idle X b' (h(x \<mapsto> Table m)) \<Longrightarrow> input_table i m \<Longrightarrow> Q (x, b')"
  shows "succeeds (CreateInput L (sequence i) (wire_id i) (disconnect i) (wire_direction i) (wire_move i) b) Q"
  unfolding CreateInput_def InputBuilder_defs
  by (rule build_steps build_calls [OF D] | (assumption | rule b Q)
      | (simp add: Input_VT dir input_table_def set_scalar_def; fail))+

lemma write_input_message:
  assumes D: "documented L X" and "representable X (wire_direction i)"
  obtains bs h x m where "write_input L i = Some bs" "message L X bs h x" "h x = Some (Table m)"
    "input_table i m"
proof -
  have "succeeds (write_input L i) (\<lambda>bs. \<exists>h x m. message L X bs h x \<and> h x = Some (Table m) \<and> input_table i m)"
    unfolding write_input_def
    using assms by (fastforce intro: build_steps idle_new [OF D] succeeds_CreateInput [OF D] succeeds_Finish [OF D])
  then show thesis by (auto elim: succeedsE intro: that)
qed

lemma input_fields:
  assumes "message L X bs h x" "h x = Some (Table m)" "input_table i m"
  shows "view_input L bs = i"
proof -
  have "GetInput L bs = place X bs x" using assms(1) by (simp add: GetInput_def message_def)
  then show ?thesis
    using assms(3) unfolding view_input_def input_table_def
    by (simp add: Input_sequence_def Input_id_def Input_disconnect_def Input_direction_def Input_move_def
        GetField_set [OF assms(1,2)] Let_def)
qed

lemma input_accepted:
  assumes "message L X bs h x" "h x = Some (Table m)" "input_table i m"
  shows "accepts X 1 1 (Input_Verify L (place X bs x))"
proof -
  note fields = accepts_field [OF assms(1,2)]
  have "accepts X 0 0 (all_of
     [fb_VerifyField L (place X bs x) (Uint64 0) Input_VT_SEQUENCE,
      fb_VerifyField L (place X bs x) (Uint32 0) Input_VT_ID,
      fb_VerifyField L (place X bs x) (Uint8 0) Input_VT_DISCONNECT,
      fb_VerifyField L (place X bs x) (Float32 0) Input_VT_DIRECTION,
      fb_VerifyField L (place X bs x) (Uint8 0) Input_VT_MOVE])"
    using assms(3) unfolding input_table_def
    by (intro accepts_skips accepts_Nil) (auto intro: fields(1))
  from accepts_table [OF assms(1,2) this] show ?thesis by (simp add: Input_Verify_def)
qed

end
