(* ===== verification/Notice_Messages.thy ===== *)
theory Notice_Messages
  imports Flatbuffers
begin

text \<open>
  inc/game_id_generated.h and inc/game_ended_generated.h: the two messages of one field that go to
  the main process, as \<open>TransmitGameId\<close> and \<open>SendGameFinished\<close> build them.
\<close>

section \<open>The table FGameId\<close>

definition FGameId_VT_ID :: voffset where "FGameId_VT_ID = 4"

lemmas FGameId_VT = FGameId_VT_ID_def

definition FGameId_id :: "('b, 'o, 'p, 'v) flatbuffers \<Rightarrow> 'p \<Rightarrow> u32" where
  "FGameId_id L p = int32_of (fb_GetField L p FGameId_VT_ID (Int32 0))"

definition FGameId_Verify :: "('b, 'o, 'p, 'v) flatbuffers \<Rightarrow> 'p \<Rightarrow> 'v check" where
  "FGameId_Verify L p = all_of
     [fb_VerifyTableStart L p,
      fb_VerifyField L p (Int32 0) FGameId_VT_ID,
      fb_VerifyEndTable L]"

definition FGameIdBuilder_add_id :: "('b, 'o, 'p, 'v) flatbuffers \<Rightarrow> u32 \<Rightarrow> 'b \<Rightarrow> 'b option" where
  "FGameIdBuilder_add_id L v = fb_AddElement L FGameId_VT_ID (Int32 v) (Int32 0)"

definition FGameIdBuilder :: "('b, 'o, 'p, 'v) flatbuffers \<Rightarrow> ('b, 'o) build" where
  "FGameIdBuilder L b = fb_StartTable L b"

definition FGameIdBuilder_Finish :: "('b, 'o, 'p, 'v) flatbuffers \<Rightarrow> 'o \<Rightarrow> ('b, 'o) build" where
  "FGameIdBuilder_Finish L start b = fb_EndTable L start b"

lemmas FGameIdBuilder_defs = FGameIdBuilder_def FGameIdBuilder_add_id_def FGameIdBuilder_Finish_def

definition CreateFGameId :: "('b, 'o, 'p, 'v) flatbuffers \<Rightarrow> u32 \<Rightarrow>
    ('b, 'o) build" where
  "CreateFGameId L id' b = do {
     (start, b) \<leftarrow> FGameIdBuilder L b;
     b \<leftarrow> FGameIdBuilder_add_id L id' b;
     FGameIdBuilder_Finish L start b }"

definition GetFGameId :: "('b, 'o, 'p, 'v) flatbuffers \<Rightarrow> u8 list \<Rightarrow> 'p" where
  "GetFGameId L buf = fb_GetRoot L buf"

definition GetSizePrefixedFGameId :: "('b, 'o, 'p, 'v) flatbuffers \<Rightarrow> u8 list \<Rightarrow> 'p" where
  "GetSizePrefixedFGameId L buf = fb_GetSizePrefixedRoot L buf"

definition VerifyFGameIdBuffer :: "('b, 'o, 'p, 'v) flatbuffers \<Rightarrow> 'v check" where
  "VerifyFGameIdBuffer L = fb_VerifyBuffer L (FGameId_Verify L)"

definition VerifySizePrefixedFGameIdBuffer :: "('b, 'o, 'p, 'v) flatbuffers \<Rightarrow> 'v check" where
  "VerifySizePrefixedFGameIdBuffer L = fb_VerifySizePrefixedBuffer L (FGameId_Verify L)"

definition FinishFGameIdBuffer :: "('b, 'o, 'p, 'v) flatbuffers \<Rightarrow> 'o \<Rightarrow> 'b \<Rightarrow> 'b option" where
  "FinishFGameIdBuffer L x = fb_Finish L x"

definition FinishSizePrefixedFGameIdBuffer :: "('b, 'o, 'p, 'v) flatbuffers \<Rightarrow> 'o \<Rightarrow> 'b \<Rightarrow> 'b option" where
  "FinishSizePrefixedFGameIdBuffer L x = fb_FinishSizePrefixed L x"

section \<open>The table FGameEnded\<close>

definition FGameEnded_VT_ENDED :: voffset where "FGameEnded_VT_ENDED = 4"

lemmas FGameEnded_VT = FGameEnded_VT_ENDED_def

definition FGameEnded_ended :: "('b, 'o, 'p, 'v) flatbuffers \<Rightarrow> 'p \<Rightarrow> bool" where
  "FGameEnded_ended L p \<longleftrightarrow> uint8_of (fb_GetField L p FGameEnded_VT_ENDED (Uint8 0)) \<noteq> 0"

definition FGameEnded_Verify :: "('b, 'o, 'p, 'v) flatbuffers \<Rightarrow> 'p \<Rightarrow> 'v check" where
  "FGameEnded_Verify L p = all_of
     [fb_VerifyTableStart L p,
      fb_VerifyField L p (Uint8 0) FGameEnded_VT_ENDED,
      fb_VerifyEndTable L]"

definition FGameEndedBuilder_add_ended :: "('b, 'o, 'p, 'v) flatbuffers \<Rightarrow> bool \<Rightarrow> 'b \<Rightarrow> 'b option" where
  "FGameEndedBuilder_add_ended L v = fb_AddElement L FGameEnded_VT_ENDED (Uint8 (of_bool v)) (Uint8 0)"

definition FGameEndedBuilder :: "('b, 'o, 'p, 'v) flatbuffers \<Rightarrow> ('b, 'o) build" where
  "FGameEndedBuilder L b = fb_StartTable L b"

definition FGameEndedBuilder_Finish :: "('b, 'o, 'p, 'v) flatbuffers \<Rightarrow> 'o \<Rightarrow> ('b, 'o) build" where
  "FGameEndedBuilder_Finish L start b = fb_EndTable L start b"

lemmas FGameEndedBuilder_defs = FGameEndedBuilder_def FGameEndedBuilder_add_ended_def FGameEndedBuilder_Finish_def

definition CreateFGameEnded :: "('b, 'o, 'p, 'v) flatbuffers \<Rightarrow> bool \<Rightarrow>
    ('b, 'o) build" where
  "CreateFGameEnded L ended' b = do {
     (start, b) \<leftarrow> FGameEndedBuilder L b;
     b \<leftarrow> FGameEndedBuilder_add_ended L ended' b;
     FGameEndedBuilder_Finish L start b }"

definition GetFGameEnded :: "('b, 'o, 'p, 'v) flatbuffers \<Rightarrow> u8 list \<Rightarrow> 'p" where
  "GetFGameEnded L buf = fb_GetRoot L buf"

definition GetSizePrefixedFGameEnded :: "('b, 'o, 'p, 'v) flatbuffers \<Rightarrow> u8 list \<Rightarrow> 'p" where
  "GetSizePrefixedFGameEnded L buf = fb_GetSizePrefixedRoot L buf"

definition VerifyFGameEndedBuffer :: "('b, 'o, 'p, 'v) flatbuffers \<Rightarrow> 'v check" where
  "VerifyFGameEndedBuffer L = fb_VerifyBuffer L (FGameEnded_Verify L)"

definition VerifySizePrefixedFGameEndedBuffer :: "('b, 'o, 'p, 'v) flatbuffers \<Rightarrow> 'v check" where
  "VerifySizePrefixedFGameEndedBuffer L = fb_VerifySizePrefixedBuffer L (FGameEnded_Verify L)"

definition FinishFGameEndedBuffer :: "('b, 'o, 'p, 'v) flatbuffers \<Rightarrow> 'o \<Rightarrow> 'b \<Rightarrow> 'b option" where
  "FinishFGameEndedBuffer L x = fb_Finish L x"

definition FinishSizePrefixedFGameEndedBuffer :: "('b, 'o, 'p, 'v) flatbuffers \<Rightarrow> 'o \<Rightarrow> 'b \<Rightarrow> 'b option" where
  "FinishSizePrefixedFGameEndedBuffer L x = fb_FinishSizePrefixed L x"

section \<open>Writing them\<close>

definition write_game_id :: "('b, 'o, 'p, 'v) flatbuffers \<Rightarrow> u32 \<Rightarrow> u8 list option" where
  "write_game_id L n = do {
     (x, b) \<leftarrow> CreateFGameId L n (fb_FlatBufferBuilder L);
     b \<leftarrow> fb_Finish L x b;
     Some (fb_GetBuffer L b) }"

definition write_game_ended :: "('b, 'o, 'p, 'v) flatbuffers \<Rightarrow> bool \<Rightarrow> u8 list option" where
  "write_game_ended L e = do {
     (x, b) \<leftarrow> CreateFGameEnded L e (fb_FlatBufferBuilder L);
     b \<leftarrow> fb_Finish L x b;
     Some (fb_GetBuffer L b) }"

section \<open>Library\<close>

lemma write_game_id_message:
  assumes D: "documented L X"
  obtains bs h x m where "write_game_id L n = Some bs" "message L X bs h x" "h x = Some (Table m)"
    "m FGameId_VT_ID = set_scalar (Int32 n) (Int32 0)"
proof -
  have "succeeds (write_game_id L n) (\<lambda>bs. \<exists>h x m. message L X bs h x \<and> h x = Some (Table m) \<and>
      m FGameId_VT_ID = set_scalar (Int32 n) (Int32 0))"
    unfolding write_game_id_def CreateFGameId_def FGameIdBuilder_defs
    by (rule build_steps build_calls [OF D] succeeds_Finish [OF D] idle_new [OF D] | assumption
        | (force simp: set_scalar_def; fail))+
  then show thesis by (auto elim: succeedsE intro: that)
qed

lemma write_game_ended_message:
  assumes D: "documented L X"
  obtains bs h x m where "write_game_ended L e = Some bs" "message L X bs h x" "h x = Some (Table m)"
    "m FGameEnded_VT_ENDED = set_scalar (Uint8 (of_bool e)) (Uint8 0)"
proof -
  have "succeeds (write_game_ended L e) (\<lambda>bs. \<exists>h x m. message L X bs h x \<and> h x = Some (Table m) \<and>
      m FGameEnded_VT_ENDED = set_scalar (Uint8 (of_bool e)) (Uint8 0))"
    unfolding write_game_ended_def CreateFGameEnded_def FGameEndedBuilder_defs
    by (rule build_steps build_calls [OF D] succeeds_Finish [OF D] idle_new [OF D] | assumption
        | (force simp: set_scalar_def; fail))+
  then show thesis by (auto elim: succeedsE intro: that)
qed

lemma game_id_reads:
  assumes M: "message L X bs h x" "h x = Some (Table m)" and m: "m FGameId_VT_ID = set_scalar (Int32 n) (Int32 0)"
  shows "FGameId_id L (GetFGameId L bs) = n" "accepts X 1 1 (FGameId_Verify L (place X bs x))"
proof -
  have root: "GetFGameId L bs = place X bs x" using M(1) by (simp add: GetFGameId_def message_def)
  show "FGameId_id L (GetFGameId L bs) = n"
    by (simp add: root FGameId_id_def GetField_set [OF M m])
  have "accepts X 0 0 (all_of [fb_VerifyField L (place X bs x) (Int32 0) FGameId_VT_ID])"
    by (intro accepts_skips accepts_Nil) (auto intro: accepts_field(1) [OF M m])
  from accepts_table [OF M this] show "accepts X 1 1 (FGameId_Verify L (place X bs x))"
    by (simp add: FGameId_Verify_def)
qed

lemma game_ended_reads:
  assumes M: "message L X bs h x" "h x = Some (Table m)"
    and m: "m FGameEnded_VT_ENDED = set_scalar (Uint8 (of_bool e)) (Uint8 0)"
  shows "FGameEnded_ended L (GetFGameEnded L bs) = e" "accepts X 1 1 (FGameEnded_Verify L (place X bs x))"
proof -
  have root: "GetFGameEnded L bs = place X bs x" using M(1) by (simp add: GetFGameEnded_def message_def)
  show "FGameEnded_ended L (GetFGameEnded L bs) = e"
    by (simp add: root FGameEnded_ended_def GetField_set [OF M m])
  have "accepts X 0 0 (all_of [fb_VerifyField L (place X bs x) (Uint8 0) FGameEnded_VT_ENDED])"
    by (intro accepts_skips accepts_Nil) (auto intro: accepts_field(1) [OF M m])
  from accepts_table [OF M this] show "accepts X 1 1 (FGameEnded_Verify L (place X bs x))"
    by (simp add: FGameEnded_Verify_def)
qed

end
