(* ===== verification/Datagram_Stream.thy ===== *)
theory Datagram_Stream
  imports Datagram
begin

text \<open>
  The reassembly of datagrams from a byte stream, UPZP-GameProcess/datagram/datagram_stream.cpp.
  \<open>FlushData\<close> is a do-while loop over four guarded stages; a stage is a definition here and a
  run through the loop body is \<open>flush_pass\<close>. \<open>None\<close> is undefined behaviour: a read or an
  erase outside \<open>buffer_\<close>. The output to \<open>std::cout\<close> is left out.
\<close>

section \<open>The state\<close>

datatype stream_state = BEGIN_SEQ | HEADER_1 | HEADER_2 | PAYLOAD

text \<open>\<open>base\<close> is the private base class \<open>Datagram\<close>; \<open>frame_length\<close> is \<open>payload_length_\<close> of the stream.\<close>

record stream =
  base :: datagram
  state :: stream_state
  buffer :: "u8 list"
  header_length :: nat
  frame_length :: nat

definition new_stream :: "datagram \<Rightarrow> stream" where
  "new_stream d = \<lparr>base = d, state = BEGIN_SEQ, buffer = [], header_length = 12,
     frame_length = 0\<rparr>"

definition LOWER :: u8 where "LOWER = ucast (BEGIN_SEQUENCE AND 0xFF)"
definition UPPER :: u8 where "UPPER = ucast (drop_bit 8 BEGIN_SEQUENCE)"

section \<open>The stages\<close>

text \<open>
  The loop of \<open>FindBeginSequence\<close> runs while \<open>i < buffer_.size() - 1\<close>, an unsigned
  subtraction: on an empty buffer the bound is the largest \<open>size_t\<close> and the first
  comparison already reads outside the vector.
\<close>

datatype found = Found nat | NOT_FOUND | Beyond_Buffer

fun find_from :: "u8 list \<Rightarrow> nat \<Rightarrow> found" where
  "find_from [] i = Beyond_Buffer"
| "find_from [a] i = NOT_FOUND"
| "find_from (a # b # bs) i = (if a = LOWER \<and> b = UPPER then Found i
     else find_from (b # bs) (i + 1))"

definition FindBeginSequence :: "stream \<Rightarrow> found" where
  "FindBeginSequence s = find_from (buffer s) 0"

definition HeaderCorrect :: "stream \<Rightarrow> bool" where
  "HeaderCorrect s =
     (if length (buffer s) < header_length s then False
      else if buffer s ! 0 \<noteq> LOWER \<or> buffer s ! 1 \<noteq> UPPER then False
      else read16 (buffer s) (header_length s - 2) =
        Calculate 16 (take (header_length s - 2) (buffer s)) CRC_16_ARC)"

definition flush_begin :: "stream \<Rightarrow> stream option" where
  "flush_begin s =
     (if state s = BEGIN_SEQ then
        case FindBeginSequence s of
          Beyond_Buffer \<Rightarrow> None
        | NOT_FOUND \<Rightarrow> Some (s\<lparr>buffer := drop (length (buffer s) - 1) (buffer s)\<rparr>)
        | Found pos \<Rightarrow>
            Some (s\<lparr>buffer := (if 0 < pos then drop pos (buffer s) else buffer s),
                    state := HEADER_1\<rparr>)
      else Some s)"

definition flush_header1 :: "stream \<Rightarrow> stream" where
  "flush_header1 s =
     (if state s = HEADER_1 \<and> 12 \<le> length (buffer s)
      then s\<lparr>header_length := (if signed_drop_bit 7 (buffer s ! 3) \<noteq> 0 then 16 else 12),
             state := HEADER_2\<rparr>
      else s)"

text \<open>The second component is the variable \<open>repeat\<close>.\<close>

definition flush_header2 :: "stream \<Rightarrow> stream \<times> bool" where
  "flush_header2 s =
     (if state s = HEADER_2 \<and> header_length s \<le> length (buffer s)
      then if HeaderCorrect s
           then (s\<lparr>frame_length := unat (read32 (buffer s) 4), state := PAYLOAD\<rparr>, False)
           else (s\<lparr>buffer := drop 1 (buffer s), state := BEGIN_SEQ\<rparr>, True)
      else (s, False))"

datatype pass = Complete stream | Again stream | Waiting stream | Undefined

definition flush_payload :: "stream \<times> bool \<Rightarrow> pass" where
  "flush_payload sr =
     (case sr of (s, repeat) \<Rightarrow>
        if state s = PAYLOAD \<and> header_length s + frame_length s \<le> length (buffer s)
        then case Load (buffer s) (header_length s + frame_length s) (base s) of
            (Loaded, d) \<Rightarrow>
              Complete (s\<lparr>base := d,
                buffer := drop (header_length s + frame_length s) (buffer s),
                state := BEGIN_SEQ\<rparr>)
          | (Thrown e, d) \<Rightarrow>
              Again (s\<lparr>base := d, buffer := drop 1 (buffer s), state := BEGIN_SEQ\<rparr>)
          | (Out_Of_Bounds, d) \<Rightarrow> Undefined
        else if repeat then Again s else Waiting s)"

definition flush_pass :: "stream \<Rightarrow> pass" where
  "flush_pass s =
     (case flush_begin s of
        None \<Rightarrow> Undefined
      | Some s \<Rightarrow> flush_payload (flush_header2 (flush_header1 s)))"

section \<open>The loop\<close>

text \<open>
  Each repetition has erased a byte. (The measure also counts down when a state that no
  run reaches, with an empty buffer and a header length of 0, is sent back to the search.)
\<close>

lemma find_from_Found:
  "find_from bs i = Found j \<Longrightarrow> i \<le> j \<and> j - i + 2 \<le> length bs \<and>
     bs ! (j - i) = LOWER \<and> bs ! (j - i + 1) = UPPER"
  by (induction bs i rule: find_from.induct) (auto split: if_splits simp: nth_Cons' Suc_diff_le)

lemma FindBeginSequence_Found:
  assumes "FindBeginSequence s = Found j"
  shows "j + 2 \<le> length (buffer s)" "buffer s ! j = LOWER" "buffer s ! (j + 1) = UPPER"
  using find_from_Found [of "buffer s" 0 j] assms by (auto simp: FindBeginSequence_def)

lemma flush_begin_Some:
  assumes "flush_begin s = Some t"
  shows "length (buffer t) \<le> length (buffer s)" "state t = BEGIN_SEQ \<Longrightarrow> state s = BEGIN_SEQ"
    "state s = BEGIN_SEQ \<Longrightarrow> state t \<noteq> BEGIN_SEQ \<Longrightarrow> buffer t \<noteq> []"
  using assms
  by (auto simp: flush_begin_def split: if_splits found.splits dest: FindBeginSequence_Found)

lemma flush_header1_simps [simp]:
  "buffer (flush_header1 s) = buffer s" "base (flush_header1 s) = base s"
  "state (flush_header1 s) = BEGIN_SEQ \<longleftrightarrow> state s = BEGIN_SEQ"
  by (auto simp: flush_header1_def)

lemma flush_payload_Again:
  assumes "flush_payload (flush_header2 s) = Again t"
  shows "state s \<noteq> BEGIN_SEQ" "state t = BEGIN_SEQ" "length (buffer t) = length (buffer s) - 1"
  using assms
  by (auto simp: flush_payload_def flush_header2_def
      split: if_splits prod.splits load_result.splits)

lemma flush_pass_Again:
  assumes "flush_pass s = Again t"
  shows "state t = BEGIN_SEQ"
    "length (buffer t) < length (buffer s) \<or>
     length (buffer t) = length (buffer s) \<and> state s \<noteq> BEGIN_SEQ"
proof -
  from assms obtain u where u: "flush_begin s = Some u"
    and t: "flush_payload (flush_header2 (flush_header1 u)) = Again t"
    by (auto simp: flush_pass_def split: option.splits)
  show "state t = BEGIN_SEQ" using flush_payload_Again(2) [OF t] .
  from flush_payload_Again(1,3) [OF t] flush_begin_Some [OF u]
  show "length (buffer t) < length (buffer s) \<or>
     length (buffer t) = length (buffer s) \<and> state s \<noteq> BEGIN_SEQ"
    by (cases "buffer u") auto
qed

function FlushData :: "stream \<Rightarrow> (bool \<times> stream) option" where
  "FlushData s =
     (case flush_pass s of
        Complete t \<Rightarrow> Some (True, t)
      | Again t \<Rightarrow> FlushData t
      | Waiting t \<Rightarrow> Some (False, t)
      | Undefined \<Rightarrow> None)"
  by pat_completeness auto
termination
  by (relation "measures [\<lambda>s. length (buffer s), \<lambda>s. if state s = BEGIN_SEQ then 0 else 1]")
    (auto dest: flush_pass_Again)

declare FlushData.simps [simp del]

definition AddData :: "stream \<Rightarrow> u8 list \<Rightarrow> (bool \<times> stream) option" where
  "AddData s data =
     FlushData (if 0 < length data then s\<lparr>buffer := buffer s @ data\<rparr> else s)"

section \<open>The invariant\<close>

definition starts_frame :: "u8 list \<Rightarrow> bool" where
  "starts_frame bs \<longleftrightarrow> 2 \<le> length bs \<and> bs ! 0 = LOWER \<and> bs ! 1 = UPPER"

definition flagged_length :: "u8 list \<Rightarrow> nat" where
  "flagged_length bs = (if bs ! 3 AND 0x80 \<noteq> 0 then 16 else 12)"

text \<open>Past the search, the fields hold what the bytes at the front of the buffer say.\<close>

definition stream_inv :: "stream \<Rightarrow> bool" where
  "stream_inv s \<longleftrightarrow> (header_length s = 12 \<or> header_length s = 16) \<and>
     (state s \<noteq> BEGIN_SEQ \<longrightarrow> starts_frame (buffer s)) \<and>
     (state s = HEADER_2 \<or> state s = PAYLOAD \<longrightarrow>
        12 \<le> length (buffer s) \<and> header_length s = flagged_length (buffer s)) \<and>
     (state s = PAYLOAD \<longrightarrow>
        HeaderCorrect s \<and> frame_length s = unat (read32 (buffer s) 4))"

lemma header_length_flag:
  "(if signed_drop_bit 7 (bs ! 3) \<noteq> 0 then 16 else 12 :: nat) = flagged_length bs"
proof -
  have "signed_drop_bit 7 (b :: u8) = (if bit b 7 then - 1 else 0)" for b
  proof (rule bit_word_eqI)
    fix n assume "n < LENGTH(8)"
    then show "bit (signed_drop_bit 7 b) n = bit (if bit b 7 then - 1 else 0 :: u8) n"
      by (cases n) (auto simp: bit_simps)
  qed
  then show ?thesis by (simp add: flagged_length_def flag_bit)
qed

lemma read16_starts: "starts_frame bs \<Longrightarrow> read16 bs 0 = BEGIN_SEQUENCE"
  by (simp add: starts_frame_def read16_def LOWER_def UPPER_def BEGIN_SEQUENCE_def)

lemma new_stream_inv: "stream_inv (new_stream d)"
  by (simp add: stream_inv_def new_stream_def)

definition push :: "stream \<Rightarrow> u8 list \<Rightarrow> stream" where
  "push s x = s\<lparr>buffer := buffer s @ x\<rparr>"

lemma push_simps [simp]:
  "buffer (push s x) = buffer s @ x" "state (push s x) = state s" "base (push s x) = base s"
  "header_length (push s x) = header_length s" "frame_length (push s x) = frame_length s"
  "push s [] = s" "push (push s x) y = push s (x @ y)"
  by (simp_all add: push_def)

lemma push_update [simp]:
  "push (s\<lparr>state := v\<rparr>) x = (push s x)\<lparr>state := v\<rparr>"
  "push (s\<lparr>base := d\<rparr>) x = (push s x)\<lparr>base := d\<rparr>"
  "push (s\<lparr>header_length := n\<rparr>) x = (push s x)\<lparr>header_length := n\<rparr>"
  "push (s\<lparr>frame_length := n\<rparr>) x = (push s x)\<lparr>frame_length := n\<rparr>"
  "push (s\<lparr>buffer := bs\<rparr>) x = s\<lparr>buffer := bs @ x\<rparr>"
  "(push s x)\<lparr>buffer := bs\<rparr> = s\<lparr>buffer := bs\<rparr>"
  by (simp_all add: push_def)

lemma AddData_push: "AddData s data = FlushData (push s data)"
  by (auto simp: AddData_def push_def)

lemma HeaderCorrect_push:
  "header_length s \<le> length (buffer s) \<Longrightarrow> 2 \<le> header_length s \<Longrightarrow>
     HeaderCorrect (push s x) = HeaderCorrect s"
  by (auto simp: HeaderCorrect_def nth_append read16_append)

lemma flagged_length_append: "4 \<le> length bs \<Longrightarrow> flagged_length (bs @ x) = flagged_length bs"
  by (simp add: flagged_length_def nth_append)

lemma push_inv: "stream_inv s \<Longrightarrow> stream_inv (push s x)"
proof -
  assume inv: "stream_inv s"
  have "HeaderCorrect s \<Longrightarrow> header_length s \<le> length (buffer s)"
    by (auto simp: HeaderCorrect_def split: if_splits)
  with inv show ?thesis
    by (auto simp: stream_inv_def starts_frame_def nth_append flagged_length_append read32_append
        HeaderCorrect_push)
qed

section \<open>One pass\<close>

lemma FindBeginSequence_NOT_FOUND: "FindBeginSequence s = NOT_FOUND \<Longrightarrow> buffer s \<noteq> []"
  by (auto simp: FindBeginSequence_def)

lemma flush_begin_inv:
  assumes "stream_inv s" "flush_begin s = Some t"
  shows "stream_inv t" "state t = BEGIN_SEQ \<Longrightarrow> length (buffer t) = 1"
  using assms FindBeginSequence_Found [of s] FindBeginSequence_NOT_FOUND [of s]
  by (auto simp: flush_begin_def stream_inv_def starts_frame_def Suc_le_eq
      split: if_splits found.splits)

lemma flush_header1_inv: "stream_inv s \<Longrightarrow> stream_inv (flush_header1 s)"
  unfolding flush_header1_def header_length_flag
  by (auto simp: stream_inv_def flagged_length_def)

lemma flush_header2_inv: "stream_inv s \<Longrightarrow> stream_inv (fst (flush_header2 s))"
  by (auto simp: flush_header2_def stream_inv_def HeaderCorrect_def)

lemma Load_of_frame:
  assumes inv: "stream_inv s" and state: "state s = PAYLOAD"
    and len: "header_length s + frame_length s \<le> length (buffer s)"
  shows "\<exists>d. Load (buffer s) (header_length s + frame_length s) (base s) = (Loaded, d)"
proof -
  from inv state have
    start: "starts_frame (buffer s)" and hl: "header_length s = flagged_length (buffer s)"
    and correct: "HeaderCorrect s" and fl: "frame_length s = unat (read32 (buffer s) 4)"
    by (auto simp: stream_inv_def)
  have crc: "read16 (buffer s) (header_length s - 2) =
      Calculate 16 (take (header_length s - 2) (buffer s)) CRC_16_ARC"
    using correct by (auto simp: HeaderCorrect_def split: if_splits)
  note sum = unat_of_nat_sum [of "unat (read32 (buffer s) 4)"]
  show ?thesis
  proof (cases "buffer s ! 3 AND 0x80 \<noteq> 0")
    case True
    then show ?thesis
      using read16_starts [OF start] crc len hl fl sum [of 16]
      by (simp add: Load_def flagged_length_def add.commute)
  next
    case False
    then show ?thesis
      using read16_starts [OF start] crc len hl fl sum [of 12]
      by (simp add: Load_def flagged_length_def add.commute)
  qed
qed

text \<open>The exception handler of the payload stage is dead code, and memory is safe in it.\<close>

lemma flush_payload_cases:
  assumes "stream_inv s"
  obtains (complete) d where "state s = PAYLOAD"
      "header_length s + frame_length s \<le> length (buffer s)"
      "Load (buffer s) (header_length s + frame_length s) (base s) = (Loaded, d)"
      "flush_payload (s, r) = Complete (s\<lparr>base := d,
         buffer := drop (header_length s + frame_length s) (buffer s), state := BEGIN_SEQ\<rparr>)"
    | (wait) "\<not> (state s = PAYLOAD \<and> header_length s + frame_length s \<le> length (buffer s))"
      "flush_payload (s, r) = (if r then Again s else Waiting s)"
proof (cases "state s = PAYLOAD \<and> header_length s + frame_length s \<le> length (buffer s)")
  case True
  with Load_of_frame [OF assms] obtain d where
    "Load (buffer s) (header_length s + frame_length s) (base s) = (Loaded, d)" by auto
  with True show ?thesis
    by (intro complete [of d]) (auto simp: flush_payload_def)
next
  case False
  then show ?thesis by (intro wait) (auto simp: flush_payload_def)
qed

lemma flush_pass_cases:
  assumes inv: "stream_inv s"
  obtains (undefined) "state s = BEGIN_SEQ" "buffer s = []" "flush_pass s = Undefined"
    | (pass) t u r where "flush_begin s = Some t" "stream_inv t"
      "flush_header2 (flush_header1 t) = (u, r)" "stream_inv u"
      "flush_pass s = flush_payload (u, r)"
proof (cases "flush_begin s")
  case None
  then have "state s = BEGIN_SEQ \<and> FindBeginSequence s = Beyond_Buffer"
    by (auto simp: flush_begin_def split: if_splits found.splits)
  moreover have "find_from bs i = Beyond_Buffer \<longleftrightarrow> bs = []" for bs i
    by (induction bs i rule: find_from.induct) auto
  ultimately show ?thesis
    using None by (intro undefined) (auto simp: FindBeginSequence_def flush_pass_def)
next
  case (Some t)
  obtain u r where ur: "flush_header2 (flush_header1 t) = (u, r)" by (rule prod.exhaust)
  have t: "stream_inv t" using flush_begin_inv [OF inv Some] by simp
  have "stream_inv u"
    using flush_header2_inv [OF flush_header1_inv [OF t]] ur by simp
  with t ur Some show ?thesis by (intro pass [OF Some t ur]) (auto simp: flush_pass_def)
qed

lemma flush_pass_inv:
  assumes "stream_inv s" "flush_pass s \<in> {Complete t, Again t, Waiting t}"
  shows "stream_inv t"
  using assms(1)
proof (cases rule: flush_pass_cases)
  case undefined
  with assms(2) show ?thesis by simp
next
  case (pass t' u r)
  from pass(4) show ?thesis
  proof (cases rule: flush_payload_cases [where r = r])
    case (complete d)
    with pass(5) assms(2) have "t = u\<lparr>base := d,
        buffer := drop (header_length u + frame_length u) (buffer u), state := BEGIN_SEQ\<rparr>"
      by auto
    with pass(4) show ?thesis by (simp add: stream_inv_def)
  next
    case wait
    with pass(4,5) assms(2) show ?thesis by (auto split: if_splits)
  qed
qed

lemma flush_pass_Undefined:
  assumes "stream_inv s"
  shows "flush_pass s = Undefined \<longleftrightarrow> state s = BEGIN_SEQ \<and> buffer s = []"
  using assms
proof (cases rule: flush_pass_cases)
  case undefined
  then show ?thesis by simp
next
  case (pass t u r)
  then have "\<not> (state s = BEGIN_SEQ \<and> buffer s = [])"
    by (auto simp: flush_begin_def FindBeginSequence_def)
  with pass(4) show ?thesis
    unfolding pass(5) by (cases rule: flush_payload_cases [where r = r]) auto
qed

lemma flush_pass_Again_nonempty:
  assumes inv: "stream_inv s" and again: "flush_pass s = Again t"
  shows "buffer t \<noteq> []"
  using inv
proof (cases rule: flush_pass_cases)
  case undefined
  with again show ?thesis by simp
next
  case (pass t' u r)
  let ?v = "flush_header1 t'"
  have hl: "header_length ?v = 12 \<or> header_length ?v = 16"
    using flush_header1_inv [OF pass(2)] by (simp add: stream_inv_def)
  from pass(4) have "r \<and> u = t"
    using again pass(5)
    by (cases rule: flush_payload_cases [where r = r]) (auto split: if_splits)
  with pass(3) hl have "length (buffer t) + 1 = length (buffer ?v)" "12 \<le> length (buffer ?v)"
    by (auto simp: flush_header2_def split: if_splits)
  then show ?thesis by auto
qed

section \<open>The loop\<close>

lemma FlushData_inv:
  "stream_inv s \<Longrightarrow> FlushData s = Some (r, t) \<Longrightarrow> stream_inv t"
proof (induction s rule: FlushData.induct)
  case (1 s)
  show ?case
  proof (cases "flush_pass s")
    case (Again u)
    with "1.prems" show ?thesis
      using "1.IH" [OF Again] flush_pass_inv [of s u] by (auto simp: FlushData.simps [of s])
  qed (use "1.prems" flush_pass_inv [of s] in \<open>auto simp: FlushData.simps [of s]\<close>)
qed

lemma FlushData_None:
  "stream_inv s \<Longrightarrow> FlushData s = None \<longleftrightarrow> state s = BEGIN_SEQ \<and> buffer s = []"
proof (induction s rule: FlushData.induct)
  case (1 s)
  show ?case
  proof (cases "flush_pass s")
    case (Again u)
    moreover have "stream_inv u" using flush_pass_inv [OF "1.prems", of u] Again by simp
    ultimately show ?thesis
      using "1.IH" [OF Again] flush_pass_Again_nonempty [OF "1.prems" Again]
        flush_pass_Undefined [OF "1.prems"] FlushData.simps [of s]
      by auto
  qed (use flush_pass_Undefined [OF "1.prems"] in \<open>auto simp: FlushData.simps [of s]\<close>)
qed

end
