(* ===== verification/Chunked_Decoder.thy ===== *)
theory Chunked_Decoder
  imports Prelude
begin

text \<open>
  The interface of a decoder that is fed with chunks of a byte stream: \<open>push\<close> appends bytes to
  the pending input, \<open>flush\<close> decodes one message if it can and says whether it did; \<open>None\<close> is
  undefined behaviour. The laws say that bytes pushed later change nothing of what was decoded
  and that a flush that had to wait loses nothing. The lemmas of the locale derive from them
  that the division of the input into chunks does not matter.
\<close>

locale chunked_decoder =
  fixes inv :: "'s \<Rightarrow> bool"
    and push :: "'s \<Rightarrow> 'b list \<Rightarrow> 's"
    and flush :: "'s \<Rightarrow> (bool \<times> 's) option"
    and message :: "'s \<Rightarrow> 'm"
    and drain :: "'s \<Rightarrow> ('m list \<times> 's) option"
  assumes push_push: "push (push s x) y = push s (x @ y)"
    and message_push: "message (push s x) = message s"
    and inv_push: "inv s \<Longrightarrow> inv (push s x)"
    and inv_flush: "inv s \<Longrightarrow> flush s = Some (r, t) \<Longrightarrow> inv t"
    and flush_waiting: "inv s \<Longrightarrow> flush s = Some (False, t) \<Longrightarrow> flush (push t x) = flush (push s x)"
    and flush_decoded:
      "inv s \<Longrightarrow> flush s = Some (True, t) \<Longrightarrow> flush (push s x) = Some (True, push t x)"
    and drain_flush: "drain s =
      (case flush s of
         None \<Rightarrow> None
       | Some (False, t) \<Rightarrow> Some ([], t)
       | Some (True, t) \<Rightarrow> map_option (\<lambda>(ms, u). (message t # ms, u)) (drain t))"
begin

lemma drain_Nil: "drain s = Some ([], t) \<longleftrightarrow> flush s = Some (False, t)"
  by (subst drain_flush) (auto split: option.splits bool.splits)

lemma drain_Cons: "drain s = Some (m # ms, u) \<longleftrightarrow>
    (\<exists>t. flush s = Some (True, t) \<and> m = message t \<and> drain t = Some (ms, u))"
  by (subst drain_flush) (auto split: option.splits bool.splits)

lemma inv_drain: "inv s \<Longrightarrow> drain s = Some (ms, t) \<Longrightarrow> inv t"
  by (induction ms arbitrary: s) (auto simp: drain_Nil drain_Cons intro: inv_flush)

lemma drain_push:
  assumes "inv s" "drain s = Some (ms, t)"
  shows "drain (push s x) = map_option (\<lambda>(ms', u). (ms @ ms', u)) (drain (push t x))"
  using assms
proof (induction ms arbitrary: s)
  case Nil
  then have "flush (push t x) = flush (push s x)"
    by (simp add: drain_Nil flush_waiting)
  then have "drain (push t x) = drain (push s x)"
    by (simp add: drain_flush [of "push t x"] drain_flush [of "push s x"])
  then show ?case by (simp add: option.map_ident prod.case_eq_if)
next
  case (Cons m ms)
  then obtain u where u: "flush s = Some (True, u)" "m = message u" "drain u = Some (ms, t)"
    by (auto simp: drain_Cons)
  from Cons.IH [OF inv_flush [OF Cons.prems(1) u(1)] u(3)]
  show ?case
    using flush_decoded [OF Cons.prems(1) u(1), of x] u(2)
    by (subst drain_flush) (auto simp: option.map_comp comp_def case_prod_beta' message_push)
qed

text \<open>Two consecutive chunks are worth their concatenation.\<close>

lemma drain_two:
  assumes "inv s" "drain (push s x) = Some (ms, t)" "drain (push t y) = Some (ms', u)"
  shows "drain (push s (x @ y)) = Some (ms @ ms', u)"
  using drain_push [OF inv_push [OF assms(1)] assms(2), of y] assms(3)
  by (simp add: push_push)

fun feed :: "'s \<Rightarrow> 'b list list \<Rightarrow> ('m list \<times> 's) option" where
  "feed s [] = Some ([], s)"
| "feed s (x # xs) =
     (case drain (push s x) of
        None \<Rightarrow> None
      | Some (ms, t) \<Rightarrow> map_option (\<lambda>(ms', u). (ms @ ms', u)) (feed t xs))"

lemma feed_concat:
  assumes "inv s" "feed s (x # xs) = Some (ms, t)"
  shows "drain (push s (x @ concat xs)) = Some (ms, t)"
  using assms
proof (induction xs arbitrary: s x ms)
  case Nil
  then show ?case by (auto split: option.splits)
next
  case (Cons y ys)
  from Cons.prems(2) obtain ms1 u where u: "drain (push s x) = Some (ms1, u)"
    by (auto split: option.splits)
  with Cons.prems(2) obtain ms2 where
    ms2: "feed u (y # ys) = Some (ms2, t)" "ms = ms1 @ ms2"
    by (auto simp del: feed.simps(2) simp: feed.simps(2) [of s])
  have "inv u" using inv_drain [OF inv_push [OF Cons.prems(1)] u] .
  from Cons.IH [OF this ms2(1)] show ?case
    using drain_two [OF Cons.prems(1) u] ms2(2) by simp
qed

text \<open>Chunks are undefined exactly where some first chunks together are.\<close>

lemma feed_None:
  assumes "inv s"
  shows "feed s xs = None \<longleftrightarrow> (\<exists>k < length xs. drain (push s (concat (take (Suc k) xs))) = None)"
  using assms
proof (induction xs arbitrary: s)
  case (Cons x xs)
  show ?case
  proof (cases "drain (push s x)")
    case None
    then show ?thesis by (auto intro: exI [of _ 0])
  next
    case (Some mt)
    obtain ms t where mt: "mt = (ms, t)" by (rule prod.exhaust)
    have later: "drain (push s (x @ y)) = None \<longleftrightarrow> drain (push t y) = None" for y
      using drain_push [OF inv_push [OF Cons.prems] Some [unfolded mt], of y] by (simp add: push_push)
    have "feed s (x # xs) = None \<longleftrightarrow> feed t xs = None" using Some mt by simp
    also have "\<dots> \<longleftrightarrow> (\<exists>k < length xs. drain (push s (x @ concat (take (Suc k) xs))) = None)"
      using Cons.IH [OF inv_drain [OF inv_push [OF Cons.prems] Some [unfolded mt]]] later by simp
    also have "\<dots> \<longleftrightarrow> (\<exists>k < length (x # xs). drain (push s (concat (take (Suc k) (x # xs)))) = None)"
      using Some by (auto simp: less_Suc_eq_0_disj)
    finally show ?thesis .
  qed
qed simp

end

end
