(* ===== verification/Stream_Delivery.thy ===== *)
theory Stream_Delivery
  imports Datagram_Stream Chunked_Decoder
begin

text \<open>
  What the reassembly of UPZP-GameProcess/datagram/datagram_stream.cpp delivers to the loop
  that empties it: the passes of \<open>FlushData\<close> are not affected by bytes that arrive later, so
  the division of the stream into chunks does not matter, and every datagram that was
  serialized into the stream between bytes of noise is delivered.
\<close>

section \<open>Bytes that arrive later\<close>

lemma find_from_append:
  "find_from bs i = Found j \<Longrightarrow> find_from (bs @ x) i = Found j"
  by (induction bs i rule: find_from.induct) (auto split: if_splits)

lemma find_from_shift:
  "find_from bs (i + k) = (case find_from bs i of Found j \<Rightarrow> Found (j + k) | r \<Rightarrow> r)"
  by (induction bs i rule: find_from.induct) (auto simp: ac_simps)

lemma find_from_append_NOT_FOUND:
  "find_from bs i = NOT_FOUND \<Longrightarrow>
     find_from (bs @ x) i = find_from (last bs # x) (i + (length bs - 1))"
  by (induction bs i rule: find_from.induct) (auto split: if_splits)

lemma flush_begin_push_Found:
  assumes "flush_begin s = Some t" "state t \<noteq> BEGIN_SEQ"
  shows "flush_begin (push s x) = Some (push t x)"
  using assms find_from_append [of "buffer s" 0] FindBeginSequence_Found [of s]
  by (auto simp: flush_begin_def FindBeginSequence_def split: if_splits found.splits)

lemma last_drop_append:
  "bs \<noteq> [] \<Longrightarrow> drop (length bs - 1 + j) (bs @ x) = drop j (last bs # x)"
  by (cases bs rule: rev_cases) auto

lemma flush_begin_push_NOT_FOUND:
  assumes "flush_begin s = Some t" "state t = BEGIN_SEQ"
  shows "flush_begin (push t x) = flush_begin (push s x)"
proof -
  from assms have nf: "FindBeginSequence s = NOT_FOUND" and st: "state s = BEGIN_SEQ"
    and t: "t = s\<lparr>buffer := drop (length (buffer s) - 1) (buffer s)\<rparr>"
    by (auto simp: flush_begin_def split: if_splits found.splits)
  have ne: "buffer s \<noteq> []" using FindBeginSequence_NOT_FOUND [OF nf] .
  have bt: "buffer t = [last (buffer s)]"
    using last_drop_append [OF ne, of 0 "[]"] t by simp
  have find: "find_from (buffer s @ x) 0 =
      (case find_from (last (buffer s) # x) 0 of Found j \<Rightarrow> Found (j + (length (buffer s) - 1)) | r \<Rightarrow> r)"
    using find_from_append_NOT_FOUND [of "buffer s" 0 x] nf
      find_from_shift [of "last (buffer s) # x" 0 "length (buffer s) - 1"]
    by (simp add: FindBeginSequence_def)
  have drops: "drop (j + (length (buffer s) - 1)) (buffer s @ x) = drop j (last (buffer s) # x)" for j
    using last_drop_append [OF ne, of j x] by (simp add: add.commute)
  have "drop (length (buffer s @ x) - 1) (buffer s @ x) = drop (length x) (last (buffer s) # x)"
  proof -
    from ne have "length (buffer s @ x) - 1 = length x + (length (buffer s) - 1)"
      by (cases "buffer s") auto
    then show ?thesis by (simp only: drops)
  qed
  moreover have "buffer s @ x = last (buffer s) # x" if "length (buffer s) = 1"
    using that by (cases "buffer s") auto
  moreover have "drop (length (buffer s) - 1) (buffer s @ x) = last (buffer s) # x"
    using drops [of 0] by simp
  ultimately show ?thesis
    using st t find drops ne bt
    by (auto simp: flush_begin_def FindBeginSequence_def simp del: drop_append split: found.splits)
qed


text \<open>A pass that repeats or completes is not affected by later bytes.\<close>

lemma flush_header1_push:
  "12 \<le> length (buffer s) \<or> state s \<noteq> HEADER_1 \<Longrightarrow>
     flush_header1 (push s x) = push (flush_header1 s) x"
  by (auto simp: flush_header1_def nth_append)

lemma flush_header2_push:
  assumes "header_length s = 12 \<or> header_length s = 16"
    "header_length s \<le> length (buffer s) \<or> state s \<noteq> HEADER_2"
  shows "flush_header2 (push s x) = (case flush_header2 s of (u, r) \<Rightarrow> (push u x, r))"
  using assms by (auto simp: flush_header2_def HeaderCorrect_push read32_append)


lemma Load_append:
  assumes "12 \<le> length bs" "Load bs len d0 = (Loaded, d)"
  shows "Load (bs @ x) len d0 = (Loaded, d)"
proof -
  from assms(2) have "16 \<le> length bs \<or> \<not> bit (bs ! 3) 7"
    by (auto simp: Load_def Let_def flag_bit split: if_splits)
  with assms show ?thesis
    by (auto simp: Load_def Let_def flag_bit nth_append read16_append read32_append split: if_splits)
qed

lemma flush_begin_push_past:
  "state s \<noteq> BEGIN_SEQ \<Longrightarrow> flush_begin s = Some s"
  by (simp add: flush_begin_def)

lemma flush_header1_past: "state s \<noteq> HEADER_1 \<Longrightarrow> flush_header1 s = s"
  by (auto simp: flush_header1_def)

lemma flush_header2_past: "state s \<noteq> HEADER_2 \<Longrightarrow> flush_header2 s = (s, False)"
  by (simp add: flush_header2_def)

lemma flush_header2_short: "length (buffer s) < header_length s \<Longrightarrow> flush_header2 s = (s, False)"
  by (simp add: flush_header2_def)

lemma flush_header2_repeat:
  "flush_header2 s = (u, True) \<Longrightarrow> state s = HEADER_2 \<and> header_length s \<le> length (buffer s) \<and> state u = BEGIN_SEQ"
  by (auto simp: flush_header2_def split: if_splits)

lemma header_length_cases: "stream_inv s \<Longrightarrow> header_length s = 12 \<or> header_length s = 16"
  by (simp add: stream_inv_def)

text \<open>How far a pass gets that does not fail: it stays in the search, or in one of the later stages.\<close>

lemma flush_pass_stages:
  assumes inv: "stream_inv s" and "state s \<noteq> BEGIN_SEQ \<or> buffer s \<noteq> []"
  obtains (searching) t where "flush_begin s = Some t" "state t = BEGIN_SEQ" "stream_inv t"
      "flush_pass s = Waiting t" "\<And>x. flush_pass (push t x) = flush_pass (push s x)"
    | (header1) t where "flush_pass s = Waiting t" "state t = HEADER_1" "stream_inv t"
      "\<And>x. flush_pass (push s x) = flush_pass (push t x)"
    | (header2) t where "stream_inv t" "state t = HEADER_2 \<or> state t = PAYLOAD"
      "\<And>x. flush_pass (push s x) = flush_payload (flush_header2 (push t x))"
proof -
  from flush_pass_Undefined [OF inv] assms(2) have "flush_pass s \<noteq> Undefined" by auto
  then obtain t where t: "flush_begin s = Some t"
    by (auto simp: flush_pass_def split: option.splits)
  note tinv = flush_begin_inv [OF inv t]
  consider (0) "state t = BEGIN_SEQ" | (1) "state t = HEADER_1" "length (buffer t) < 12"
    | (2) "state t \<noteq> BEGIN_SEQ" "state t \<noteq> HEADER_1 \<or> 12 \<le> length (buffer t)"
    by linarith
  then show ?thesis
  proof cases
    case 0
    have "flush_pass (push t x) = flush_pass (push s x)" for x
      using flush_begin_push_NOT_FOUND [OF t 0] by (simp add: flush_pass_def)
    moreover have "flush_pass s = Waiting t"
      using t 0 by (simp add: flush_pass_def flush_header1_past flush_header2_past flush_payload_def)
    ultimately show ?thesis using t 0 tinv(1) by (intro searching)
  next
    case 1
    have "flush_pass (push s x) = flush_pass (push t x)" for x
      using flush_begin_push_Found [OF t, of x] flush_begin_push_past [of "push t x"] 1
      by (simp add: flush_pass_def)
    moreover have "flush_pass s = Waiting t"
      using t 1 by (simp add: flush_pass_def flush_header1_def flush_header2_past flush_payload_def)
    ultimately show ?thesis using 1 tinv(1) by (intro header1 [of t])
  next
    case 2
    have "flush_pass (push s x) = flush_payload (flush_header2 (push (flush_header1 t) x))" for x
      using flush_begin_push_Found [OF t 2(1), of x] flush_header1_push [of t x] 2(2)
      by (simp add: flush_pass_def) metis
    moreover have "state (flush_header1 t) = HEADER_2 \<or> state (flush_header1 t) = PAYLOAD"
      using 2 by (cases "state t") (auto simp: flush_header1_def)
    ultimately show ?thesis using flush_header1_inv [OF tinv(1)] by (intro header2)
  qed
qed

text \<open>After the first header stage: repeated with a byte erased, left waiting, or complete.\<close>

lemma header2_stages:
  assumes inv: "stream_inv t" and st: "state t = HEADER_2 \<or> state t = PAYLOAD"
  obtains (again) u where "\<And>x. flush_payload (flush_header2 (push t x)) = Again (push u x)"
    | (wait) u where "flush_payload (flush_header2 t) = Waiting u"
      "\<And>x. flush_pass (push u x) = flush_payload (flush_header2 (push t x))"
    | (complete) u where "\<And>x. flush_payload (flush_header2 (push t x)) = Complete (push u x)"
proof (cases "state t = HEADER_2 \<and> length (buffer t) < header_length t")
  case True
  then have "flush_pass (push t x) = flush_payload (flush_header2 (push t x))" for x
    by (simp add: flush_pass_def flush_begin_push_past flush_header1_past)
  moreover have "flush_payload (flush_header2 t) = Waiting t"
    using True by (simp add: flush_header2_short flush_payload_def)
  ultimately show ?thesis by (intro wait)
next
  case False
  obtain u r where ur: "flush_header2 t = (u, r)" by (rule prod.exhaust)
  have push: "flush_header2 (push t x) = (push u x, r)" for x
    using flush_header2_push [of t x] header_length_cases [OF inv] False ur by auto
  have uinv: "stream_inv u" using flush_header2_inv [OF inv] ur by simp
  show ?thesis
  proof (cases r)
    case True
    have "flush_payload (push u x, True) = Again (push u x)" for x
      using flush_header2_repeat [of t u] ur True by (simp add: flush_payload_def)
    with push True show ?thesis by (intro again) simp
  next
    case r: False
    have su: "state u = PAYLOAD"
      using ur r st False by (auto simp: flush_header2_def split: if_splits)
    have pass: "flush_pass (push u x) = flush_payload (flush_header2 (push t x))" for x
      using push [of x] r su
      by (simp add: flush_pass_def flush_begin_push_past flush_header1_past flush_header2_past)
    from uinv show ?thesis
    proof (cases rule: flush_payload_cases [where r = False])
      case (complete d)
      let ?n = "header_length u + frame_length u"
      have "12 \<le> length (buffer u)"
        using complete(2) header_length_cases [OF uinv] by auto
      from Load_append [OF this complete(3)]
      have "flush_payload (push u x, False) = Complete
          (push (u\<lparr>base := d, buffer := drop ?n (buffer u), state := BEGIN_SEQ\<rparr>) x)" for x
        using complete(1,2) by (simp add: flush_payload_def push_def)
      then have "flush_payload (flush_header2 (push t x)) = Complete
          (push (u\<lparr>base := d, buffer := drop ?n (buffer u), state := BEGIN_SEQ\<rparr>) x)" for x
        using push r by simp
      then show ?thesis by (rule that(3))
    next
      case wait
      with ur r have "flush_payload (flush_header2 t) = Waiting u" by simp
      with pass show ?thesis by (intro that(2))
    qed
  qed
qed

lemma flush_pass_push_cases:
  assumes "stream_inv s" "flush_pass s \<noteq> Undefined"
  obtains (again) t where "\<And>x. flush_pass (push s x) = Again (push t x)"
    | (complete) t where "\<And>x. flush_pass (push s x) = Complete (push t x)"
    | (wait) t where "flush_pass s = Waiting t" "\<And>x. flush_pass (push t x) = flush_pass (push s x)"
proof -
  have "state s \<noteq> BEGIN_SEQ \<or> buffer s \<noteq> []"
    using flush_pass_Undefined [OF assms(1)] assms(2) by auto
  with assms(1) show ?thesis
  proof (cases rule: flush_pass_stages)
    case (header2 u)
    note eq = header2(3)
    from header2(1,2) show ?thesis
    proof (cases rule: header2_stages)
      case (again v)
      with eq show ?thesis by (intro that(1)) simp
    next
      case (wait v)
      with eq eq [of "[]"] show ?thesis by (intro that(3)) simp_all
    next
      case (complete v)
      with eq show ?thesis by (intro that(2)) simp
    qed
  qed (use that(3) in auto)
qed

lemma flush_pass_push:
  assumes "stream_inv s"
  shows "flush_pass s = Again t \<Longrightarrow> flush_pass (push s x) = Again (push t x)"
    "flush_pass s = Complete t \<Longrightarrow> flush_pass (push s x) = Complete (push t x)"
    "flush_pass s = Waiting t \<Longrightarrow> flush_pass (push t x) = flush_pass (push s x)"
  using flush_pass_push_cases [OF assms] push_simps(6) by (metis pass.inject pass.distinct)+

section \<open>The loop and later bytes\<close>

lemma FlushData_True_push:
  "stream_inv s \<Longrightarrow> FlushData s = Some (True, t) \<Longrightarrow> FlushData (push s x) = Some (True, push t x)"
proof (induction s rule: FlushData.induct)
  case (1 s)
  show ?case
  proof (cases "flush_pass s")
    case (Again u)
    with "1.prems" have "FlushData u = Some (True, t)" by (simp add: FlushData.simps [of s])
    with "1.IH" [OF Again] flush_pass_inv [OF "1.prems"(1), of u] Again
    show ?thesis
      by (simp add: FlushData.simps [of "push s x"] flush_pass_push(1) [OF "1.prems"(1) Again])
  qed (use "1.prems" flush_pass_push(2) [OF "1.prems"(1)]
      in \<open>auto simp: FlushData.simps [of s] FlushData.simps [of "push s x"]\<close>)
qed

lemma FlushData_False_push:
  "stream_inv s \<Longrightarrow> FlushData s = Some (False, t) \<Longrightarrow> FlushData (push t x) = FlushData (push s x)"
proof (induction s rule: FlushData.induct)
  case (1 s)
  show ?case
  proof (cases "flush_pass s")
    case (Again u)
    with "1.prems" have "FlushData u = Some (False, t)" by (simp add: FlushData.simps [of s])
    with "1.IH" [OF Again] flush_pass_inv [OF "1.prems"(1), of u] Again
    show ?thesis
      by (simp add: FlushData.simps [of "push s x"] flush_pass_push(1) [OF "1.prems"(1) Again])
  qed (use "1.prems" flush_pass_push(3) [OF "1.prems"(1)]
      in \<open>auto simp: FlushData.simps [of s] FlushData.simps [of "push s x"] FlushData.simps [of "push t x"]\<close>)
qed

section \<open>Emptying the stream\<close>

text \<open>
  How main_process_comm.cpp reads the stream: after \<open>AddData\<close> has returned true it handles the
  decoded datagram and calls \<open>FlushData\<close> until that returns false. The result is the list of the
  decoded datagrams.
\<close>

lemma flush_pass_Complete:
  assumes "flush_pass s = Complete t"
  shows "length (buffer t) < length (buffer s)"
proof -
  from assms obtain u where u: "flush_begin s = Some u"
    and t: "flush_payload (flush_header2 (flush_header1 u)) = Complete t"
    by (auto simp: flush_pass_def split: option.splits)
  obtain v r where v: "flush_header2 (flush_header1 u) = (v, r)" by (rule prod.exhaust)
  let ?n = "header_length v + frame_length v"
  from t v obtain d where "Load (buffer v) ?n (base v) = (Loaded, d)" "?n \<le> length (buffer v)"
      "buffer t = drop ?n (buffer v)"
    by (auto simp: flush_payload_def split: if_splits prod.splits load_result.splits)
  with Load_LoadedD(1) have "length (buffer t) < length (buffer v)" by fastforce
  moreover have "length (buffer v) \<le> length (buffer u)"
    using v by (auto simp: flush_header2_def split: if_splits)
  ultimately show ?thesis using flush_begin_Some(1) [OF u] by simp
qed

lemma FlushData_True_length:
  "FlushData s = Some (True, t) \<Longrightarrow> length (buffer t) < length (buffer s)"
proof (induction s rule: FlushData.induct)
  case (1 s)
  show ?case
  proof (cases "flush_pass s")
    case (Again u)
    with 1 flush_pass_Again [OF Again] show ?thesis
      by (auto simp: FlushData.simps [of s])
  next
    case (Complete u)
    with 1 flush_pass_Complete [OF Complete] show ?thesis
      by (auto simp: FlushData.simps [of s])
  qed (use "1.prems" in \<open>auto simp: FlushData.simps [of s]\<close>)
qed

function drain :: "stream \<Rightarrow> (datagram list \<times> stream) option" where
  "drain s =
     (case FlushData s of
        None \<Rightarrow> None
      | Some (False, t) \<Rightarrow> Some ([], t)
      | Some (True, t) \<Rightarrow> map_option (\<lambda>(ms, u). (base t # ms, u)) (drain t))"
  by pat_completeness auto
termination
  by (relation "measure (\<lambda>s. length (buffer s))") (auto intro: FlushData_True_length)

declare drain.simps [simp del]

definition receive :: "stream \<Rightarrow> u8 list \<Rightarrow> (datagram list \<times> stream) option" where
  "receive s data =
     (case AddData s data of
        None \<Rightarrow> None
      | Some (False, t) \<Rightarrow> Some ([], t)
      | Some (True, t) \<Rightarrow> map_option (\<lambda>(ms, u). (base t # ms, u)) (drain t))"

fun receive_all :: "stream \<Rightarrow> u8 list list \<Rightarrow> (datagram list \<times> stream) option" where
  "receive_all s [] = Some ([], s)"
| "receive_all s (x # xs) =
     (case receive s x of
        None \<Rightarrow> None
      | Some (ms, t) \<Rightarrow> map_option (\<lambda>(ms', u). (ms @ ms', u)) (receive_all t xs))"

lemma receive_drain: "receive s data = drain (push s data)"
  by (simp add: receive_def AddData_push drain.simps [of "push s data"])

interpretation stream: chunked_decoder stream_inv push FlushData base drain
proof unfold_locales
  show "drain s = (case FlushData s of None \<Rightarrow> None | Some (False, t) \<Rightarrow> Some ([], t)
      | Some (True, t) \<Rightarrow> map_option (\<lambda>(ms, u). (base t # ms, u)) (drain t))" for s
    by (rule drain.simps)
qed (auto intro: push_inv FlushData_inv FlushData_False_push FlushData_True_push)

lemma receive_all_feed: "receive_all s xs = stream.feed s xs"
  by (induction xs arbitrary: s) (simp_all add: receive_drain split: option.splits)

section \<open>Serialized datagrams in the stream\<close>

lemma Get_Cons: "\<exists>bs. Get d = LOWER # UPPER # bs"
  by (simp add: Get_eq header_append header_fields_def LOWER_def UPPER_def BEGIN_SEQUENCE_def)

lemma Get_not_Nil [simp]: "Get d \<noteq> []"
  using Get_Cons [of d] by auto

lemma find_from_noise:
  "LOWER \<notin> set noise \<Longrightarrow> find_from (noise @ LOWER # UPPER # bs) i = Found (i + length noise)"
proof (induction noise arbitrary: i)
  case (Cons a noise)
  then show ?case by (cases noise) auto
qed simp

lemma find_from_only_noise:
  "LOWER \<notin> set noise \<Longrightarrow> noise \<noteq> [] \<Longrightarrow> find_from noise i = NOT_FOUND"
  by (induction noise i rule: find_from.induct) auto

lemma flush_begin_frame:
  assumes "state s = BEGIN_SEQ" "buffer s = noise @ Get d @ rest" "LOWER \<notin> set noise"
  shows "flush_begin s = Some (s\<lparr>buffer := Get d @ rest, state := HEADER_1\<rparr>)"
proof -
  obtain bs where bs: "Get d = LOWER # UPPER # bs" using Get_Cons by blast
  have "FindBeginSequence s = Found (length noise)"
    using find_from_noise [OF assms(3), of "bs @ rest" 0] assms(2) bs
    by (simp add: FindBeginSequence_def)
  then show ?thesis using assms by (simp add: flush_begin_def)
qed

lemma length_Get: "length (Get d) = header_size d + length (payload d)"
  by (simp add: Get_eq)

lemma HeaderCorrect_frame:
  assumes "buffer s = Get d @ rest" "header_length s = header_size d"
  shows "HeaderCorrect s"
proof -
  have "Get d ! 0 = LOWER" "Get d ! 1 = UPPER" using Get_Cons [of d] by auto
  then have "buffer s ! 0 = LOWER" "buffer s ! 1 = UPPER"
    using assms(1) header_size_cases [of d] length_Get [of d] by (auto simp: nth_append)
  with assms show ?thesis
    using header_reads(6,7) [of d "payload d @ rest"]
    by (simp add: HeaderCorrect_def Get_eq)
qed

lemma FlushData_frame:
  assumes st: "state s = BEGIN_SEQ" and buf: "buffer s = noise @ Get d @ rest"
    and noise: "LOWER \<notin> set noise" and small: "length (payload d) < 2 ^ 32"
  shows "FlushData s = Some (True, s\<lparr>base := loaded_from d (base s), buffer := rest,
    header_length := header_size d, frame_length := length (payload d)\<rparr>)"
proof -
  let ?h = "s\<lparr>buffer := Get d @ rest, state := HEADER_1\<rparr>"
  let ?v = "s\<lparr>buffer := Get d @ rest, header_length := header_size d,
    frame_length := length (payload d), state := PAYLOAD\<rparr>"
  have len: "12 \<le> length (Get d)" "header_size d \<le> length (Get d)"
    using header_size_cases [of d] by (auto simp: length_Get)
  have "flagged_length (Get d @ rest) = header_size d"
    using header_reads(3) [of d "payload d @ rest"]
    by (simp add: flagged_length_def header_size_def Get_eq)
  with len have h1: "flush_header1 ?h = ?h\<lparr>header_length := header_size d, state := HEADER_2\<rparr>"
    using header_length_flag [of "Get d @ rest"] by (simp add: flush_header1_def)
  have "read32 (Get d @ rest) 4 = word_of_nat (length (payload d))"
    using header_reads(4) [of d "payload d @ rest"] by (simp add: Get_eq)
  with small have "unat (read32 (Get d @ rest) 4) = length (payload d)"
    by (simp add: unat_of_nat)
  with len h1 have h2: "flush_header2 (flush_header1 ?h) = (?v, False)"
    by (simp add: flush_header2_def HeaderCorrect_frame [where d = d and rest = rest])
  have "flush_payload (?v, False) = Complete (s\<lparr>base := loaded_from d (base s), buffer := rest,
      header_length := header_size d, frame_length := length (payload d)\<rparr>)"
    using Load_Get [OF small, of _ rest] st
    by (simp add: flush_payload_def length_Get)
  with flush_begin_frame [OF st buf noise] h2 show ?thesis
    by (simp add: FlushData.simps [of s] flush_pass_def)
qed

lemma FlushData_noise:
  assumes "state s = BEGIN_SEQ" "buffer s \<noteq> []" "LOWER \<notin> set (buffer s)"
  shows "FlushData s = Some (False, s\<lparr>buffer := drop (length (buffer s) - 1) (buffer s)\<rparr>)"
  using assms find_from_only_noise [of "buffer s" 0]
  by (simp add: FlushData.simps [of s] flush_pass_def flush_begin_def FindBeginSequence_def
      flush_header1_past flush_header2_past flush_payload_def)

text \<open>A stream of datagrams, each after some bytes of noise.\<close>

definition sent :: "(u8 list \<times> datagram) list \<Rightarrow> u8 list" where
  "sent frames = concat (map (\<lambda>(noise, d). noise @ Get d) frames)"

definition sendable :: "u8 list \<times> datagram \<Rightarrow> bool" where
  "sendable f \<longleftrightarrow> LOWER \<notin> set (fst f) \<and> length (payload (snd f)) < 2 ^ 32"

lemma sendable_Pair: "sendable (noise, d) \<longleftrightarrow> LOWER \<notin> set noise \<and> length (payload d) < 2 ^ 32"
  by (simp add: sendable_def)

definition same_message :: "datagram \<Rightarrow> datagram \<Rightarrow> bool" where
  "same_message d m \<longleftrightarrow> Payload m = Payload d \<and> version m = version d AND 0x00FF \<and>
     PayloadCorrectness m"

lemma same_message_loaded_from:
  "length (payload d) < 2 ^ 32 \<Longrightarrow> same_message d (loaded_from d d0)"
  by (simp add: same_message_def loaded_from_def Payload_def PayloadCorrectness_def unat_of_nat)

lemma drain_frames:
  assumes "list_all sendable frames" "tail \<noteq> []" "LOWER \<notin> set tail"
    "state s = BEGIN_SEQ" "buffer s = sent frames @ tail"
  shows "\<exists>ms t. drain s = Some (ms, t) \<and> list_all2 same_message (map snd frames) ms"
  using assms
proof (induction frames arbitrary: s)
  case Nil
  then show ?case
    using FlushData_noise [of s] by (simp add: sent_def drain.simps [of s])
next
  case (Cons f frames)
  obtain noise d where f: "f = (noise, d)" by (rule prod.exhaust)
  with Cons.prems have buf: "buffer s = noise @ Get d @ sent frames @ tail"
    and ok: "sendable (noise, d)" "list_all sendable frames"
    by (simp_all add: sent_def)
  note d = ok(1) [unfolded sendable_def fst_conv snd_conv]
  note flush = FlushData_frame [OF Cons.prems(4) buf conjunct1 [OF d] conjunct2 [OF d]]
  let ?t = "s\<lparr>base := loaded_from d (base s), buffer := sent frames @ tail,
    header_length := header_size d, frame_length := length (payload d)\<rparr>"
  from Cons.IH [OF ok(2) Cons.prems(2,3), of ?t] Cons.prems(4)
  obtain ms t where "drain ?t = Some (ms, t)" "list_all2 same_message (map snd frames) ms"
    by auto
  with flush f same_message_loaded_from [OF conjunct2 [OF d]] show ?case
    by (simp add: drain.simps [of s])
qed

text \<open>The first bytes of such a stream: undefined exactly where they end with a datagram, or are none.\<close>

lemma drain_all_sent:
  assumes "list_all sendable frames" "state s = BEGIN_SEQ" "buffer s = sent frames"
  shows "drain s = None"
  using assms
proof (induction frames arbitrary: s)
  case Nil
  then have "FlushData s = None"
    by (simp add: sent_def FlushData.simps [of s] flush_pass_def flush_begin_def FindBeginSequence_def)
  then show ?case by (simp add: drain.simps [of s])
next
  case (Cons f frames)
  obtain noise d where f: "f = (noise, d)" by (rule prod.exhaust)
  with Cons.prems have "buffer s = noise @ Get d @ sent frames" "LOWER \<notin> set noise"
      "length (payload d) < 2 ^ 32" "list_all sendable frames"
    by (simp_all add: sent_def sendable_Pair)
  with FlushData_frame [OF Cons.prems(2) this(1-3)] Cons.IH Cons.prems(2) show ?case
    by (simp add: drain.simps [of s])
qed

lemma FlushData_part_of_frame:
  assumes "stream_inv s" "state s = BEGIN_SEQ" "buffer s \<noteq> []" "buffer s @ x = noise @ Get d"
    "x \<noteq> []" "LOWER \<notin> set noise" "length (payload d) < 2 ^ 32"
  shows "\<exists>t. FlushData s = Some (False, t)"
proof (cases "FlushData s")
  case None
  then show ?thesis using FlushData_None [OF assms(1)] assms(3) by simp
next
  case (Some rt)
  obtain r t where rt: "rt = (r, t)" by (rule prod.exhaust)
  have "\<not> r"
  proof
    assume r
    with FlushData_True_push [OF assms(1), of t x] Some rt
    have "FlushData (push s x) = Some (True, push t x)" by simp
    moreover obtain u where "FlushData (push s x) = Some (True, u)" "buffer u = []"
      using FlushData_frame [of "push s x" noise d "[]"] assms(2,4,6,7) by auto
    ultimately show False using assms(5) by (auto simp: push_def split: if_splits)
  qed
  with Some rt show ?thesis by simp
qed

lemma drain_first_bytes:
  assumes "list_all sendable frames" "LOWER \<notin> set tail" "stream_inv s" "state s = BEGIN_SEQ"
    "buffer s @ later = sent frames @ tail" "\<forall>j \<le> length frames. buffer s \<noteq> sent (take j frames)"
  shows "drain s \<noteq> None"
  using assms
proof (induction frames arbitrary: s)
  case Nil
  then have "buffer s \<noteq> []" "buffer s @ later = tail" by (simp_all add: sent_def)
  moreover from this Nil.prems(2) have "LOWER \<notin> set (buffer s)" by auto
  ultimately show ?case using FlushData_noise [of s] Nil.prems(4) by (simp add: drain.simps [of s])
next
  case (Cons f frames)
  obtain noise d where f: "f = (noise, d)" by (rule prod.exhaust)
  with Cons.prems have buf: "buffer s @ later = (noise @ Get d) @ sent frames @ tail"
    and d: "LOWER \<notin> set noise" "length (payload d) < 2 ^ 32" and ok: "list_all sendable frames"
    by (simp_all add: sent_def sendable_Pair)
  have ne: "buffer s \<noteq> []" using Cons.prems(6) by (auto simp: sent_def dest: spec [of _ 0])
  from buf obtain us where "buffer s = (noise @ Get d) @ us \<and> us @ later = sent frames @ tail \<or>
      buffer s @ us = noise @ Get d \<and> later = us @ sent frames @ tail"
    using append_eq_append_conv2 [of "buffer s" later "noise @ Get d" "sent frames @ tail"] by blast
  then consider (whole) q where "buffer s = (noise @ Get d) @ q" "q @ later = sent frames @ tail"
    | (part) x where "x \<noteq> []" "buffer s @ x = noise @ Get d"
    by (cases "us = []") auto
  then show ?case
  proof cases
    case whole
    then have q: "buffer s = noise @ Get d @ q" by simp
    note flush = FlushData_frame [OF Cons.prems(4) q d]
    let ?t = "s\<lparr>base := loaded_from d (base s), buffer := q,
      header_length := header_size d, frame_length := length (payload d)\<rparr>"
    have "stream_inv ?t" using FlushData_inv [OF Cons.prems(3) flush] .
    moreover have "q \<noteq> sent (take j frames)" if "j \<le> length frames" for j
      using spec [OF Cons.prems(6), of "Suc j"] that q f by (simp add: sent_def)
    ultimately have "drain ?t \<noteq> None"
      using Cons.IH [OF ok Cons.prems(2), of ?t] whole(2) Cons.prems(4) by simp
    with flush show ?thesis by (simp add: drain.simps [of s])
  next
    case part
    from FlushData_part_of_frame [OF Cons.prems(3,4) ne part(2,1) d] show ?thesis
      by (auto simp: drain.simps [of s])
  qed
qed

text \<open>A datagram that ends where the received bytes end.\<close>

lemma drain_exact_end:
  assumes "state s = BEGIN_SEQ" "buffer s = noise @ Get d" "sendable (noise, d)"
  shows "drain s = None"
proof -
  from assms FlushData_frame [of s noise d "[]"] obtain t where
    t: "FlushData s = Some (True, t)" "state t = BEGIN_SEQ" "buffer t = []"
    by (auto simp: sendable_def)
  then have "FlushData t = None"
    by (simp add: FlushData.simps [of t] flush_pass_def flush_begin_def FindBeginSequence_def)
  with t show ?thesis by (simp add: drain.simps [of s] drain.simps [of t])
qed

section \<open>Only what is in the stream\<close>

lemma flush_begin_drop:
  "flush_begin s = Some t \<Longrightarrow> \<exists>j \<le> length (buffer s). buffer t = drop j (buffer s) \<and> base t = base s"
proof (cases "FindBeginSequence s")
  case (Found pos)
  moreover have "pos \<le> length (buffer s)" using FindBeginSequence_Found(1) [OF Found] by simp
  moreover assume "flush_begin s = Some t"
  ultimately show ?thesis
    by (intro exI [of _ "if state s = BEGIN_SEQ then pos else 0"])
      (auto simp: flush_begin_def split: if_splits)
next
  case NOT_FOUND
  moreover assume "flush_begin s = Some t"
  ultimately show ?thesis
    by (intro exI [of _ "if state s = BEGIN_SEQ then length (buffer s) - 1 else 0"])
      (auto simp: flush_begin_def split: if_splits)
next
  case Beyond_Buffer
  moreover assume "flush_begin s = Some t"
  ultimately show ?thesis
    by (intro exI [of _ 0]) (auto simp: flush_begin_def split: if_splits)
qed

lemma flush_header2_drop:
  "flush_header2 s = (u, r) \<Longrightarrow>
     buffer u = drop (if r then 1 else 0) (buffer s) \<and> base u = base s \<and> (r \<longrightarrow> state u = BEGIN_SEQ)"
  by (auto simp: flush_header2_def split: if_splits)

definition segment :: "stream \<Rightarrow> stream \<Rightarrow> bool" where
  "segment s t \<longleftrightarrow> (\<exists>k n. n = header_size (base t) + unat (payload_length (base t)) \<and>
     k + n \<le> length (buffer s) \<and> buffer t = drop (k + n) (buffer s) \<and>
     Load (drop k (buffer s)) n (base s) = (Loaded, base t))"

lemma segment_drop:
  assumes "segment u t" "buffer u = drop j (buffer s)" "base u = base s" "j \<le> length (buffer s)"
  shows "segment s t"
proof -
  from assms(1) obtain k n where "n = header_size (base t) + unat (payload_length (base t))"
      "k + n \<le> length (buffer u)" "buffer t = drop (k + n) (buffer u)"
      "Load (drop k (buffer u)) n (base u) = (Loaded, base t)"
    by (auto simp: segment_def)
  with assms(2-4) show ?thesis
    unfolding segment_def by (intro exI [of _ "k + j"] exI [of _ n]) (simp add: ac_simps)
qed

lemma flush_pass_drop:
  assumes inv: "stream_inv s"
  shows "flush_pass s = Again t \<Longrightarrow>
      \<exists>j \<le> length (buffer s). buffer t = drop j (buffer s) \<and> base t = base s"
    "flush_pass s = Complete t \<Longrightarrow> segment s t"
proof -
  from inv show "\<exists>j \<le> length (buffer s). buffer t = drop j (buffer s) \<and> base t = base s"
    if "flush_pass s = Again t"
  proof (cases rule: flush_pass_cases)
    case (pass t' u r)
    from pass(4) that pass(5) have "u = t" "r"
      by (cases rule: flush_payload_cases [where r = r]; auto split: if_splits)+
    moreover from flush_begin_drop [OF pass(1)] obtain j where
      "j \<le> length (buffer s)" "buffer t' = drop j (buffer s)" "base t' = base s" by blast
    ultimately show ?thesis
      using flush_header2_drop [OF pass(3)]
      by (intro exI [of _ "min (length (buffer s)) (j + 1)"]) (auto simp: min_def)
  qed (use that in simp)
  from inv show "segment s t" if "flush_pass s = Complete t"
  proof (cases rule: flush_pass_cases)
    case (pass t' u r)
    from flush_begin_drop [OF pass(1)] obtain j where
      j: "j \<le> length (buffer s)" "buffer t' = drop j (buffer s)" "base t' = base s" by blast
    from pass(4) show ?thesis
    proof (cases rule: flush_payload_cases [where r = r])
      case (complete d)
      let ?n = "header_length u + frame_length u"
      from complete(1) pass(4) have "header_length u = header_size d"
          "frame_length u = unat (payload_length d)"
        using Load_LoadedD(4,5) [OF complete(3)]
        by (simp_all add: stream_inv_def flagged_length_def header_size_def)
      with complete that pass(5) have "segment u t"
        unfolding segment_def by (intro exI [of _ 0] exI [of _ ?n]) auto
      moreover have "\<not> r" using flush_header2_drop [OF pass(3)] complete(1) by auto
      ultimately show ?thesis
        using segment_drop [of u t j s] flush_header2_drop [OF pass(3)] j by simp
    qed (use that pass(5) in \<open>auto split: if_splits\<close>)
  qed (use that in simp)
qed

lemma FlushData_segment:
  "stream_inv s \<Longrightarrow> FlushData s = Some (True, t) \<Longrightarrow> segment s t"
proof (induction s rule: FlushData.induct)
  case (1 s)
  show ?case
  proof (cases "flush_pass s")
    case (Again u)
    with 1 have "segment u t"
      using flush_pass_inv [of s u] by (auto simp: FlushData.simps [of s])
    with flush_pass_drop(1) [OF "1.prems"(1) Again] show ?thesis
      by (auto intro: segment_drop)
  next
    case (Complete u)
    with "1.prems" show ?thesis
      using flush_pass_drop(2) by (auto simp: FlushData.simps [of s])
  qed (use "1.prems" in \<open>auto simp: FlushData.simps [of s]\<close>)
qed

section \<open>Properties\<close>

text \<open>
  \<open>FlushData\<close>, and so \<open>AddData\<close>, keeps the invariant that ties the fields of a datagram in
  progress to the bytes at the front of the buffer, whatever bytes arrive.
\<close>

theorem AddData_keeps_invariant:
  assumes "stream_inv s" "AddData s data = Some (r, t)"
  shows "stream_inv t"
  using assms by (auto simp: AddData_push intro: FlushData_inv push_inv)

definition example_datagram :: datagram where
  "example_datagram = zero_datagram\<lparr>version := 101, payload := [0x41]\<rparr>"

lemma example_flush:
  "FlushData (push (new_stream zero_datagram) ([1, 2] @ Get example_datagram @ [7])) =
     Some (True, (new_stream zero_datagram)\<lparr>base := loaded_from example_datagram zero_datagram,
       buffer := [7], frame_length := 1\<rparr>)"
  by (subst FlushData_frame [of _ "[1, 2]" example_datagram "[7]"])
    (simp_all add: push_def new_stream_def LOWER_def BEGIN_SEQUENCE_def example_datagram_def
      zero_datagram_def header_size_def)

theorem AddData_keeps_invariant_witness:
  "\<exists>t. AddData (new_stream zero_datagram) ([1, 2] @ Get example_datagram @ [7]) = Some (True, t) \<and>
     stream_inv t"
  using AddData_keeps_invariant [OF new_stream_inv] example_flush by (auto simp: AddData_push)

text \<open>
  Where \<open>FlushData\<close> is undefined: on a stream that satisfies the invariant it reads or erases
  outside the buffer exactly when it is to search for a begin sequence in an empty buffer. In
  every other case it returns.
\<close>

theorem FlushData_undefined_iff:
  assumes "stream_inv s"
  shows "FlushData s = None \<longleftrightarrow> state s = BEGIN_SEQ \<and> buffer s = []"
  using assms by (rule FlushData_None)

theorem FlushData_undefined_iff_witness:
  "FlushData (new_stream zero_datagram) = None"
  using FlushData_undefined_iff [OF new_stream_inv] by (simp add: new_stream_def)

text \<open>
  The receive loop of the main process communication calls \<open>FlushData\<close> again after each
  datagram. When the received bytes end where a datagram ends, the common case of one datagram
  in one segment, that call finds the buffer empty: the behaviour is undefined.
\<close>

theorem exact_datagram_is_undefined:
  assumes "state s = BEGIN_SEQ" "buffer s @ data = noise @ Get d" "LOWER \<notin> set noise"
    "length (payload d) < 2 ^ 32"
  shows "receive s data = None"
  using drain_exact_end [of "push s data" noise d] assms by (simp add: receive_drain sendable_def)

theorem exact_datagram_is_undefined_witness:
  "receive (new_stream zero_datagram) (Get example_datagram) = None"
  using exact_datagram_is_undefined [of "new_stream zero_datagram" "Get example_datagram" "[]"
      example_datagram]
  by (simp add: new_stream_def example_datagram_def zero_datagram_def)

text \<open>
  The stage that loads a datagram cannot fail: once the header has been found correct and the
  announced bytes are in the buffer, \<open>Load\<close> returns and reads inside the buffer, whatever the
  length field says. The exception handler around it is never entered.
\<close>

theorem payload_stage_loads:
  assumes "stream_inv s" "state s = PAYLOAD"
    "header_length s + frame_length s \<le> length (buffer s)"
  shows "\<exists>d. Load (buffer s) (header_length s + frame_length s) (base s) = (Loaded, d)"
  using assms by (rule Load_of_frame)

definition example_stream :: stream where
  "example_stream = \<lparr>base = zero_datagram, state = PAYLOAD, buffer = Get zero_datagram,
     header_length = 12, frame_length = 0\<rparr>"

lemma example_stream_inv: "stream_inv example_stream"
proof -
  have "HeaderCorrect example_stream"
    by (rule HeaderCorrect_frame [of _ zero_datagram "[]"])
      (simp_all add: example_stream_def header_size_def zero_datagram_def)
  then show ?thesis
    by (simp add: stream_inv_def example_stream_def starts_frame_def flagged_length_def
        Get_eq header_def header_fields_def zero_datagram_def le32_def le16_def LOWER_def UPPER_def
        BEGIN_SEQUENCE_def read32_def)
qed

theorem payload_stage_loads_witness:
  "\<exists>d. Load (Get zero_datagram) 12 zero_datagram = (Loaded, d)"
  using payload_stage_loads [OF example_stream_inv]
  by (simp add: example_stream_def length_Get header_size_def zero_datagram_def)

text \<open>
  C27. Soundness: a datagram that \<open>FlushData\<close> reports is what \<open>Load\<close> accepts from one contiguous
  segment of the buffer, as long as its header announces, and the buffer is left with the bytes
  behind that segment.
\<close>

theorem FlushData_reports_a_segment:
  assumes "stream_inv s" "FlushData s = Some (True, t)"
  shows "\<exists>k n. n = header_size (base t) + unat (payload_length (base t)) \<and>
     k + n \<le> length (buffer s) \<and> buffer t = drop (k + n) (buffer s) \<and>
     Load (drop k (buffer s)) n (base s) = (Loaded, base t)"
  using FlushData_segment [OF assms] by (simp add: segment_def)

theorem FlushData_reports_a_segment_witness:
  "\<exists>k. Load (drop k ([1, 2] @ Get example_datagram @ [7])) 13 zero_datagram =
     (Loaded, loaded_from example_datagram zero_datagram)"
  using FlushData_reports_a_segment [OF push_inv [OF new_stream_inv] example_flush]
  by (auto simp: new_stream_def loaded_from_def example_datagram_def zero_datagram_def
      header_size_def)


lemma noise_example: "receive_all (new_stream zero_datagram) [[1, 2], [3]] =
    Some ([], (new_stream zero_datagram)\<lparr>buffer := [3]\<rparr>)"
  by (simp add: receive_drain drain.simps FlushData_noise new_stream_def push_def LOWER_def
      BEGIN_SEQUENCE_def)


text \<open>
  Completeness: a stream of serialized datagrams with noise between them, and behind the
  last at least one byte of it, is received with every datagram delivered in order, with its
  payload, the low byte of its version and a correct payload. The noise must not hold the first
  byte of the begin sequence.
\<close>

theorem stream_delivers:
  assumes "list_all sendable frames" "tail \<noteq> []" "LOWER \<notin> set tail"
    "state s = BEGIN_SEQ" "buffer s @ data = sent frames @ tail"
  shows "\<exists>ms t. receive s data = Some (ms, t) \<and> list_all2 same_message (map snd frames) ms"
  using drain_frames [OF assms(1-3), of "push s data"] assms(4,5) by (simp add: receive_drain)

theorem stream_delivers_witness:
  "\<exists>ms t. receive (new_stream zero_datagram) (sent [([1, 2], example_datagram), ([], zero_datagram)] @ [7]) =
     Some (ms, t) \<and> list_all2 same_message [example_datagram, zero_datagram] ms"
  using stream_delivers [of "[([1, 2], example_datagram), ([], zero_datagram)]" "[7]"
      "new_stream zero_datagram" "sent [([1, 2], example_datagram), ([], zero_datagram)] @ [7]"]
  by (simp add: new_stream_def sendable_def example_datagram_def zero_datagram_def LOWER_def
      BEGIN_SEQUENCE_def)

lemma drain_first_bytes_None:
  assumes "list_all sendable frames" "LOWER \<notin> set tail" "q @ later = sent frames @ tail"
  shows "drain (push (new_stream d0) q) = None \<longleftrightarrow> (\<exists>j \<le> length frames. q = sent (take j frames))"
    (is "?undefined \<longleftrightarrow> ?ends")
proof
  assume ?undefined
  then show ?ends
    using drain_first_bytes [of frames tail "push (new_stream d0) q" later] assms
      push_inv [OF new_stream_inv, of d0 q]
    by (auto simp: new_stream_def)
next
  assume ?ends
  then obtain j where "q = sent (take j frames)" by blast
  moreover have "list_all sendable (take j frames)"
    using assms(1) by (auto simp: list_all_iff dest: in_set_takeD)
  ultimately show ?undefined
    using drain_all_sent [of "take j frames" "push (new_stream d0) q"] by (simp add: new_stream_def)
qed

text \<open>
  C3. Serialized datagrams with noise between and behind them, received in chunks: the reception is
  undefined exactly if one of the chunks ends where a datagram ends (or the first ones are empty).
  However else a TCP connection splits the stream, the datagrams delivered are those that were
  sent, in their order and with correct payloads.
\<close>

theorem stream_delivers_in_chunks:
  assumes "list_all sendable frames" "LOWER \<notin> set tail" "concat xs = sent frames @ tail"
  shows "if \<exists>k < length xs. \<exists>j \<le> length frames. concat (take (Suc k) xs) = sent (take j frames)
    then receive_all (new_stream d0) xs = None
    else \<exists>ms t. receive_all (new_stream d0) xs = Some (ms, t) \<and>
      list_all2 same_message (map snd frames) ms"
proof -
  let ?ends = "\<lambda>k. \<exists>j \<le> length frames. concat (take (Suc k) xs) = sent (take j frames)"
  have "concat (take n xs) @ concat (drop n xs) = concat xs" for n
    by (simp add: concat_append [symmetric] del: concat_append)
  then have first: "drain (push (new_stream d0) (concat (take n xs))) = None \<longleftrightarrow>
      (\<exists>j \<le> length frames. concat (take n xs) = sent (take j frames))" for n
    using drain_first_bytes_None [OF assms(1,2)] assms(3) by metis
  have undefined: "receive_all (new_stream d0) xs = None \<longleftrightarrow> (\<exists>k < length xs. ?ends k)"
    unfolding receive_all_feed stream.feed_None [OF new_stream_inv] first ..
  have "list_all2 same_message (map snd frames) ms"
    if r: "receive_all (new_stream d0) xs = Some (ms, t)" for ms t
  proof (cases xs)
    case Nil
    with assms(3) r show ?thesis by (cases frames) (auto simp: sent_def split: prod.splits)
  next
    case (Cons y ys)
    then have "receive (new_stream d0) (concat xs) = Some (ms, t)"
      using stream.feed_concat [OF new_stream_inv, of _ y ys] r
      by (simp add: receive_all_feed receive_drain)
    moreover have "tail \<noteq> []"
    proof
      assume "tail = []"
      with assms(3) Cons have "?ends (length ys)" by (intro exI [of _ "length frames"]) simp
      then have "\<exists>k < length xs. ?ends k" using Cons by (intro exI [of _ "length ys"]) simp
      with undefined r show False by simp
    qed
    moreover obtain ms' t' where "receive (new_stream d0) (concat xs) = Some (ms', t')"
        "list_all2 same_message (map snd frames) ms'"
      using drain_frames [OF assms(1) \<open>tail \<noteq> []\<close> assms(2), of "push (new_stream d0) (concat xs)"] assms(3)
      by (auto simp: receive_drain new_stream_def)
    ultimately show ?thesis by simp
  qed
  with undefined show ?thesis by (cases "receive_all (new_stream d0) xs") auto
qed

theorem stream_delivers_in_chunks_witness:
  "\<exists>ms t. receive_all (new_stream zero_datagram) [[1, 2], Get example_datagram @ [7]] = Some (ms, t) \<and>
     list_all2 same_message [example_datagram] ms"
proof -
  let ?frames = "[([1, 2 :: u8], example_datagram)]" and ?chunks = "[[1, 2], Get example_datagram @ [7]]"
  have "\<not> (\<exists>k < length ?chunks. \<exists>j \<le> length ?frames. concat (take (Suc k) ?chunks) = sent (take j ?frames))"
    by (auto simp: less_Suc_eq_0_disj sent_def take_Cons' Get_not_Nil [symmetric] split: if_splits)
  moreover have "list_all sendable ?frames" "LOWER \<notin> set [7]" "concat ?chunks = sent ?frames @ [7]"
    by (simp_all add: sent_def sendable_def example_datagram_def zero_datagram_def LOWER_def BEGIN_SEQUENCE_def)
  ultimately have "\<exists>ms t. receive_all (new_stream zero_datagram) ?chunks = Some (ms, t) \<and>
      list_all2 same_message (map snd ?frames) ms"
    using stream_delivers_in_chunks [of ?frames "[7]" ?chunks zero_datagram] by (simp only: if_False simp_thms)
  then show ?thesis by (simp only: list.map snd_conv)
qed

end
