(* ===== verification/Player.thy ===== *)
theory Player
  imports Client "HOL-Library.Word"
begin

text \<open>
  game_logic/player.cpp, team.cpp, inc/coordinates.h and inc/point_box.h. Scores are \<open>int64_t\<close> in
  the code and unbounded here: Game.thy bounds them by the number of point boxes. What is
  handed to the FlatBuffers builder is a record; the schema has 32 bits for points, so the
  implicit conversion keeps the low 32.
\<close>

section \<open>inc/coordinates.h, inc/point_box.h\<close>

record Coordinates =
  longitude :: double
  latitude :: double

record PointBox =
  box_position :: Coordinates
  box_value :: int

section \<open>player.cpp\<close>

record player =
  player_name :: string
  player_id :: u32
  player_vehicle :: VehicleType
  points :: int
  distance_traveled :: double
  position :: Coordinates
  player_input :: PlayerInput

definition Player :: "string \<Rightarrow> u32 \<Rightarrow> VehicleType \<Rightarrow> player" where
  "Player name n vehicle =
     \<lparr>player_name = name, player_id = n, player_vehicle = vehicle, points = 0,
      distance_traveled = Fin 0, position = \<lparr>longitude = Fin 0, latitude = Fin 0\<rparr>,
      player_input = default_input\<rparr>"

definition SetPosition :: "Coordinates \<Rightarrow> player \<Rightarrow> player" where
  "SetPosition coords p = p\<lparr>position := coords\<rparr>"

definition AddPoints :: "int \<Rightarrow> player \<Rightarrow> player" where
  "AddPoints n p = p\<lparr>points := points p + n\<rparr>"

definition ResetScore :: "player \<Rightarrow> player" where
  "ResetScore p = p\<lparr>points := 0\<rparr>"

definition SetInput :: "PlayerInput \<Rightarrow> player \<Rightarrow> player" where
  "SetInput i p = p\<lparr>player_input := i\<rparr>"

definition AddDistanceTraveled :: "double \<Rightarrow> player \<Rightarrow> player" where
  "AddDistanceTraveled distance p =
     (if 0 < distance then p\<lparr>distance_traveled := distance_traveled p + distance\<rparr> else p)"

record wire_player =
  wp_name :: string
  wp_id :: u32
  wp_points :: u32
  wp_longitude :: double
  wp_latitude :: double
  wp_vehicle :: VehicleType

definition Player_GenerateFlatbuffers :: "player \<Rightarrow> wire_player" where
  "Player_GenerateFlatbuffers p =
     \<lparr>wp_name = player_name p, wp_id = player_id p, wp_points = word_of_int (points p),
      wp_longitude = longitude (position p), wp_latitude = latitude (position p),
      wp_vehicle = (case player_vehicle p of
          CYCLIST \<Rightarrow> CYCLIST | PEDESTRIAN \<Rightarrow> PEDESTRIAN | CAR \<Rightarrow> CAR)\<rparr>"

section \<open>team.cpp\<close>

record team =
  players :: "player list"

definition Team_AddPlayer :: "player \<Rightarrow> team \<Rightarrow> team" where
  "Team_AddPlayer p t = t\<lparr>players := players t @ [p]\<rparr>"

definition Score :: "team \<Rightarrow> int" where
  "Score t = foldl (\<lambda>score p. score + points p) 0 (players t)"

fun set_first_input :: "PlayerInput \<Rightarrow> player list \<Rightarrow> player list" where
  "set_first_input i [] = []"
| "set_first_input i (p # ps) =
     (if player_id p = input_id i then SetInput i p # ps else p # set_first_input i ps)"

definition Team_SetPlayerInput :: "PlayerInput \<Rightarrow> team \<Rightarrow> team" where
  "Team_SetPlayerInput i t = t\<lparr>players := set_first_input i (players t)\<rparr>"

record wire_team =
  wt_points :: u32
  wt_players :: "wire_player list"

definition Team_GenerateFlatbuffers :: "team \<Rightarrow> wire_team" where
  "Team_GenerateFlatbuffers t =
     \<lparr>wt_points = word_of_int (Score t),
      wt_players = map Player_GenerateFlatbuffers (players t)\<rparr>"

section \<open>Library\<close>

named_theorems player_ops \<open>what the operations of a player leave\<close>

lemma Player_ops [player_ops]:
  "points (SetPosition c p) = points p" "points (AddPoints n p) = points p + n"
  "points (SetInput i p) = points p" "points (AddDistanceTraveled d p) = points p"
  "player_id (SetPosition c p) = player_id p" "player_id (AddPoints n p) = player_id p"
  "player_id (SetInput i p) = player_id p" "player_id (AddDistanceTraveled d p) = player_id p"
  "position (SetPosition c p) = c" "position (AddPoints n p) = position p"
  "position (SetInput i p) = position p" "position (AddDistanceTraveled d p) = position p"
  "player_input (SetPosition c p) = player_input p" "player_input (AddPoints n p) = player_input p"
  "player_input (SetInput i p) = i" "player_input (AddDistanceTraveled d p) = player_input p"
  "player_vehicle (SetPosition c p) = player_vehicle p" "player_vehicle (AddPoints n p) = player_vehicle p"
  "player_vehicle (SetInput i p) = player_vehicle p"
  "player_vehicle (AddDistanceTraveled d p) = player_vehicle p"
  "distance_traveled (SetPosition c p) = distance_traveled p"
  "distance_traveled (AddPoints n p) = distance_traveled p"
  by (simp_all add: SetPosition_def AddPoints_def SetInput_def AddDistanceTraveled_def)

lemma Score_eq: "Score t = (\<Sum>p\<leftarrow>players t. points p)"
proof -
  have fold: "foldl (\<lambda>score p. score + points p) n ps = n + (\<Sum>p\<leftarrow>ps. points p)" for n ps
    by (induction ps arbitrary: n) simp_all
  show ?thesis unfolding Score_def fold by simp
qed

lemma set_first_input_points: "map points (set_first_input i ps) = map points ps"
  by (induction ps) (simp_all add: player_ops)

lemma set_first_input_ids [simp]: "map player_id (set_first_input i ps) = map player_id ps"
  by (induction ps) (simp_all add: player_ops)

lemma Score_SetPlayerInput [simp]: "Score (Team_SetPlayerInput i t) = Score t"
  by (simp add: Score_eq Team_SetPlayerInput_def set_first_input_points)

lemma Score_AddPlayer [simp]: "Score (Team_AddPlayer p t) = Score t + points p"
  by (simp add: Score_eq Team_AddPlayer_def)

text \<open>Only the first player with the id of the input is given it.\<close>

lemma set_first_input_hit:
  "player_id p = input_id i \<Longrightarrow> \<forall>q \<in> set ps. player_id q \<noteq> input_id i \<Longrightarrow>
     set_first_input i (ps @ p # qs) = ps @ SetInput i p # qs"
  by (induction ps) simp_all

lemma set_first_input_miss:
  "\<forall>q \<in> set ps. player_id q \<noteq> input_id i \<Longrightarrow> set_first_input i ps = ps"
  by (induction ps) simp_all

end
