(* ===== verification/Point_Transfer.thy ===== *)
theory Point_Transfer
  imports Main "HOL-Library.Sublist"
begin

text \<open>
  Loops over a list of objects that take things out of a shared pool, and the interface of such
  a step: what the object gains is what the pool loses. The lemmas carry the law from one step
  to a whole loop.
\<close>

text \<open>\<open>for (auto& x : xs) step(x)\<close> with a step that also updates the state \<open>s\<close>.\<close>

fun for_each :: "('p \<Rightarrow> 's \<Rightarrow> 'p \<times> 's) \<Rightarrow> 'p list \<Rightarrow> 's \<Rightarrow> 'p list \<times> 's" where
  "for_each step [] s = ([], s)"
| "for_each step (p # ps) s =
     (let (p', s') = step p s; (ps', s'') = for_each step ps s' in (p' # ps', s''))"

lemma for_each_append: "for_each step (ps @ qs) s =
    (let (ps', s') = for_each step ps s; (qs', s'') = for_each step qs s' in (ps' @ qs', s''))"
  by (induction ps arbitrary: s) (simp_all add: Let_def case_prod_beta')

lemma length_for_each [simp]: "length (fst (for_each step ps s)) = length ps"
  by (induction ps arbitrary: s) (simp_all add: Let_def case_prod_beta')

lemma for_each_keeps:
  "(\<And>p s. f (fst (step p s)) = f p) \<Longrightarrow> map f (fst (for_each step ps s)) = map f ps"
  by (induction ps arbitrary: s) (simp_all add: Let_def case_prod_beta')

lemma for_each_ConsE:
  assumes "for_each step (p # ps) s = (qs, u)"
  obtains q t qs' where "step p s = (q, t)" "for_each step ps t = (qs', u)" "qs = q # qs'"
  using assms by (auto simp: Let_def split: prod.splits)

lemma subseq_set: "subseq xs ys \<Longrightarrow> set xs \<subseteq> set ys"
  by (induction rule: list_emb.induct) auto

locale point_transfer =
  fixes step :: "'p \<Rightarrow> 'b list \<Rightarrow> 'p \<times> 'b list"
    and worth :: "'p \<Rightarrow> int"
    and val :: "'b \<Rightarrow> int"
  assumes step_transfers: "step p bs = (q, cs) \<Longrightarrow>
      worth q + (\<Sum>b\<leftarrow>cs. val b) = worth p + (\<Sum>b\<leftarrow>bs. val b)"
    and step_only_takes: "step p bs = (q, cs) \<Longrightarrow> subseq cs bs"
begin

lemma for_each_transfers: "for_each step ps bs = (qs, cs) \<Longrightarrow>
    (\<Sum>q\<leftarrow>qs. worth q) + (\<Sum>b\<leftarrow>cs. val b) = (\<Sum>p\<leftarrow>ps. worth p) + (\<Sum>b\<leftarrow>bs. val b)"
proof (induction ps arbitrary: bs qs)
  case (Cons p ps)
  from Cons.prems obtain q bs' qs' where s: "step p bs = (q, bs')" "for_each step ps bs' = (qs', cs)"
      "qs = q # qs'"
    by (rule for_each_ConsE)
  then show ?case using Cons.IH [OF s(2)] step_transfers [OF s(1)] by simp
qed simp

lemma for_each_only_takes: "for_each step ps bs = (qs, cs) \<Longrightarrow> subseq cs bs"
proof (induction ps arbitrary: bs qs)
  case (Cons p ps)
  from Cons.prems obtain q bs' qs' where s: "step p bs = (q, bs')" "for_each step ps bs' = (qs', cs)"
      "qs = q # qs'"
    by (rule for_each_ConsE)
  then show ?case
    using Cons.IH [OF s(2)] step_only_takes [OF s(1)] by (blast intro: subseq_order.order_trans)
qed simp

lemma sum_nonneg: "\<forall>b \<in> set bs. 0 \<le> val b \<Longrightarrow> 0 \<le> (\<Sum>b\<leftarrow>bs. val b)"
  by (induction bs) auto

lemma sum_subseq:
  "subseq cs bs \<Longrightarrow> \<forall>b \<in> set bs. 0 \<le> val b \<Longrightarrow> (\<Sum>b\<leftarrow>cs. val b) \<le> (\<Sum>b\<leftarrow>bs. val b)"
  by (induction rule: list_emb.induct) (auto simp: sum_nonneg)

text \<open>No object loses, where no thing has a negative value.\<close>

lemma step_gains:
  assumes "step p bs = (q, cs)" "\<forall>b \<in> set bs. 0 \<le> val b"
  shows "worth p \<le> worth q"
  using step_transfers [OF assms(1)] sum_subseq [OF step_only_takes [OF assms(1)] assms(2)] by simp

lemma for_each_gains:
  "for_each step ps bs = (qs, cs) \<Longrightarrow> \<forall>b \<in> set bs. 0 \<le> val b \<Longrightarrow>
     list_all2 (\<lambda>p q. worth p \<le> worth q) ps qs"
proof (induction ps arbitrary: bs qs)
  case (Cons p ps)
  from Cons.prems(1) obtain q bs' qs' where s: "step p bs = (q, bs')"
      "for_each step ps bs' = (qs', cs)" "qs = q # qs'"
    by (rule for_each_ConsE)
  have "set bs' \<subseteq> set bs" using step_only_takes [OF s(1)] by (simp add: subseq_set)
  with Cons.prems(2) have "\<forall>b \<in> set bs'. 0 \<le> val b" by blast
  with Cons.IH [OF s(2)] step_gains [OF s(1) Cons.prems(2)] s(3) show ?case by simp
qed simp

lemma for_each_gains_sum:
  assumes "for_each step ps bs = (qs, cs)" "\<forall>b \<in> set bs. 0 \<le> val b"
  shows "(\<Sum>p\<leftarrow>ps. worth p) \<le> (\<Sum>q\<leftarrow>qs. worth q)"
  using for_each_gains [OF assms] by (induction rule: list_all2_induct) auto

end

end
