(* ===== verification/Game.thy ===== *)
theory Game
  imports Player Point_Transfer
begin

text \<open>
  The rules of the game, game_logic/game.cpp. A position drawn at random is given by the two
  samples that the generator of the standard library delivers. The arithmetic is that of
  Double.thy.
\<close>

section \<open>The state\<close>

record game =
  red_team :: team
  blue_team :: team
  points_to_win :: int
  map_placement :: Coordinates
  map_radius :: double
  point_boxes :: "PointBox list"

definition EARTH_RADIUS :: double where "EARTH_RADIUS = Fin 6371000"
definition EARTH_CIRCUMFERENCE :: double where "EARTH_CIRCUMFERENCE = Fin 40075000"
definition POINT_BOX_VALUE :: int where "POINT_BOX_VALUE = 100"
definition POINT_BOX_COLLECT_DISTANCE :: double where "POINT_BOX_COLLECT_DISTANCE = Fin 5"

definition Game :: "int \<Rightarrow> Coordinates \<Rightarrow> double \<Rightarrow> game" where
  "Game win placement radius =
     \<lparr>red_team = \<lparr>players = []\<rparr>, blue_team = \<lparr>players = []\<rparr>, points_to_win = win,
      map_placement = placement, map_radius = radius, point_boxes = []\<rparr>"

section \<open>Positions\<close>

text \<open>The expression that three functions of the code share: \<open>dx\<close> and \<open>dy\<close> metres from a point.\<close>

definition displaced :: "Coordinates \<Rightarrow> double \<Rightarrow> double \<Rightarrow> Coordinates" where
  "displaced p dx dy =
     \<lparr>longitude = longitude p + (dx / EARTH_RADIUS) * (Fin 180 / M_PI) /
        fcos (latitude p * M_PI / Fin 180),
      latitude = latitude p + (dy / EARTH_RADIUS) * (Fin 180 / M_PI)\<rparr>"

definition random_position :: "Coordinates \<Rightarrow> double \<Rightarrow> double \<Rightarrow> Coordinates" where
  "random_position placement distance angle =
     displaced placement (distance * fcos angle) (distance * fsin angle)"

definition LatitudeToMeters :: "double \<Rightarrow> double" where
  "LatitudeToMeters lat = lat * Fin 111320"

definition LongitudeToMeters :: "double \<Rightarrow> double \<Rightarrow> double" where
  "LongitudeToMeters long lat = (EARTH_CIRCUMFERENCE * fcos lat / Fin 360) * long"

definition PointBoxDistance :: "Coordinates \<Rightarrow> Coordinates \<Rightarrow> Coordinates \<Rightarrow> double" where
  "PointBoxDistance box old new =
     (let x = LongitudeToMeters (longitude box) (latitude box);
          y = LatitudeToMeters (latitude box);
          x1 = LongitudeToMeters (longitude old) (latitude old);
          y1 = LatitudeToMeters (latitude old);
          x2 = LongitudeToMeters (longitude new) (latitude new);
          y2 = LatitudeToMeters (latitude new);
          A = x - x1; B = y - y1; C = x2 - x1; D = y2 - y1;
          dot = A * C + B * D;
          len_sq = C * C + D * D;
          param = (if \<not> equals len_sq 0 then dot / len_sq else Fin (- 1));
          (xx, yy) = (if param < 0 then (x1, y1)
                      else if 1 < param then (x2, y2)
                      else (x1 + param * C, y1 + param * D));
          dx = x - xx;
          dy = y - yy
      in fsqrt (dx * dx + dy * dy))"

section \<open>Operations\<close>

definition SetPlayerInput :: "PlayerInput \<Rightarrow> game \<Rightarrow> game" where
  "SetPlayerInput i g =
     (let g = g\<lparr>red_team := Team_SetPlayerInput i (red_team g)\<rparr>
      in g\<lparr>blue_team := Team_SetPlayerInput i (blue_team g)\<rparr>)"

definition AddPlayer :: "double \<Rightarrow> double \<Rightarrow> string \<Rightarrow> u32 \<Rightarrow> VehicleType \<Rightarrow> bool \<Rightarrow> game \<Rightarrow> game" where
  "AddPlayer distance angle name n vehicle to_red_team g =
     (let coords = random_position (map_placement g) distance angle;
          new_player = SetPosition coords (Player name n vehicle)
      in if to_red_team
         then g\<lparr>red_team := Team_AddPlayer new_player (red_team g)\<rparr>
         else g\<lparr>blue_team := Team_AddPlayer new_player (blue_team g)\<rparr>)"

definition RedTeamWon :: "game \<Rightarrow> bool" where
  "RedTeamWon g \<longleftrightarrow> points_to_win g \<le> Score (red_team g)"

definition BlueTeamWon :: "game \<Rightarrow> bool" where
  "BlueTeamWon g \<longleftrightarrow> points_to_win g \<le> Score (blue_team g)"

definition GeneratePointBox :: "double \<Rightarrow> double \<Rightarrow> game \<Rightarrow> game" where
  "GeneratePointBox distance angle g =
     g\<lparr>point_boxes := point_boxes g @
        [\<lparr>box_position = random_position (map_placement g) distance angle,
          box_value = POINT_BOX_VALUE\<rparr>]\<rparr>"

text \<open>The loop erases the box at index \<open>i\<close> and stays there, or goes on.\<close>

function check_boxes :: "Coordinates \<Rightarrow> Coordinates \<Rightarrow> nat \<Rightarrow> int \<Rightarrow> PointBox list \<Rightarrow> int \<times> PointBox list" where
  "check_boxes old new i score boxes =
     (if i < length boxes
      then if PointBoxDistance (box_position (boxes ! i)) old new < POINT_BOX_COLLECT_DISTANCE
           then check_boxes old new i (score + box_value (boxes ! i))
             (take i boxes @ drop (i + 1) boxes)
           else check_boxes old new (i + 1) score boxes
      else (score, boxes))"
  by pat_completeness auto
termination
  by (relation "measure (\<lambda>(old, new, i, score, boxes). length boxes - i)") auto

declare check_boxes.simps [simp del]

definition CheckForPointBox :: "Coordinates \<Rightarrow> Coordinates \<Rightarrow> PointBox list \<Rightarrow> int \<times> PointBox list" where
  "CheckForPointBox old new boxes = check_boxes old new 0 0 boxes"

definition CalculatePlayerMovement :: "double \<Rightarrow> player \<Rightarrow> PointBox list \<Rightarrow> player \<times> PointBox list" where
  "CalculatePlayerMovement time_diff p boxes =
     (let i = player_input p;
          old_position = position p;
          (new_position, p) =
            (if move i
             then let distance = VehicleSpeed (player_vehicle p) * time_diff;
                      dx = distance * fcos (direction i);
                      dy = distance * fsin (direction i)
                  in (displaced old_position dx dy, AddDistanceTraveled distance p)
             else (old_position, p));
          (score, boxes) = CheckForPointBox old_position new_position boxes
      in (SetPosition new_position (AddPoints score p), boxes))"

definition CalculateMovement :: "double \<Rightarrow> game \<Rightarrow> game" where
  "CalculateMovement time_diff g =
     (let (red, boxes) = for_each (CalculatePlayerMovement time_diff) (players (red_team g)) (point_boxes g);
          (blue, boxes) = for_each (CalculatePlayerMovement time_diff) (players (blue_team g)) boxes
      in g\<lparr>red_team := (red_team g)\<lparr>players := red\<rparr>,
           blue_team := (blue_team g)\<lparr>players := blue\<rparr>, point_boxes := boxes\<rparr>)"

section \<open>Reports\<close>

record wire_box =
  wb_longitude :: double
  wb_latitude :: double
  wb_value :: u32

record wire_game =
  wg_sequence :: u64
  wg_teams :: "wire_team list"
  wg_boxes :: "wire_box list"
  wg_finished :: bool

definition GenerateFlatbuffers :: "game \<Rightarrow> u64 \<Rightarrow> wire_game" where
  "GenerateFlatbuffers g sequence_number =
     \<lparr>wg_sequence = sequence_number,
      wg_teams = [Team_GenerateFlatbuffers (red_team g), Team_GenerateFlatbuffers (blue_team g)],
      wg_boxes = map (\<lambda>b. \<lparr>wb_longitude = longitude (box_position b),
        wb_latitude = latitude (box_position b), wb_value = word_of_int (box_value b)\<rparr>) (point_boxes g),
      wg_finished = (RedTeamWon g \<or> BlueTeamWon g)\<rparr>"

definition RedTeamScore :: "game \<Rightarrow> int" where
  "RedTeamScore g = Score (red_team g)"

definition BlueTeamScore :: "game \<Rightarrow> int" where
  "BlueTeamScore g = Score (blue_team g)"

text \<open>
  The calls on the database driver, as a trace: \<open>setInt\<close>, \<open>setString\<close> and \<open>setDateTime\<close>
  bind a parameter of the statement prepared last.
  A conversion to the 32 bits of \<open>setInt\<close> wraps around for integers; that of the distance
  truncates, and is undefined outside the range, which is left to the argument \<open>trunc\<close>.
\<close>

datatype db_call =
    Connect "(string \<times> string) list"
  | SetSchema string
  | Prepare string
  | SetInt nat u32
  | SetString nat string
  | SetDateTime nat string
  | Execute
  | Delete_Statement
  | Delete_Connection

fun vehicle_label :: "VehicleType \<Rightarrow> string" where
  "vehicle_label PEDESTRIAN = ''walk''"
| "vehicle_label CYCLIST = ''bike''"
| "vehicle_label CAR = ''car''"

definition bind_player :: "(double \<Rightarrow> u32) \<Rightarrow> u32 \<Rightarrow> player \<Rightarrow> db_call list" where
  "bind_player trunc game_id p =
     [Prepare ''CALL Add_stat_player_game(?, ?, ?, ?, ?, ?)'',
      SetInt 1 (player_id p), SetInt 2 game_id, SetInt 3 (word_of_int (points p)),
      SetString 4 ''red'', SetString 5 (vehicle_label (player_vehicle p)),
      SetInt 6 (trunc (distance_traveled p))]"

text \<open>The calls where none of them throws.\<close>

definition SendPlayersStatisticsToDatabase :: "(double \<Rightarrow> u32) \<Rightarrow> u32 \<Rightarrow> game \<Rightarrow> db_call list" where
  "SendPlayersStatisticsToDatabase trunc game_id g =
     concat (map (\<lambda>p. bind_player trunc game_id p @ [Execute, Delete_Statement])
       (players (red_team g))) @
     concat (map (\<lambda>p. bind_player trunc game_id p @ [Delete_Statement])
       (players (blue_team g)))"

end
