(* ===== verification/Game_Rules.thy ===== *)
theory Game_Rules
  imports Game
begin

text \<open>
  What the operations of game_logic/game.cpp guarantee: which boxes a movement collects, where
  the points come from, how far a player gets, and what an input that is no number does.
\<close>

section \<open>Collecting point boxes\<close>

definition in_reach :: "Coordinates \<Rightarrow> Coordinates \<Rightarrow> PointBox \<Rightarrow> bool" where
  "in_reach old new b \<longleftrightarrow> PointBoxDistance (box_position b) old new < POINT_BOX_COLLECT_DISTANCE"

abbreviation worth_of :: "PointBox list \<Rightarrow> int" where
  "worth_of bs \<equiv> (\<Sum>b\<leftarrow>bs. box_value b)"

lemma check_boxes_eq:
  "i \<le> length boxes \<Longrightarrow> check_boxes old new i score boxes =
     (score + worth_of (filter (in_reach old new) (drop i boxes)),
      take i boxes @ filter (\<lambda>b. \<not> in_reach old new b) (drop i boxes))"
proof (induction old new i score boxes rule: check_boxes.induct)
  case (1 old new i score boxes)
  show ?case
  proof (cases "i < length boxes")
    case False
    with "1.prems" show ?thesis by (subst check_boxes.simps) simp
  next
    case True
    let ?b = "boxes ! i"
    have drop: "drop i boxes = ?b # drop (i + 1) boxes"
      using True by (simp add: Cons_nth_drop_Suc)
    show ?thesis
    proof (cases "in_reach old new ?b")
      case near: True
      have "drop i (take i boxes @ drop (i + 1) boxes) = drop (i + 1) boxes"
        "take i (take i boxes @ drop (i + 1) boxes) = take i boxes" using True by simp_all
      with "1.IH"(1) [OF True near [unfolded in_reach_def]] True near drop show ?thesis
        by (simp add: check_boxes.simps [of old new i score boxes] in_reach_def)
    next
      case far: False
      have "take (i + 1) boxes = take i boxes @ [?b]" using True by (simp add: take_Suc_conv_app_nth)
      with "1.IH"(2) [OF True far [unfolded in_reach_def]] True far drop show ?thesis
        by (simp add: check_boxes.simps [of old new i score boxes] in_reach_def)
    qed
  qed
qed

lemma CheckForPointBox_eq: "CheckForPointBox old new boxes =
    (worth_of (filter (in_reach old new) boxes), filter (\<lambda>b. \<not> in_reach old new b) boxes)"
  by (simp add: CheckForPointBox_def check_boxes_eq)

lemma worth_of_partition: "worth_of (filter P bs) + worth_of (filter (\<lambda>b. \<not> P b) bs) = worth_of bs"
  by (induction bs) auto

section \<open>One player\<close>

definition moved_to :: "double \<Rightarrow> player \<Rightarrow> Coordinates" where
  "moved_to time_diff p =
     (let distance = VehicleSpeed (player_vehicle p) * time_diff; i = player_input p
      in if move i then displaced (position p) (distance * fcos (direction i)) (distance * fsin (direction i))
         else position p)"

lemma CalculatePlayerMovement_eq: "CalculatePlayerMovement time_diff p boxes =
    (SetPosition (moved_to time_diff p)
      (AddPoints (worth_of (filter (in_reach (position p) (moved_to time_diff p)) boxes))
        (if move (player_input p)
         then AddDistanceTraveled (VehicleSpeed (player_vehicle p) * time_diff) p else p)),
     filter (\<lambda>b. \<not> in_reach (position p) (moved_to time_diff p) b) boxes)"
  by (simp add: CalculatePlayerMovement_def CheckForPointBox_eq moved_to_def Let_def)

lemma CalculatePlayerMovement_keeps:
  "player_id (fst (CalculatePlayerMovement dt p bs)) = player_id p"
  "player_input (fst (CalculatePlayerMovement dt p bs)) = player_input p"
  "player_vehicle (fst (CalculatePlayerMovement dt p bs)) = player_vehicle p"
  by (simp_all add: CalculatePlayerMovement_eq player_ops)

interpretation collecting: point_transfer "CalculatePlayerMovement dt" points box_value
proof unfold_locales
  fix p q :: player and bs cs :: "PointBox list"
  assume "CalculatePlayerMovement dt p bs = (q, cs)"
  then show "points q + worth_of cs = points p + worth_of bs" "subseq cs bs"
    using worth_of_partition [of "in_reach (position p) (moved_to dt p)" bs]
    by (auto simp: CalculatePlayerMovement_eq player_ops subseq_filter_left)
qed

section \<open>The whole game\<close>

definition total :: "game \<Rightarrow> int" where
  "total g = Score (red_team g) + Score (blue_team g) + worth_of (point_boxes g)"

lemma CalculateMovementE:
  obtains red blue boxes boxes' where
    "for_each (CalculatePlayerMovement dt) (players (red_team g)) (point_boxes g) = (red, boxes)"
    "for_each (CalculatePlayerMovement dt) (players (blue_team g)) boxes = (blue, boxes')"
    "CalculateMovement dt g = g\<lparr>red_team := (red_team g)\<lparr>players := red\<rparr>,
       blue_team := (blue_team g)\<lparr>players := blue\<rparr>, point_boxes := boxes'\<rparr>"
  by (cases "for_each (CalculatePlayerMovement dt) (players (red_team g)) (point_boxes g)",
      cases "for_each (CalculatePlayerMovement dt) (players (blue_team g))
        (snd (for_each (CalculatePlayerMovement dt) (players (red_team g)) (point_boxes g)))")
    (auto simp: CalculateMovement_def Let_def)

text \<open>All players move as their inputs say, whatever they collect.\<close>

lemma positions_for_each:
  "map position (fst (for_each (CalculatePlayerMovement dt) ps bs)) = map (moved_to dt) ps"
  by (induction ps arbitrary: bs) (simp_all add: Let_def case_prod_beta' CalculatePlayerMovement_eq player_ops)

lemma positions_after_CalculateMovement:
  "map position (players (red_team (CalculateMovement dt g))) = map (moved_to dt) (players (red_team g))"
  "map position (players (blue_team (CalculateMovement dt g))) = map (moved_to dt) (players (blue_team g))"
  by (simp_all add: CalculateMovement_def Let_def case_prod_beta' positions_for_each)

lemma total_CalculateMovement: "total (CalculateMovement dt g) = total g"
proof -
  obtain red blue boxes boxes' where
    r: "for_each (CalculatePlayerMovement dt) (players (red_team g)) (point_boxes g) = (red, boxes)"
    and b: "for_each (CalculatePlayerMovement dt) (players (blue_team g)) boxes = (blue, boxes')"
    and g: "CalculateMovement dt g = g\<lparr>red_team := (red_team g)\<lparr>players := red\<rparr>,
       blue_team := (blue_team g)\<lparr>players := blue\<rparr>, point_boxes := boxes'\<rparr>"
    by (rule CalculateMovementE)
  show ?thesis
    using collecting.for_each_transfers [OF r] collecting.for_each_transfers [OF b]
    by (simp add: g total_def Score_eq)
qed

lemma boxes_CalculateMovement: "subseq (point_boxes (CalculateMovement dt g)) (point_boxes g)"
proof -
  obtain red blue boxes boxes' where
    r: "for_each (CalculatePlayerMovement dt) (players (red_team g)) (point_boxes g) = (red, boxes)"
    and b: "for_each (CalculatePlayerMovement dt) (players (blue_team g)) boxes = (blue, boxes')"
    and g: "CalculateMovement dt g = g\<lparr>red_team := (red_team g)\<lparr>players := red\<rparr>,
       blue_team := (blue_team g)\<lparr>players := blue\<rparr>, point_boxes := boxes'\<rparr>"
    by (rule CalculateMovementE)
  show ?thesis
    using collecting.for_each_only_takes [OF r] collecting.for_each_only_takes [OF b]
    by (auto simp: g intro: subseq_order.order_trans)
qed

lemma scores_CalculateMovement:
  assumes "\<forall>b \<in> set (point_boxes g). 0 \<le> box_value b"
  shows "Score (red_team g) \<le> Score (red_team (CalculateMovement dt g))"
    "Score (blue_team g) \<le> Score (blue_team (CalculateMovement dt g))"
proof -
  obtain red blue boxes boxes' where
    r: "for_each (CalculatePlayerMovement dt) (players (red_team g)) (point_boxes g) = (red, boxes)"
    and b: "for_each (CalculatePlayerMovement dt) (players (blue_team g)) boxes = (blue, boxes')"
    and g: "CalculateMovement dt g = g\<lparr>red_team := (red_team g)\<lparr>players := red\<rparr>,
       blue_team := (blue_team g)\<lparr>players := blue\<rparr>, point_boxes := boxes'\<rparr>"
    by (rule CalculateMovementE)
  have "\<forall>b \<in> set boxes. 0 \<le> box_value b"
    using subseq_set [OF collecting.for_each_only_takes [OF r]] assms by blast
  then show "Score (red_team g) \<le> Score (red_team (CalculateMovement dt g))"
    "Score (blue_team g) \<le> Score (blue_team (CalculateMovement dt g))"
    using collecting.for_each_gains_sum [OF r assms] collecting.for_each_gains_sum [OF b]
    by (simp_all add: g Score_eq)
qed

text \<open>The operations that the threads of the process perform on a game, in any order.\<close>

datatype game_op =
    Op_Input PlayerInput
  | Op_Player double double string u32 VehicleType bool
  | Op_Box double double
  | Op_Move double

fun apply_op :: "game_op \<Rightarrow> game \<Rightarrow> game" where
  "apply_op (Op_Input i) g = SetPlayerInput i g"
| "apply_op (Op_Player distance angle name n vehicle red) g =
     AddPlayer distance angle name n vehicle red g"
| "apply_op (Op_Box distance angle) g = GeneratePointBox distance angle g"
| "apply_op (Op_Move dt) g = CalculateMovement dt g"

definition play :: "game_op list \<Rightarrow> game \<Rightarrow> game" where
  "play ops g = fold apply_op ops g"

fun is_box :: "game_op \<Rightarrow> bool" where
  "is_box (Op_Box distance angle) = True"
| "is_box _ = False"

definition game_inv :: "game \<Rightarrow> bool" where
  "game_inv g \<longleftrightarrow> (\<forall>b \<in> set (point_boxes g). box_value b = 100) \<and>
     (\<forall>p \<in> set (players (red_team g)) \<union> set (players (blue_team g)). 0 \<le> points p)"

lemma worth_of_100: "\<forall>b \<in> set bs. box_value b = 100 \<Longrightarrow> worth_of bs = 100 * int (length bs)"
  by (induction bs) auto

lemma Score_Player [simp]: "points (SetPosition c (Player name n v)) = 0"
  by (simp add: SetPosition_def Player_def)

lemma total_apply_op: "total (apply_op op g) = total g + (if is_box op then 100 else 0)"
  by (cases op)
    (auto simp: total_CalculateMovement,
     auto simp: total_def SetPlayerInput_def AddPlayer_def GeneratePointBox_def Let_def
       POINT_BOX_VALUE_def)

lemma set_first_input_nonneg:
  "\<forall>p \<in> set ps. 0 \<le> points p \<Longrightarrow> \<forall>p \<in> set (set_first_input i ps). 0 \<le> points p"
  by (induction ps) (auto simp: player_ops)

lemma list_all2_points_nonneg:
  "list_all2 (\<lambda>p q. points p \<le> points q) ps qs \<Longrightarrow> \<forall>p \<in> set ps. 0 \<le> points p \<Longrightarrow>
     \<forall>q \<in> set qs. 0 \<le> points q"
  by (induction rule: list_all2_induct) auto

lemma game_inv_CalculateMovement: "game_inv g \<Longrightarrow> game_inv (CalculateMovement dt g)"
proof -
  assume inv: "game_inv g"
  obtain red blue boxes boxes' where
    r: "for_each (CalculatePlayerMovement dt) (players (red_team g)) (point_boxes g) = (red, boxes)"
    and b: "for_each (CalculatePlayerMovement dt) (players (blue_team g)) boxes = (blue, boxes')"
    and g: "CalculateMovement dt g = g\<lparr>red_team := (red_team g)\<lparr>players := red\<rparr>,
       blue_team := (blue_team g)\<lparr>players := blue\<rparr>, point_boxes := boxes'\<rparr>"
    by (rule CalculateMovementE)
  have vals: "\<forall>b \<in> set (point_boxes g). box_value b = 100" using inv by (simp add: game_inv_def)
  then have nonneg: "\<forall>b \<in> set (point_boxes g). 0 \<le> box_value b" by simp
  have sub: "set boxes \<subseteq> set (point_boxes g)" "set boxes' \<subseteq> set boxes"
    by (rule subseq_set [OF collecting.for_each_only_takes [OF r]],
        rule subseq_set [OF collecting.for_each_only_takes [OF b]])
  with nonneg have nonneg': "\<forall>b \<in> set boxes. 0 \<le> box_value b" by blast
  have "\<forall>q \<in> set red. 0 \<le> points q"
    using list_all2_points_nonneg [OF collecting.for_each_gains [OF r nonneg]] inv
    by (simp add: game_inv_def)
  moreover have "\<forall>q \<in> set blue. 0 \<le> points q"
    using list_all2_points_nonneg [OF collecting.for_each_gains [OF b nonneg']] inv
    by (simp add: game_inv_def)
  moreover have "\<forall>b \<in> set boxes'. box_value b = 100" using vals sub by blast
  ultimately show ?thesis by (auto simp: g game_inv_def)
qed

lemma game_inv_apply_op: "game_inv g \<Longrightarrow> game_inv (apply_op op g)"
proof (cases op)
  case (Op_Input i)
  moreover assume "game_inv g"
  ultimately show ?thesis
    using set_first_input_nonneg [of "players (red_team g)" i]
      set_first_input_nonneg [of "players (blue_team g)" i]
    by (auto simp: game_inv_def SetPlayerInput_def Team_SetPlayerInput_def Let_def)
qed (auto simp: game_inv_CalculateMovement,
    auto simp: game_inv_def AddPlayer_def Team_AddPlayer_def GeneratePointBox_def Let_def
      POINT_BOX_VALUE_def)

lemma points_to_win_apply_op [simp]: "points_to_win (apply_op op g) = points_to_win g"
  by (cases op) (auto simp: SetPlayerInput_def AddPlayer_def GeneratePointBox_def Let_def
      CalculateMovement_def split: prod.splits)

lemma scores_apply_op:
  assumes "game_inv g"
  shows "Score (red_team g) \<le> Score (red_team (apply_op op g))"
    "Score (blue_team g) \<le> Score (blue_team (apply_op op g))"
proof -
  have "\<forall>b \<in> set (point_boxes g). 0 \<le> box_value b" using assms by (simp add: game_inv_def)
  note mv = scores_CalculateMovement [OF this]
  show "Score (red_team g) \<le> Score (red_team (apply_op op g))"
    by (cases op) (auto simp: mv SetPlayerInput_def AddPlayer_def GeneratePointBox_def Let_def)
  show "Score (blue_team g) \<le> Score (blue_team (apply_op op g))"
    by (cases op) (auto simp: mv SetPlayerInput_def AddPlayer_def GeneratePointBox_def Let_def)
qed

lemma play_simps [simp]:
  "play [] g = g" "play (op # ops) g = play ops (apply_op op g)"
  "play (ops @ ops') g = play ops' (play ops g)"
  by (simp_all add: play_def)

lemma play_inv: "game_inv g \<Longrightarrow> game_inv (play ops g)"
  by (induction ops arbitrary: g) (auto intro: game_inv_apply_op)

lemma total_play: "total (play ops g) = total g + 100 * int (length (filter is_box ops))"
  by (induction ops arbitrary: g) (simp_all add: total_apply_op)

lemma scores_play:
  "game_inv g \<Longrightarrow> Score (red_team g) \<le> Score (red_team (play ops g)) \<and>
     Score (blue_team g) \<le> Score (blue_team (play ops g)) \<and>
     points_to_win (play ops g) = points_to_win g"
proof (induction ops arbitrary: g)
  case (Cons op ops)
  then show ?case
    using scores_apply_op [OF Cons.prems, of op] Cons.IH [OF game_inv_apply_op [OF Cons.prems], of op]
    by auto
qed simp

lemma Score_nonneg: "\<forall>p \<in> set (players t). 0 \<le> points p \<Longrightarrow> 0 \<le> Score t"
  unfolding Score_eq by (rule sum_list_nonneg) auto

lemma Game_inv: "game_inv (Game win placement radius)" "total (Game win placement radius) = 0"
  by (simp_all add: game_inv_def Game_def total_def Score_eq)

section \<open>Properties\<close>

text \<open>
  C34. \<open>CheckForPointBox\<close>, whose loop erases from the vector that it walks over, skips no box and
  counts none twice: it collects exactly the boxes in reach of the movement, returns the sum of
  their values and leaves the others in their order.
\<close>

theorem CheckForPointBox_collects:
  "CheckForPointBox old new boxes =
     (\<Sum>b\<leftarrow>filter (\<lambda>b. PointBoxDistance (box_position b) old new < POINT_BOX_COLLECT_DISTANCE) boxes.
        box_value b,
      filter (\<lambda>b. \<not> PointBoxDistance (box_position b) old new < POINT_BOX_COLLECT_DISTANCE) boxes)"
  using CheckForPointBox_eq [of old new boxes] by (simp add: in_reach_def [abs_def])

text \<open>
  C8. No points out of nothing: in every game, after any interleaving of inputs, joining players,
  new boxes and ticks, the scores of both teams and the boxes on the map together are worth 100
  points for each box ever generated, and no score is negative.
\<close>

theorem score_ledger:
  "let g = play ops (Game win placement radius)
   in Score (red_team g) + Score (blue_team g) + 100 * int (length (point_boxes g)) =
        100 * int (length (filter is_box ops)) \<and>
      0 \<le> Score (red_team g) \<and> 0 \<le> Score (blue_team g)"
proof -
  define g where "g = play ops (Game win placement radius)"
  have inv: "game_inv g" unfolding g_def by (rule play_inv) (rule Game_inv)
  then have "worth_of (point_boxes g) = 100 * int (length (point_boxes g))"
    by (simp add: worth_of_100 game_inv_def)
  moreover have "total g = 100 * int (length (filter is_box ops))"
    unfolding g_def using total_play Game_inv(2) by simp
  ultimately show ?thesis
    using inv Score_nonneg [of "red_team g"] Score_nonneg [of "blue_team g"]
    by (simp add: total_def game_inv_def Let_def flip: g_def)
qed

lemma score_bounds:
  "0 \<le> Score (red_team (play ops (Game win placement radius))) \<and>
   Score (red_team (play ops (Game win placement radius))) \<le> 100 * int (length (filter is_box ops))"
  "0 \<le> Score (blue_team (play ops (Game win placement radius))) \<and>
   Score (blue_team (play ops (Game win placement radius))) \<le> 100 * int (length (filter is_box ops))"
proof -
  let ?g = "play ops (Game win placement radius)"
  have inv: "game_inv ?g" by (rule play_inv) (rule Game_inv)
  have "total ?g = 100 * int (length (filter is_box ops))"
    using total_play Game_inv(2) by simp
  moreover have "0 \<le> worth_of (point_boxes ?g)"
    using inv by (simp add: worth_of_100 game_inv_def)
  moreover have "0 \<le> Score (red_team ?g)" "0 \<le> Score (blue_team ?g)"
    using inv by (auto intro: Score_nonneg simp: game_inv_def)
  ultimately show "0 \<le> Score (red_team ?g) \<and> Score (red_team ?g) \<le> 100 * int (length (filter is_box ops))"
    "0 \<le> Score (blue_team ?g) \<and> Score (blue_team ?g) \<le> 100 * int (length (filter is_box ops))"
    by (auto simp: total_def)
qed

lemma sint_score: "0 \<le> n \<Longrightarrow> n < 2 ^ 31 \<Longrightarrow> sint (word_of_int n :: u32) = n"
  by (simp add: sint_sbintrunc' signed_take_bit_int_eq_self)

text \<open>
  C35. The status message carries scores in 32 bits. As long as fewer than 21 million boxes have
  been generated, what it says of both teams is their score, and so the 64-bit scores of the
  code have not overflowed either.
\<close>

theorem reported_scores_exact:
  assumes "length (filter is_box ops) < 21000000"
  shows "map (sint \<circ> wt_points)
      (wg_teams (GenerateFlatbuffers (play ops (Game win placement radius)) n)) =
    [Score (red_team (play ops (Game win placement radius))),
     Score (blue_team (play ops (Game win placement radius)))]"
proof -
  have "100 * int (length (filter is_box ops)) < 2 ^ 31" using assms by simp
  with score_bounds [of ops win placement radius] show ?thesis
    by (simp add: GenerateFlatbuffers_def Team_GenerateFlatbuffers_def sint_score)
qed

text \<open>One player and one box in the same place: the first tick wins a game to 100 points.\<close>

definition origin :: Coordinates where
  "origin = \<lparr>longitude = Fin 0, latitude = Fin 0\<rparr>"

definition short_game :: "game_op list" where
  "short_game = [Op_Player (Fin 0) (Fin 0) ''ann'' 5 CAR True, Op_Box (Fin 0) (Fin 0), Op_Move (Fin 0.05)]"

lemma short_game_position: "random_position origin (Fin 0) (Fin 0) = origin"
  by (simp add: random_position_def displaced_def origin_def EARTH_RADIUS_def M_PI_def)

lemma short_game_distance: "PointBoxDistance origin origin origin = Fin 0"
  by (simp add: PointBoxDistance_def origin_def LongitudeToMeters_def LatitudeToMeters_def
      EARTH_CIRCUMFERENCE_def)

lemma short_game_score: "Score (red_team (play short_game (Game 100 origin (Fin 1000)))) = 100"
  by (simp add: short_game_def Game_def AddPlayer_def GeneratePointBox_def Team_AddPlayer_def
      short_game_position CalculateMovement_def CalculatePlayerMovement_eq moved_to_def Player_def
      default_input_def SetPosition_def AddPoints_def in_reach_def short_game_distance Score_eq
      POINT_BOX_COLLECT_DISTANCE_def POINT_BOX_VALUE_def)

theorem reported_scores_exact_witness:
  "map (sint \<circ> wt_points)
     (wg_teams (GenerateFlatbuffers (play short_game (Game 100 origin (Fin 1000))) 1)) =
   [100, Score (blue_team (play short_game (Game 100 origin (Fin 1000))))]"
  using reported_scores_exact [of short_game 100 origin "Fin 1000" 1] short_game_score
  by (simp add: short_game_def)

text \<open>
  A decision is final: once a team has reached the points to win, no operation takes them away
  again, so the game loop, which looks only after a tick, cannot miss it.
\<close>

theorem victory_is_final:
  assumes "RedTeamWon (play ops (Game win placement radius)) \<or>
      BlueTeamWon (play ops (Game win placement radius))"
  shows "RedTeamWon (play (ops @ later) (Game win placement radius)) \<or>
      BlueTeamWon (play (ops @ later) (Game win placement radius))"
  using assms scores_play [OF play_inv [OF Game_inv(1)], of ops win placement radius later]
  unfolding RedTeamWon_def BlueTeamWon_def play_simps by linarith

theorem victory_is_final_witness:
  "RedTeamWon (play (short_game @ [Op_Move (Fin 0.05)]) (Game 100 origin (Fin 1000))) \<or>
   BlueTeamWon (play (short_game @ [Op_Move (Fin 0.05)]) (Game 100 origin (Fin 1000)))"
proof (rule victory_is_final)
  have "points_to_win (play short_game (Game 100 origin (Fin 1000))) = 100"
    using scores_play [OF Game_inv(1)] by (simp add: Game_def)
  then show "RedTeamWon (play short_game (Game 100 origin (Fin 1000))) \<or>
      BlueTeamWon (play short_game (Game 100 origin (Fin 1000)))"
    by (simp add: RedTeamWon_def short_game_score)
qed

text \<open>
  An input reaches the first player of each team that has its id and nobody else; when the id
  is in one team only, the other team, the map and all scores stay as they are.
\<close>

theorem input_reaches_its_player:
  assumes "players (red_team g) = ps @ p # qs" "player_id p = input_id i"
    "\<forall>q \<in> set (ps @ players (blue_team g)). player_id q \<noteq> input_id i"
  shows "players (red_team (SetPlayerInput i g)) = ps @ SetInput i p # qs \<and>
    blue_team (SetPlayerInput i g) = blue_team g \<and>
    point_boxes (SetPlayerInput i g) = point_boxes g \<and>
    Score (red_team (SetPlayerInput i g)) = Score (red_team g)"
  using assms set_first_input_hit [of p i ps qs] set_first_input_miss [of "players (blue_team g)" i]
  by (simp add: SetPlayerInput_def Let_def) (simp add: Team_SetPlayerInput_def)

theorem input_reaches_its_player_witness:
  "players (red_team (SetPlayerInput (default_input\<lparr>input_id := 5, move := True\<rparr>)
      (AddPlayer (Fin 0) (Fin 0) ''ann'' 5 CAR True (Game 100 origin (Fin 1000))))) =
   [SetInput (default_input\<lparr>input_id := 5, move := True\<rparr>) (SetPosition origin (Player ''ann'' 5 CAR))]"
  using input_reaches_its_player [of
      "AddPlayer (Fin 0) (Fin 0) ''ann'' 5 CAR True (Game 100 origin (Fin 1000))" "[]"
      "SetPosition origin (Player ''ann'' 5 CAR)" "[]" "default_input\<lparr>input_id := 5, move := True\<rparr>"]
  by (simp add: AddPlayer_def Team_AddPlayer_def Game_def short_game_position Player_def
      SetPosition_def default_input_def)

lemma count_calls:
  "length (filter ((=) Execute) (concat (map (\<lambda>p. bind_player trunc n p @ [Execute, Delete_Statement]) ps))) = length ps"
  "length (filter ((=) Execute) (concat (map (\<lambda>p. bind_player trunc n p @ [Delete_Statement]) ps))) = 0"
  by (induction ps) (simp_all add: bind_player_def)

text \<open>
  The statistics of the blue team never reach the database: of the statements prepared for the
  players only those of the red team are executed, and no player is ever labelled blue.
\<close>

theorem blue_statistics_lost:
  "length (filter ((=) Execute) (SendPlayersStatisticsToDatabase trunc game_id g)) =
     length (players (red_team g)) \<and>
   SetString 4 ''blue'' \<notin> set (SendPlayersStatisticsToDatabase trunc game_id g)"
  using count_calls [of trunc game_id]
  by (auto simp: SendPlayersStatisticsToDatabase_def filter_concat bind_player_def)

end
