(* ===== verification/Game_Logic.thy ===== *)
theory Game_Logic
  imports Game_Rules
begin

text \<open>
  game_logic/game_logic.cpp: the owner of the game, with the thread that ticks it. Times are
  nanoseconds of the system clock. Every operation that takes \<open>mutex_\<close> holds it for its whole body
  and calls nothing that takes it again, so it is one step here. What a tick reads from the
  environment, the time and the two samples for a box, are arguments.

  A null \<open>game_\<close> that is dereferenced gives None.
\<close>

section \<open>The state\<close>

text \<open>Where the lambda of \<open>StartGame\<close> stands: before the call or check named.\<close>

datatype pc =
    At_Tick
  | At_Game_Finished
  | At_Terminate
  | After_Loop
  | At_Finish_Point
  | At_Statistics
  | Ended

datatype thread = Not_Joinable | Joinable pc

record game_logic =
  game :: "game option"
  game_id :: u32
  map_name :: string
  point_box_spawn_period :: int
  start_point :: int
  finish_point :: int
  game_started :: bool
  terminate :: bool
  game_thread :: thread
  serialization_seq_num :: u64
  last_point_box_spawn :: int

definition second :: int where
  "second = 1000000000"

text \<open>The two time points that the constructor does not name start at the epoch.\<close>

definition GameLogic :: "int \<Rightarrow> game_logic" where
  "GameLogic now =
     \<lparr>game = None, game_id = 0, map_name = '''', point_box_spawn_period = 10 * second,
      start_point = 0, finish_point = 0, game_started = False, terminate = False,
      game_thread = Not_Joinable, serialization_seq_num = 0, last_point_box_spawn = now\<rparr>"

section \<open>Operations\<close>

definition NewGame :: "Coordinates \<Rightarrow> double \<Rightarrow> string \<Rightarrow> u32 \<Rightarrow> u64 \<Rightarrow> u16 \<Rightarrow> game_logic \<Rightarrow> game_logic" where
  "NewGame start radius name n win period gl =
     gl\<lparr>point_box_spawn_period := uint period * second,
        game := Some (Game (sint win) start radius),
        game_id := n, map_name := name\<rparr>"

definition Logic_AddPlayer :: "double \<Rightarrow> double \<Rightarrow> client \<Rightarrow> bool \<Rightarrow> game_logic \<Rightarrow> game_logic" where
  "Logic_AddPlayer distance angle c to_red_team gl =
     (case game gl of
        None \<Rightarrow> gl
      | Some g \<Rightarrow>
          gl\<lparr>game := Some (AddPlayer distance angle (Name c) (Id c) (Vehicle c) to_red_team g)\<rparr>)"

definition SetPlayerMovement :: "PlayerInput \<Rightarrow> game_logic \<Rightarrow> game_logic" where
  "SetPlayerMovement i gl =
     (case game gl of None \<Rightarrow> gl | Some g \<Rightarrow> gl\<lparr>game := Some (SetPlayerInput i g)\<rparr>)"

definition GetGameStatus :: "game_logic \<Rightarrow> wire_game option" where
  "GetGameStatus gl =
     (case game gl of None \<Rightarrow> None | Some g \<Rightarrow> Some (GenerateFlatbuffers g (serialization_seq_num gl)))"

definition Running :: "game_logic \<Rightarrow> bool" where
  "Running gl = game_started gl"

text \<open>\<open>tick_duration_\<close> is 1000 / 20 milliseconds.\<close>

definition tick_seconds :: double where
  "tick_seconds = Fin 0.05"

definition Tick :: "int \<Rightarrow> double \<Rightarrow> double \<Rightarrow> game_logic \<Rightarrow> game_logic option" where
  "Tick now distance angle gl =
     (case game gl of
        None \<Rightarrow> None
      | Some g \<Rightarrow>
          let (g, last) =
            (if point_box_spawn_period gl < now - last_point_box_spawn gl
             then (GeneratePointBox distance angle g, now)
             else (g, last_point_box_spawn gl));
            g = CalculateMovement tick_seconds g
          in Some (gl\<lparr>game := Some g, last_point_box_spawn := last,
                serialization_seq_num := serialization_seq_num gl + 1\<rparr>))"

definition GameFinished :: "game_logic \<Rightarrow> bool option" where
  "GameFinished gl = map_option (\<lambda>g. BlueTeamWon g \<or> RedTeamWon g) (game gl)"

text \<open>
  Assigning a new thread to a \<open>std::thread\<close> that is still joinable ends the process by
  \<open>std::terminate\<close>: None.
\<close>

definition StartGame :: "int \<Rightarrow> game_logic \<Rightarrow> game_logic option" where
  "StartGame now gl =
     (if \<not> game_started gl \<and> game gl \<noteq> None
      then let gl = gl\<lparr>start_point := now, game_started := True, terminate := False\<rparr>
           in (case game_thread gl of
                 Not_Joinable \<Rightarrow> Some (gl\<lparr>game_thread := Joinable At_Tick\<rparr>)
               | Joinable p \<Rightarrow> None)
      else Some gl)"

text \<open>One step of the thread; sleeping is not a step of its own.\<close>

definition thread_step :: "int \<Rightarrow> double \<Rightarrow> double \<Rightarrow> game_logic \<Rightarrow> game_logic option" where
  "thread_step now distance angle gl =
     (case game_thread gl of
        Not_Joinable \<Rightarrow> None
      | Joinable At_Tick \<Rightarrow>
          map_option (\<lambda>gl. gl\<lparr>game_thread := Joinable At_Game_Finished\<rparr>) (Tick now distance angle gl)
      | Joinable At_Game_Finished \<Rightarrow>
          map_option (\<lambda>finished. gl\<lparr>game_thread :=
            Joinable (if finished then After_Loop else At_Terminate)\<rparr>) (GameFinished gl)
      | Joinable At_Terminate \<Rightarrow>
          Some (gl\<lparr>game_thread := Joinable (if terminate gl then After_Loop else At_Tick)\<rparr>)
      | Joinable After_Loop \<Rightarrow>
          Some (if terminate gl
                then gl\<lparr>game_started := False, game_thread := Joinable Ended\<rparr>
                else gl\<lparr>game_thread := Joinable At_Finish_Point\<rparr>)
      | Joinable At_Finish_Point \<Rightarrow>
          Some (gl\<lparr>finish_point := now, game_thread := Joinable At_Statistics\<rparr>)
      | Joinable At_Statistics \<Rightarrow>
          Some (gl\<lparr>game_started := False, game_thread := Joinable Ended\<rparr>)
      | Joinable Ended \<Rightarrow> None)"

text \<open>\<open>StopGame\<close> sets the flag and, where the thread is joinable, waits for its end.\<close>

definition StopGame_request :: "game_logic \<Rightarrow> game_logic" where
  "StopGame_request gl = gl\<lparr>terminate := True\<rparr>"

definition StopGame_join :: "game_logic \<Rightarrow> game_logic option" where
  "StopGame_join gl =
     (case game_thread gl of
        Not_Joinable \<Rightarrow> Some gl
      | Joinable Ended \<Rightarrow> Some (gl\<lparr>game_thread := Not_Joinable\<rparr>)
      | Joinable p \<Rightarrow> None)"

section \<open>The database\<close>

definition DB_HOST_NAME :: string where "DB_HOST_NAME = ''35.246.226.222''"
definition DB_USER_NAME :: string where "DB_USER_NAME = ''dev''"
definition DB_PASSWORD :: string where "DB_PASSWORD = ''pz2021project''"
definition DB_SCHEMA :: string where "DB_SCHEMA = ''Website''"
definition DB_SSL_CA :: string where "DB_SSL_CA = ''./crt/server-ca.pem''"
definition DB_SSL_CRT :: string where "DB_SSL_CRT = ''./crt/client-cert.pem''"
definition DB_SSL_KEY :: string where "DB_SSL_KEY = ''./crt/client-key.pem''"

text \<open>
  The calls of \<open>SendStatisticsToDatabase\<close> in their order; \<open>date\<close> is \<open>localtime\<close> and \<open>strftime\<close>.
\<close>

definition statistics_calls :: "(double \<Rightarrow> u32) \<Rightarrow> (int \<Rightarrow> string) \<Rightarrow> game_logic \<Rightarrow> game \<Rightarrow> db_call list" where
  "statistics_calls trunc date gl g =
     [Connect [(''hostName'', DB_HOST_NAME), (''userName'', DB_USER_NAME), (''password'', DB_PASSWORD),
        (''schema'', DB_SCHEMA), (''sslCA'', DB_SSL_CA), (''sslCert'', DB_SSL_CRT), (''sslKey'', DB_SSL_KEY)],
      SetSchema DB_SCHEMA,
      Prepare ''CALL Add_stat_map_game(?, ?, ?, ?, ?, ?)'',
      SetInt 1 (game_id gl), SetString 2 (map_name gl),
      SetDateTime 3 (date (start_point gl)), SetDateTime 4 (date (finish_point gl)),
      SetInt 5 (word_of_int (RedTeamScore g)), SetInt 6 (word_of_int (BlueTeamScore g)),
      Execute, Delete_Statement] @
     SendPlayersStatisticsToDatabase trunc (game_id gl) g @ [Delete_Connection]"

text \<open>
  The driver accepts a call, given those made before it, or throws an \<open>SQLException\<close>, which is caught
  behind the last call; to delete something never throws. The calls made, and whether all were.
\<close>

fun db_session :: "(db_call list \<Rightarrow> db_call \<Rightarrow> bool) \<Rightarrow> db_call list \<Rightarrow> db_call list \<Rightarrow> db_call list \<times> bool" where
  "db_session accepts made [] = (made, True)"
| "db_session accepts made (c # cs) =
     (if c = Delete_Statement \<or> c = Delete_Connection \<or> accepts made c
      then db_session accepts (made @ [c]) cs
      else (made @ [c], False))"

definition SendStatisticsToDatabase :: "(db_call list \<Rightarrow> db_call \<Rightarrow> bool) \<Rightarrow> (double \<Rightarrow> u32) \<Rightarrow>
    (int \<Rightarrow> string) \<Rightarrow> game_logic \<Rightarrow> (db_call list \<times> bool) option" where
  "SendStatisticsToDatabase accepts trunc date gl =
     map_option (\<lambda>g. db_session accepts [] (statistics_calls trunc date gl g)) (game gl)"

lemma db_session_cases:
  assumes "db_session accepts made cs = (r, ok)"
  obtains (completed) "ok" "r = made @ cs"
    | (thrown) xs c ys where "\<not> ok" "cs = xs @ c # ys" "r = made @ xs @ [c]" "c \<noteq> Delete_Statement" "c \<noteq> Delete_Connection"
proof -
  have "(ok \<and> r = made @ cs) \<or> (\<exists>xs c ys. \<not> ok \<and> cs = xs @ c # ys \<and> r = made @ xs @ [c] \<and>
      c \<noteq> Delete_Statement \<and> c \<noteq> Delete_Connection)"
    using assms
  proof (induction accepts made cs rule: db_session.induct)
    case (2 accepts made c cs)
    show ?case
    proof (cases "c = Delete_Statement \<or> c = Delete_Connection \<or> accepts made c")
      case True
      with 2 have "(ok \<and> r = (made @ [c]) @ cs) \<or> (\<exists>xs d ys. \<not> ok \<and> cs = xs @ d # ys \<and> r = (made @ [c]) @ xs @ [d] \<and>
          d \<noteq> Delete_Statement \<and> d \<noteq> Delete_Connection)" by simp
      then show ?thesis by (metis append.assoc append_Cons append_Nil)
    next
      case False
      with 2(2) show ?thesis by (intro disjI2 exI [of _ "[]"] exI [of _ c] exI [of _ cs]) auto
    qed
  qed simp
  then show ?thesis using that by blast
qed

lemma SendStatisticsToDatabase_cases:
  assumes "SendStatisticsToDatabase accepts trunc date gl = Some (calls, ok)" "game gl = Some g"
  obtains (completed) "ok" "calls = statistics_calls trunc date gl g"
    | (thrown) rest where "\<not> ok" "rest \<noteq> []" "statistics_calls trunc date gl g = calls @ rest" "Delete_Connection \<notin> set calls"
proof -
  let ?cs = "statistics_calls trunc date gl g"
  from assms have "db_session accepts [] ?cs = (calls, ok)" by (simp add: SendStatisticsToDatabase_def)
  then show ?thesis
  proof (cases rule: db_session_cases)
    case (thrown xs c ys)
    have "\<exists>body. ?cs = body @ [Delete_Connection] \<and> Delete_Connection \<notin> set body"
      unfolding statistics_calls_def append_assoc [symmetric]
      by (intro exI conjI, rule refl) (auto simp: SendPlayersStatisticsToDatabase_def bind_player_def)
    then obtain body where body: "?cs = body @ [Delete_Connection]" "Delete_Connection \<notin> set body" by blast
    from thrown body(1) have "ys \<noteq> []" by auto
    then have "ys = butlast ys @ [last ys]" by simp
    with thrown(2) body(1) have "body = xs @ c # butlast ys"
      by (metis append_Cons append_assoc append_butlast_last_id butlast_snoc)
    with body(2) thrown(3) have "Delete_Connection \<notin> set calls" by auto
    with thrown \<open>ys \<noteq> []\<close> show ?thesis by (intro that(2) [of ys]) auto
  qed (auto intro: that(1))
qed

end
