(* ===== verification/Client_Communication.thy ===== *)
theory Client_Communication
  imports Client_Udp Game_Logic
begin

text \<open>
  client_communication/client_communication.cpp: the UDP side of the process. The handlers that
  asio calls are operations on the clients and the game logic. The parameters are those of
  Client_Udp.thy, \<open>to_string\<close> of an address and \<open>encode\<close>, the bytes that the FlatBuffers builder
  makes of a status (in Message_Flow, those of the generated code).
\<close>

section \<open>The state\<close>

text \<open>\<open>clients_locked\<close> is \<open>clients_mutex_\<close>; \<open>logic_assigned\<close> says whether \<open>game_logic_\<close> is set.\<close>

record 'a client_comm =
  clients :: "'a client_udp list"
  clients_locked :: bool
  logic_assigned :: bool
  transmit_buffer :: "u8 list"

definition ClientCommunication :: "'a client_comm" where
  "ClientCommunication =
     \<lparr>clients = [], clients_locked = False, logic_assigned = False, transmit_buffer = []\<rparr>"

definition AssignGameLogic :: "'a client_comm \<Rightarrow> 'a client_comm" where
  "AssignGameLogic cc = cc\<lparr>logic_assigned := True\<rparr>"

text \<open>
  How an operation ends: normally, by an exception (with the state it leaves), waiting for
  a mutex that nobody will unlock, or in undefined behaviour.
\<close>

datatype 's outcome = Done 's | Threw 's | Blocked | Undefined_Behaviour

section \<open>Clients\<close>

definition AddClient :: "(string \<Rightarrow> 'a option) \<Rightarrow> client \<Rightarrow> 'a client_comm \<Rightarrow> 'a client_comm outcome" where
  "AddClient make_address c cc =
     (if clients_locked cc then Blocked
      else let cc = cc\<lparr>clients_locked := True\<rparr>
           in case ClientUdp_of_client make_address c of
                None \<Rightarrow> Threw cc
              | Some u \<Rightarrow> Done (cc\<lparr>clients := clients cc @ [u], clients_locked := False\<rparr>))"

fun emplace_all :: "(string \<Rightarrow> 'a option) \<Rightarrow> client list \<Rightarrow> 'a client_comm \<Rightarrow> 'a client_comm outcome" where
  "emplace_all make_address [] cc = Done (cc\<lparr>clients_locked := False\<rparr>)"
| "emplace_all make_address (c # cs) cc =
     (case ClientUdp_of_client make_address c of
        None \<Rightarrow> Threw cc
      | Some u \<Rightarrow> emplace_all make_address cs (cc\<lparr>clients := clients cc @ [u]\<rparr>))"

definition AddClients :: "(string \<Rightarrow> 'a option) \<Rightarrow> client list \<Rightarrow> 'a client_comm \<Rightarrow> 'a client_comm outcome" where
  "AddClients make_address cs cc =
     (if clients_locked cc then Blocked
      else emplace_all make_address cs (cc\<lparr>clients_locked := True\<rparr>))"

section \<open>The receive handler\<close>

text \<open>
  One client of the loop. An exception of \<open>DecodeDatagram\<close> is caught and reported; a read outside
  the buffer is undefined (None).
\<close>

definition receive_for :: "('a \<Rightarrow> string) \<Rightarrow> (u8 list \<Rightarrow> wire_input option) \<Rightarrow> datagram \<Rightarrow> bool \<Rightarrow>
    'a endpoint \<Rightarrow> u8 list \<Rightarrow> nat \<Rightarrow> 'a client_udp \<Rightarrow> game_logic \<Rightarrow> ('a client_udp \<times> game_logic) option" where
  "receive_for to_string get_input d0 assigned remote received len c gl =
     (if to_string (address remote) = Ip_v4 c
      then case DecodeDatagram get_input d0 received len c of
          (Read_Out_Of_Bounds, c) \<Rightarrow> None
        | (Exception e, c) \<Rightarrow> Some (c, gl)
        | (Result good_read, c) \<Rightarrow>
            if good_read
            then let gl = (if assigned then SetPlayerMovement (Input c) gl else gl)
                 in Some (c\<lparr>first_connection := False, remote_endpoint := remote\<rparr>, gl)
            else Some (c, gl)
      else Some (c, gl))"

fun receive_clients :: "('a client_udp \<Rightarrow> 's \<Rightarrow> ('a client_udp \<times> 's) option) \<Rightarrow>
    'a client_udp list \<Rightarrow> 's \<Rightarrow> ('a client_udp list \<times> 's) option" where
  "receive_clients step [] gl = Some ([], gl)"
| "receive_clients step (c # cs) gl =
     (case step c gl of
        None \<Rightarrow> None
      | Some (c', gl') \<Rightarrow> map_option (\<lambda>(cs', gl''). (c' # cs', gl'')) (receive_clients step cs gl'))"

definition receive_handler :: "('a \<Rightarrow> string) \<Rightarrow> (u8 list \<Rightarrow> wire_input option) \<Rightarrow> datagram \<Rightarrow>
    'a endpoint \<Rightarrow> u8 list \<Rightarrow> nat \<Rightarrow> 'a client_comm \<Rightarrow> game_logic \<Rightarrow>
    ('a client_comm \<times> game_logic) outcome" where
  "receive_handler to_string get_input d0 remote received len cc gl =
     (if clients_locked cc then Blocked
      else case receive_clients
          (receive_for to_string get_input d0 (logic_assigned cc) remote received len) (clients cc) gl of
          None \<Rightarrow> Undefined_Behaviour
        | Some (cs, gl') \<Rightarrow> Done (cc\<lparr>clients := cs\<rparr>, gl'))"

section \<open>The transmit handler\<close>

text \<open>
  The object is a local variable, like in \<open>DecodeDatagram\<close>. Without a game the builder is asked for
  a buffer that it has not finished, which FlatBuffers forbids: None.
\<close>

definition GetGameStatusIntoTransmitBuffer :: "(wire_game \<Rightarrow> u8 list) \<Rightarrow> datagram \<Rightarrow> game_logic \<Rightarrow>
    'a client_comm \<Rightarrow> 'a client_comm option" where
  "GetGameStatusIntoTransmitBuffer encode d0 gl cc =
     (if logic_assigned cc
      then case GetGameStatus gl of
          None \<Rightarrow> None
        | Some status \<Rightarrow>
            let d = SetVersion 100 d0;
                d = SetPayload (encode status) (length (encode status)) d;
                d = SetPayloadChecksum True d
            in Some (cc\<lparr>transmit_buffer := Get d\<rparr>)
      else Some cc)"

text \<open>
  The handler of the timer: what it sends, to whom, and how many new waits it starts. The body
  goes on after the first \<open>StartTransmit\<close>, so without game logic there are two.
\<close>

definition transmit_handler :: "(wire_game \<Rightarrow> u8 list) \<Rightarrow> datagram \<Rightarrow> game_logic \<Rightarrow> 'a client_comm \<Rightarrow>
    ('a client_comm \<times> ('a endpoint \<times> u8 list) list \<times> nat) outcome" where
  "transmit_handler encode d0 gl cc =
     (let waits = (if \<not> logic_assigned cc then 1 else 0)
      in case GetGameStatusIntoTransmitBuffer encode d0 gl cc of
          None \<Rightarrow> Undefined_Behaviour
        | Some cc \<Rightarrow>
            if clients_locked cc then Blocked
            else Done (cc, map (\<lambda>c. (remote_endpoint c, transmit_buffer cc)) (clients cc), waits + 1))"

section \<open>Library\<close>

text \<open>
  What a received datagram may do to a client and to the game: leave both, or give the client
  the movement of an input with its own id and hand exactly that to the game.
\<close>

definition accepted_from :: "'a endpoint \<Rightarrow> ('a \<Rightarrow> string) \<Rightarrow> 'a client_udp \<Rightarrow> 'a client_udp \<Rightarrow> bool" where
  "accepted_from remote to_string c c' \<longleftrightarrow> to_string (address remote) = Ip_v4 c \<and>
     same_identity c c' \<and> last_sequence c < last_sequence c' \<and> remote_endpoint c' = remote"

lemma receive_for_cases:
  assumes "receive_for to_string get_input d0 assigned remote received len c gl = Some (c', gl')"
    "own_input c"
  obtains (kept) "c' = c" "gl' = gl"
    | (accepted) "accepted_from remote to_string c c'" "own_input c'"
      "gl' = (if assigned then SetPlayerMovement (Input c') gl else gl)"
proof (cases "to_string (address remote) = Ip_v4 c")
  case False
  with assms(1) show ?thesis by (intro kept) (simp_all add: receive_for_def)
next
  case ip: True
  obtain r u where dec: "DecodeDatagram get_input d0 received len c = (r, u)" by (rule prod.exhaust)
  show ?thesis
  proof (cases "r = Result True")
    case True
    from dec True have seq: "last_sequence c < last_sequence u"
      by (cases rule: DecodeDatagram_cases) auto
    note keeps = DecodeDatagram_keeps [OF dec]
    from dec True assms(1) ip have
      c': "c' = u\<lparr>first_connection := False, remote_endpoint := remote\<rparr>"
      and gl': "gl' = (if assigned then SetPlayerMovement (Input u) gl else gl)"
      by (auto simp: receive_for_def Let_def)
    show ?thesis
      using seq keeps ip assms(2)
      by (intro accepted)
        (auto simp: c' gl' accepted_from_def same_identity_def own_input_def Input_def)
  next
    case False
    with dec have "u = c" by (cases rule: DecodeDatagram_cases) auto
    with dec False assms(1) ip show ?thesis
      by (intro kept) (auto simp: receive_for_def split: decoded.splits if_splits)
  qed
qed

text \<open>The inputs that a pass over the clients has handed to the game, in order.\<close>

inductive delivered :: "'a endpoint \<Rightarrow> ('a \<Rightarrow> string) \<Rightarrow> 'a client_udp list \<Rightarrow> 'a client_udp list \<Rightarrow>
    PlayerInput list \<Rightarrow> bool" for remote to_string where
  none: "delivered remote to_string [] [] []"
| same: "delivered remote to_string cs cs' is \<Longrightarrow> delivered remote to_string (c # cs) (c # cs') is"
| fresh: "accepted_from remote to_string c c' \<Longrightarrow> own_input c' \<Longrightarrow>
    delivered remote to_string cs cs' is \<Longrightarrow>
    delivered remote to_string (c # cs) (c' # cs') (input c' # is)"

lemma receive_clients_delivered:
  assumes "receive_clients (receive_for to_string get_input d0 True remote received len) cs gl = Some (cs', gl')"
    "list_all own_input cs"
  shows "\<exists>is. delivered remote to_string cs cs' is \<and> gl' = fold SetPlayerMovement is gl"
  using assms
proof (induction cs arbitrary: gl cs')
  case Nil
  then show ?case by (auto intro: delivered.none exI [of _ "[]"])
next
  case (Cons c cs)
  from Cons.prems(1) obtain c' gl1 cs1 where
    step: "receive_for to_string get_input d0 True remote received len c gl = Some (c', gl1)"
    and rest: "receive_clients (receive_for to_string get_input d0 True remote received len) cs gl1 = Some (cs1, gl')"
    and cs': "cs' = c' # cs1"
    by (auto split: option.splits)
  from Cons.IH [OF rest] Cons.prems(2) obtain "is" where
    is_del: "delivered remote to_string cs cs1 is" and is_gl: "gl' = fold SetPlayerMovement is gl1" by auto
  have "own_input c" using Cons.prems(2) by simp
  with step show ?case
  proof (cases rule: receive_for_cases)
    case kept
    with is_del is_gl cs' show ?thesis
      by (intro exI [of _ "is"]) (simp add: delivered.same)
  next
    case accepted
    with is_del is_gl cs' show ?thesis
      by (intro exI [of _ "input c' # is"]) (simp add: delivered.fresh Input_def)
  qed
qed

lemma delivered_inputs:
  "delivered remote to_string cs cs' is \<Longrightarrow>
     \<forall>i \<in> set is. \<exists>c \<in> set cs. input_id i = Id c \<and> Ip_v4 c = to_string (address remote)"
  by (induction rule: delivered.induct) (auto simp: accepted_from_def own_input_def same_identity_def)

lemma delivered_clients:
  "delivered remote to_string cs cs' is \<Longrightarrow>
     list_all2 (\<lambda>c c'. same_identity c c' \<and> last_sequence c \<le> last_sequence c' \<and>
       (Ip_v4 c \<noteq> to_string (address remote) \<longrightarrow> c' = c)) cs cs'"
  by (induction rule: delivered.induct) (auto simp: accepted_from_def)

lemma receive_clients_malformed:
  assumes "fst (Load received len d0) = Thrown e"
  shows "receive_clients (receive_for to_string get_input d0 assigned remote received len) cs gl =
    Some (cs, gl)"
proof (induction cs)
  case (Cons c cs)
  have "DecodeDatagram get_input d0 received len c = (Exception e, c)"
    using assms by (cases "Load received len d0") (simp add: DecodeDatagram_def)
  then have "receive_for to_string get_input d0 assigned remote received len c gl = Some (c, gl)"
    by (simp add: receive_for_def)
  with Cons show ?case by simp
qed simp

lemma AddClient_own_input:
  "AddClient make_address c cc = Done cc' \<Longrightarrow> list_all own_input (clients cc) \<Longrightarrow>
     list_all own_input (clients cc')"
  by (auto simp: AddClient_def ClientUdp_of_client_def Let_def split: if_splits option.splits
      dest: ClientUdp_own_input)

section \<open>Properties\<close>

definition example_comm :: "nat client_comm" where
  "example_comm = \<lparr>clients = [example_client\<lparr>input := default_input\<lparr>input_id := 5\<rparr>\<rparr>],
     clients_locked = False, logic_assigned = True, transmit_buffer = []\<rparr>"

definition example_to_string :: "nat \<Rightarrow> string" where
  "example_to_string n = (if n = 1 then ''10.0.0.1'' else ''0.0.0.0'')"

definition example_gl :: game_logic where
  "example_gl = NewGame origin (Fin 1000) ''WROCLAW'' 7 100 10 (GameLogic 0)"

text \<open>
  C22. What a datagram can do: when the receive handler returns, clients at other addresses than
  the sender's are as before, no client has another name, id, vehicle, address or a lower
  sequence number, and the game has only been given inputs whose ids are those of clients at
  the sender's address.
\<close>

theorem datagram_reaches_only_its_sender:
  assumes "receive_handler to_string get_input d0 remote received len cc gl = Done (cc', gl')"
    "logic_assigned cc" "list_all own_input (clients cc)"
  shows "list_all2 (\<lambda>c c'. same_identity c c' \<and> last_sequence c \<le> last_sequence c' \<and>
      (Ip_v4 c \<noteq> to_string (address remote) \<longrightarrow> c' = c)) (clients cc) (clients cc') \<and>
    (\<exists>is. gl' = fold SetPlayerMovement is gl \<and>
      (\<forall>i \<in> set is. \<exists>c \<in> set (clients cc). input_id i = Id c \<and> Ip_v4 c = to_string (address remote)))"
proof -
  from assms(1,2) obtain cs where
    r: "receive_clients (receive_for to_string get_input d0 True remote received len) (clients cc) gl = Some (cs, gl')"
    and cc': "cc' = cc\<lparr>clients := cs\<rparr>"
    by (auto simp: receive_handler_def split: if_splits option.splits)
  from receive_clients_delivered [OF r assms(3)] obtain "is" where
    "delivered remote to_string (clients cc) cs is" "gl' = fold SetPlayerMovement is gl" by blast
  then show ?thesis
    using delivered_clients delivered_inputs cc' by (simp, blast)
qed

theorem datagram_reaches_only_its_sender_witness:
  "\<exists>cc' gl'. receive_handler example_to_string example_view zero_datagram
      \<lparr>address = 1, port = 4000\<rparr> (Get (zero_datagram\<lparr>version := 101, payload := [0x41]\<rparr>)) 13
      example_comm example_gl = Done (cc', gl') \<and>
    list_all2 (\<lambda>c c'. Id c = Id c') (clients example_comm) (clients cc')"
proof -
  let ?d = "zero_datagram\<lparr>version := 101, payload := [0x41]\<rparr>"
  let ?c = "example_client\<lparr>input := default_input\<lparr>input_id := 5\<rparr>\<rparr>"
  have load: "Load (Get ?d) 13 zero_datagram = (Loaded, loaded_from ?d zero_datagram)"
    using Load_Get [of ?d 13 "[]" zero_datagram]
    by (simp add: zero_datagram_def Get_eq header_size_def)
  have "DecodeDatagram example_view zero_datagram (Get ?d) 13 ?c =
      (Result True, ?c\<lparr>input := (input ?c)\<lparr>move := True, direction := Fin 0\<rparr>, last_sequence := 1\<rparr>)"
    by (subst DecodeDatagram_accepts [OF load, of _ example_input])
      (simp_all add: Version_def loaded_from_def Payload_def example_view_def example_input_def
        example_client_def zero_datagram_def)
  then have "\<exists>cc' gl'. receive_handler example_to_string example_view zero_datagram
      \<lparr>address = 1, port = 4000\<rparr> (Get ?d) 13 example_comm example_gl = Done (cc', gl')"
    by (simp add: receive_handler_def example_comm_def receive_for_def example_to_string_def
        example_client_def Let_def)
  then obtain cc' gl' where r: "receive_handler example_to_string example_view zero_datagram
      \<lparr>address = 1, port = 4000\<rparr> (Get ?d) 13 example_comm example_gl = Done (cc', gl')"
    by blast
  have "list_all2 (\<lambda>c c'. Id c = Id c') (clients example_comm) (clients cc')"
    using datagram_reaches_only_its_sender [OF r]
    by (auto simp: example_comm_def own_input_def same_identity_def example_client_def
        elim!: list_all2_mono)
  with r show ?thesis by blast
qed

text \<open>
  A malformed datagram, one that \<open>Load\<close> rejects by an exception, changes neither any client nor
  the game, whatever address it comes from, and the handler returns.
\<close>

theorem malformed_datagram_ignored:
  assumes "fst (Load received len d0) = Thrown e" "\<not> clients_locked cc"
  shows "receive_handler to_string get_input d0 remote received len cc gl = Done (cc, gl)"
  using assms(2) by (simp add: receive_handler_def receive_clients_malformed [OF assms(1)])

theorem malformed_datagram_ignored_witness:
  "receive_handler example_to_string example_view zero_datagram \<lparr>address = 1, port = 4000\<rparr>
     [1, 2, 3] 3 example_comm example_gl = Done (example_comm, example_gl)"
  by (rule malformed_datagram_ignored [of _ _ _ Shorter_Than_Minimal])
    (simp_all add: Load_def example_comm_def)

text \<open>
  What the clients are sent: on each expiry of the timer one datagram for each client, to
  its current endpoint, which every receiver of this format loads as version 100 with a correct
  payload: the serialized status of the game as it is then.
\<close>

theorem status_arrives_intact:
  assumes "logic_assigned cc" "\<not> clients_locked cc" "GetGameStatus gl = Some status"
    "length (encode status) < 2 ^ 32"
  shows "\<exists>cc' bytes. transmit_handler encode d0 gl cc =
      Done (cc', map (\<lambda>c. (remote_endpoint c, bytes)) (clients cc), 1) \<and> clients cc' = clients cc \<and>
    (\<exists>d. Load bytes (length bytes) d1 = (Loaded, d) \<and> Version d = 100 \<and> PayloadCorrectness d \<and>
       Payload d = encode status)"
proof -
  let ?d = "SetPayloadChecksum True (SetPayload (encode status) (length (encode status)) (SetVersion 100 d0))"
  have d: "payload ?d = encode status" "version ?d = 100" "payload_checksum_included ?d"
    using assms(4) by (simp_all add: SetPayloadChecksum_def SetPayload_def SetVersion_def)
  have "Load (Get ?d) (length (Get ?d)) d1 = (Loaded, loaded_from ?d d1)"
    using Load_Get [of ?d _ "[]" d1] d(1) assms(4) by simp
  moreover have "Version (loaded_from ?d d1) = 100" "PayloadCorrectness (loaded_from ?d d1)"
    "Payload (loaded_from ?d d1) = encode status"
    using d assms(4)
    by (simp_all add: loaded_from_def Version_def PayloadCorrectness_def Payload_def unat_of_nat)
  ultimately show ?thesis
    using assms
    by (intro exI [of _ "cc\<lparr>transmit_buffer := Get ?d\<rparr>"] exI [of _ "Get ?d"])
      (auto simp: transmit_handler_def GetGameStatusIntoTransmitBuffer_def Let_def)
qed

theorem status_arrives_intact_witness:
  "\<exists>cc' bytes. transmit_handler (\<lambda>s. [1, 2, 3]) zero_datagram example_gl example_comm =
     Done (cc', [(\<lparr>address = 1, port = 9000\<rparr>, bytes)], 1)"
proof -
  have "GetGameStatus example_gl = Some (GenerateFlatbuffers (Game 100 origin (Fin 1000)) 0)"
    by (simp add: GetGameStatus_def example_gl_def NewGame_def GameLogic_def)
  from status_arrives_intact [of example_comm example_gl, OF _ _ this, of "\<lambda>s. [1, 2, 3]" zero_datagram zero_datagram]
  show ?thesis by (auto simp: example_comm_def example_client_def)
qed

text \<open>
  A client with an address that asio does not parse stops the communication for good: the
  constructor throws while \<open>AddClient\<close> holds \<open>clients_mutex_\<close>, which nothing unlocks again; adding
  clients, receiving and transmitting then wait for ever.
\<close>

theorem bad_address_blocks_communication:
  assumes "make_address (Ip_v4 c) = None" "\<not> clients_locked cc" "logic_assigned cc"
    "game gl \<noteq> None"
  shows "\<exists>cc'. AddClient make_address c cc = Threw cc' \<and>
    AddClient make_address' c' cc' = Blocked \<and>
    receive_handler to_string get_input d0 remote received len cc' gl = Blocked \<and>
    transmit_handler encode d1 gl cc' = Blocked"
  using assms
  by (auto simp: AddClient_def ClientUdp_of_client_def ClientUdp_def receive_handler_def
      transmit_handler_def GetGameStatusIntoTransmitBuffer_def GetGameStatus_def Let_def)

theorem bad_address_blocks_communication_witness:
  "\<exists>cc'. AddClient (\<lambda>ip. None) (Client ''ann'' 5 CAR ''localhost'' 9000) example_comm = Threw cc' \<and>
     receive_handler example_to_string example_view zero_datagram \<lparr>address = 1, port = 4000\<rparr>
       [] 0 cc' example_gl = Blocked"
  using bad_address_blocks_communication [of "\<lambda>ip. None" "Client ''ann'' 5 CAR ''localhost'' 9000"
      example_comm example_gl "\<lambda>ip. None" "Client ''ann'' 5 CAR ''localhost'' 9000" example_to_string
      example_view zero_datagram "\<lparr>address = 1, port = 4000\<rparr>" "[]" 0 "\<lambda>s. []" zero_datagram]
  by (auto simp: example_comm_def example_gl_def NewGame_def)

end
