(* ===== verification/Main_Process_Comm.thy ===== *)
theory Main_Process_Comm
  imports Stream_Delivery Client_Communication
begin

text \<open>
  main_process_comm/main_process_comm.cpp: the TCP side, through which the main process sends
  the players of a game and learns of its end. \<open>get_game\<close>, the FlatBuffers view of a payload with
  the accessors that \<open>LoadClients\<close> calls, is a parameter; it is None where these leave the payload
  or find a field missing. Message_Flow gives it by the generated code. \<open>rnd n\<close> are the samples of
  the position of the n-th player to be loaded.
\<close>

section \<open>The list of players\<close>

record wire_client =
  wc_name :: string
  wc_id :: u32
  wc_ip :: string
  wc_port :: u32
  wc_vehicle :: u8

definition GAME_CLIENTS_VERSION :: int where
  "GAME_CLIENTS_VERSION = 10"

text \<open>The vehicle is one byte of the message, any value of which may arrive.\<close>

definition vehicle_of :: "u8 \<Rightarrow> VehicleType" where
  "vehicle_of v = (if v = 0 then PEDESTRIAN else if v = 1 then CYCLIST else if v = 2 then CAR
     else PEDESTRIAN)"

definition client_of :: "wire_client \<Rightarrow> client" where
  "client_of w = Client (wc_name w) (wc_id w) (vehicle_of (wc_vehicle w)) (wc_ip w) (wc_port w)"

text \<open>
  What the handlers of this side change: the client communication, the game logic and the number
  of players loaded so far, by which their samples are found. An unassigned object is None.
\<close>

record 'a shared =
  comm :: "'a client_comm option"
  logic :: "game_logic option"
  drawn :: nat

definition MainProcessComm :: "'a shared" where
  "MainProcessComm = \<lparr>comm = None, logic = None, drawn = 0\<rparr>"

definition AssignClientCommunication :: "'a client_comm \<Rightarrow> 'a shared \<Rightarrow> 'a shared" where
  "AssignClientCommunication cc st = st\<lparr>comm := Some cc\<rparr>"

text \<open>\<open>MainProcessComm::AssignGameLogic\<close>; \<open>AssignGameLogic\<close> is that of the UDP side.\<close>

definition Main_AssignGameLogic :: "game_logic \<Rightarrow> 'a shared \<Rightarrow> 'a shared" where
  "Main_AssignGameLogic gl st = st\<lparr>logic := Some gl\<rparr>"

definition load_client :: "(string \<Rightarrow> 'a option) \<Rightarrow> (nat \<Rightarrow> double \<times> double) \<Rightarrow> bool \<Rightarrow> wire_client \<Rightarrow>
    'a shared \<Rightarrow> 'a shared outcome" where
  "load_client make_address rnd red w st =
     (let c = client_of w;
          add = (\<lambda>st. Done (st\<lparr>
            logic := map_option (Logic_AddPlayer (fst (rnd (drawn st))) (snd (rnd (drawn st))) c red) (logic st),
            drawn := drawn st + 1\<rparr>))
      in case comm st of
          None \<Rightarrow> add st
        | Some cc \<Rightarrow>
            (case AddClient make_address c cc of
               Done cc' \<Rightarrow> add (st\<lparr>comm := Some cc'\<rparr>)
             | Threw cc' \<Rightarrow> Threw (st\<lparr>comm := Some cc'\<rparr>)
             | Blocked \<Rightarrow> Blocked
             | Undefined_Behaviour \<Rightarrow> Undefined_Behaviour))"

text \<open>Statements in sequence.\<close>

fun and_then :: "'s outcome \<Rightarrow> ('s \<Rightarrow> 's outcome) \<Rightarrow> 's outcome" where
  "and_then (Done s) f = f s"
| "and_then (Threw s) f = Threw s"
| "and_then Blocked f = Blocked"
| "and_then Undefined_Behaviour f = Undefined_Behaviour"

fun in_order :: "('x \<Rightarrow> 's \<Rightarrow> 's outcome) \<Rightarrow> 'x list \<Rightarrow> 's \<Rightarrow> 's outcome" where
  "in_order f [] s = Done s"
| "in_order f (x # xs) s = and_then (f x s) (in_order f xs)"

definition LoadClients :: "(string \<Rightarrow> 'a option) \<Rightarrow> (nat \<Rightarrow> double \<times> double) \<Rightarrow>
    (u8 list \<Rightarrow> wire_client list list option) \<Rightarrow> datagram \<Rightarrow> 'a shared \<Rightarrow> 'a shared outcome" where
  "LoadClients make_address rnd get_game d st =
     (if Version d \<noteq> GAME_CLIENTS_VERSION then Done st
      else case get_game (Payload d) of
          None \<Rightarrow> Undefined_Behaviour
        | Some teams \<Rightarrow>
            if length teams < 2 then Done st
            else in_order (\<lambda>i. in_order (load_client make_address rnd (i = 0)) (teams ! i)) [0, 1] st)"

section \<open>The receive handler\<close>

definition handle_datagram :: "(string \<Rightarrow> 'a option) \<Rightarrow> (nat \<Rightarrow> double \<times> double) \<Rightarrow>
    (u8 list \<Rightarrow> wire_client list list option) \<Rightarrow> datagram \<Rightarrow> 'a shared \<Rightarrow> 'a shared outcome" where
  "handle_datagram make_address rnd get_game d st =
     (if PayloadCorrectness d then LoadClients make_address rnd get_game d st else Done st)"

text \<open>
  The loop over \<open>FlushData\<close>. The stream is a member too: it is paired with the rest. An exception
  leaves the handler, and with it \<open>run\<close> and the thread.
\<close>

function flush_loop :: "(datagram \<Rightarrow> 's \<Rightarrow> 's outcome) \<Rightarrow> stream \<Rightarrow> 's \<Rightarrow> (stream \<times> 's) outcome" where
  "flush_loop handle s st =
     (case FlushData s of
        None \<Rightarrow> Undefined_Behaviour
      | Some (False, s') \<Rightarrow> Done (s', st)
      | Some (True, s') \<Rightarrow>
          (case handle (base s') st of
             Done st' \<Rightarrow> flush_loop handle s' st'
           | Threw st' \<Rightarrow> Threw (s', st')
           | Blocked \<Rightarrow> Blocked
           | Undefined_Behaviour \<Rightarrow> Undefined_Behaviour))"
  by pat_completeness auto
termination
  by (relation "measure (\<lambda>(handle, s, st). length (buffer s))") (auto intro: FlushData_True_length)

declare flush_loop.simps [simp del]

definition main_receive_handler :: "(datagram \<Rightarrow> 's \<Rightarrow> 's outcome) \<Rightarrow> u8 list \<Rightarrow> stream \<Rightarrow> 's \<Rightarrow>
    (stream \<times> 's) outcome" where
  "main_receive_handler handle data s st =
     (case AddData s data of
        None \<Rightarrow> Undefined_Behaviour
      | Some (False, s') \<Rightarrow> Done (s', st)
      | Some (True, s') \<Rightarrow>
          (case handle (base s') st of
             Done st' \<Rightarrow> flush_loop handle s' st'
           | Threw st' \<Rightarrow> Threw (s', st')
           | Blocked \<Rightarrow> Blocked
           | Undefined_Behaviour \<Rightarrow> Undefined_Behaviour))"

section \<open>Messages to the main process\<close>

text \<open>\<open>payload\<close> is what the FlatBuffers builder has made of the game id or of the end of the game.\<close>

definition TransmitGameId :: "(u32 \<Rightarrow> u8 list) \<Rightarrow> datagram \<Rightarrow> u32 \<Rightarrow> u8 list" where
  "TransmitGameId encode d0 own_id =
     (let d = SetVersion 12 d0;
          d = SetPayloadChecksum False d;
          d = SetPayload (encode own_id) (length (encode own_id)) d
      in Get d)"

definition SendGameFinished :: "(bool \<Rightarrow> u8 list) \<Rightarrow> datagram \<Rightarrow> u8 list" where
  "SendGameFinished encode d0 =
     (let d = SetVersion 11 d0;
          d = SetPayloadChecksum False d;
          d = SetPayload (encode True) (length (encode True)) d
      in Get d)"

section \<open>Library\<close>

lemma main_receive_handler_flush_loop:
  "main_receive_handler handle data s st = flush_loop handle (push s data) st"
  by (simp add: main_receive_handler_def AddData_push flush_loop.simps [of handle "push s data"])

text \<open>The loop handles exactly the datagrams that the stream delivers, in their order.\<close>

lemma flush_loop_drain:
  "drain s = Some (ms, t) \<Longrightarrow>
     (case in_order handle ms st of
        Done st' \<Rightarrow> flush_loop handle s st = Done (t, st')
      | Threw st' \<Rightarrow> \<exists>u. flush_loop handle s st = Threw (u, st')
      | Blocked \<Rightarrow> flush_loop handle s st = Blocked
      | Undefined_Behaviour \<Rightarrow> flush_loop handle s st = Undefined_Behaviour)"
proof (induction ms arbitrary: s st)
  case Nil
  then have "FlushData s = Some (False, t)" by (simp add: stream.drain_Nil)
  then show ?case by (simp add: flush_loop.simps [of handle s])
next
  case (Cons m ms)
  then obtain u where u: "FlushData s = Some (True, u)" "m = base u" "drain u = Some (ms, t)"
    by (auto simp: stream.drain_Cons)
  show ?case
  proof (cases "handle m st")
    case (Done st')
    with u have "flush_loop handle s st = flush_loop handle u st'"
      by (simp add: flush_loop.simps [of handle s])
    with Cons.IH [OF u(3), of st'] Done show ?thesis
      by (cases "in_order handle ms st'") simp_all
  qed (use u in \<open>simp_all add: flush_loop.simps [of handle s]\<close>)
qed

lemma in_order_append: "in_order f (xs @ ys) s = and_then (in_order f xs s) (in_order f ys)"
proof (induction xs arbitrary: s)
  case (Cons x xs)
  then show ?case by (cases "f x s") simp_all
qed simp

lemma load_client_Done:
  assumes "load_client make_address rnd red w st = Done st'" "comm st = Some cc" "logic st = Some gl"
    "game gl = Some g"
  obtains cc' g' where "comm st' = Some cc'" "logic st' = Some (gl\<lparr>game := Some g'\<rparr>)"
    "map Id (clients cc') = map Id (clients cc) @ [wc_id w]"
    "map player_id (players (red_team g')) = map player_id (players (red_team g)) @ (if red then [wc_id w] else [])"
    "map player_id (players (blue_team g')) = map player_id (players (blue_team g)) @ (if red then [] else [wc_id w])"
proof -
  from assms(1,2) obtain cc' where add: "AddClient make_address (client_of w) cc = Done cc'"
    and st': "st' = st\<lparr>comm := Some cc', logic := map_option (Logic_AddPlayer (fst (rnd (drawn st)))
        (snd (rnd (drawn st))) (client_of w) red) (logic st), drawn := drawn st + 1\<rparr>"
    by (auto simp: load_client_def Let_def split: outcome.splits)
  from add have "map Id (clients cc') = map Id (clients cc) @ [wc_id w]"
    by (auto simp: AddClient_def ClientUdp_of_client_def ClientUdp_eq client_of_def Client_def Let_def
        split: if_splits option.splits)
  with st' assms(3,4) show ?thesis
    by (intro that [of cc' "AddPlayer (fst (rnd (drawn st))) (snd (rnd (drawn st))) (wc_name w) (wc_id w)
        (vehicle_of (wc_vehicle w)) red g"])
      (auto simp: Logic_AddPlayer_def client_of_def Client_def AddPlayer_def Team_AddPlayer_def
        SetPosition_def Player_def Let_def)
qed

lemma load_team_Done:
  assumes "in_order (load_client make_address rnd red) ws st = Done st'" "comm st = Some cc"
    "logic st = Some gl" "game gl = Some g"
  shows "\<exists>cc' g'. comm st' = Some cc' \<and> logic st' = Some (gl\<lparr>game := Some g'\<rparr>) \<and>
    map Id (clients cc') = map Id (clients cc) @ map wc_id ws \<and>
    map player_id (players (red_team g')) = map player_id (players (red_team g)) @ (if red then map wc_id ws else []) \<and>
    map player_id (players (blue_team g')) = map player_id (players (blue_team g)) @ (if red then [] else map wc_id ws)"
  using assms
proof (induction ws arbitrary: st cc gl g)
  case Nil
  then show ?case by (auto intro: exI [of _ g])
next
  case (Cons w ws)
  from Cons.prems(1) obtain st1 where
    w: "load_client make_address rnd red w st = Done st1"
    and ws: "in_order (load_client make_address rnd red) ws st1 = Done st'"
    by (cases "load_client make_address rnd red w st") auto
  from load_client_Done [OF w Cons.prems(2-4)] obtain cc1 g1 where
    1: "comm st1 = Some cc1" "logic st1 = Some (gl\<lparr>game := Some g1\<rparr>)"
      "map Id (clients cc1) = map Id (clients cc) @ [wc_id w]"
      "map player_id (players (red_team g1)) = map player_id (players (red_team g)) @ (if red then [wc_id w] else [])"
      "map player_id (players (blue_team g1)) = map player_id (players (blue_team g)) @ (if red then [] else [wc_id w])" .
  from Cons.IH [OF ws 1(1,2)] 1(3-5) show ?case by auto
qed

text \<open>Loading returns if the mutex of the clients is free and every address can be parsed.\<close>

lemma load_team_returns:
  assumes "comm st = Some cc" "\<not> clients_locked cc" "\<forall>w \<in> set ws. make_address (wc_ip w) \<noteq> None"
  shows "\<exists>st' cc'. in_order (load_client make_address rnd red) ws st = Done st' \<and> comm st' = Some cc' \<and>
    \<not> clients_locked cc'"
  using assms
proof (induction ws arbitrary: st cc)
  case (Cons w ws)
  from Cons.prems obtain st1 cc1 where
    w: "load_client make_address rnd red w st = Done st1" "comm st1 = Some cc1" "\<not> clients_locked cc1"
    by (auto simp: load_client_def AddClient_def ClientUdp_of_client_def ClientUdp_def client_of_def Client_def Let_def)
  from Cons.IH [OF w(2,3)] Cons.prems(3) w(1) show ?case by simp
qed simp

section \<open>Properties\<close>

text \<open>
  C12. The receive handler implements its purpose: where the stream delivers the datagrams \<open>ms\<close> for
  the received bytes, the handler has the effect of handling these in order, once each, and
  keeps the stream; an exception on the way, or a wait for ever, cuts the sequence there.
\<close>

theorem receive_handler_handles_what_is_delivered:
  assumes "receive s data = Some (ms, t)"
  shows "case in_order handle ms st of
      Done st' \<Rightarrow> main_receive_handler handle data s st = Done (t, st')
    | Threw st' \<Rightarrow> \<exists>u. main_receive_handler handle data s st = Threw (u, st')
    | Blocked \<Rightarrow> main_receive_handler handle data s st = Blocked
    | Undefined_Behaviour \<Rightarrow> main_receive_handler handle data s st = Undefined_Behaviour"
  unfolding main_receive_handler_flush_loop
  by (rule flush_loop_drain) (use assms in \<open>simp add: receive_drain\<close>)

lemma example_receive: "\<exists>m t. receive (new_stream zero_datagram) (Get example_datagram @ [7]) = Some ([m], t)"
  using drain_frames [of "[([], example_datagram)]" "[7]" "push (new_stream zero_datagram) (Get example_datagram @ [7])"]
  by (auto simp: receive_drain new_stream_def sent_def sendable_def example_datagram_def
      zero_datagram_def LOWER_def BEGIN_SEQUENCE_def list_all2_Cons1)

theorem receive_handler_handles_what_is_delivered_witness:
  "\<exists>t. main_receive_handler (\<lambda>d n. Done (n + 1)) (Get example_datagram @ [7])
     (new_stream zero_datagram) (0 :: nat) = Done (t, 1)"
proof -
  from example_receive obtain m t where
    "receive (new_stream zero_datagram) (Get example_datagram @ [7]) = Some ([m], t)" by blast
  from receive_handler_handles_what_is_delivered [OF this, of "\<lambda>d n. Done (n + 1)" "0 :: nat"]
  show ?thesis by auto
qed

text \<open>
  Loading a list of players: where the mutex is free and the addresses can be parsed, \<open>LoadClients\<close>
  returns, the players of the first team have joined the red team and those of the
  second the blue, in order, each is a client of the UDP communication too, further teams are
  ignored, and nothing else of the game logic has changed.
\<close>

theorem LoadClients_loads_both_teams:
  assumes "Version d = 10" "get_game (Payload d) = Some (red # blue # others)"
    "\<forall>w \<in> set (red @ blue). make_address (wc_ip w) \<noteq> None"
    "comm st = Some cc" "\<not> clients_locked cc" "logic st = Some gl" "game gl = Some g"
  shows "\<exists>st' cc' g'. LoadClients make_address rnd get_game d st = Done st' \<and>
    comm st' = Some cc' \<and> logic st' = Some (gl\<lparr>game := Some g'\<rparr>) \<and>
    map Id (clients cc') = map Id (clients cc) @ map wc_id (red @ blue) \<and>
    map player_id (players (red_team g')) = map player_id (players (red_team g)) @ map wc_id red \<and>
    map player_id (players (blue_team g')) = map player_id (players (blue_team g)) @ map wc_id blue"
proof -
  let ?load = "\<lambda>red. load_client make_address rnd red"
  have addr: "\<forall>w \<in> set red. make_address (wc_ip w) \<noteq> None" "\<forall>w \<in> set blue. make_address (wc_ip w) \<noteq> None"
    using assms(3) by simp_all
  from load_team_returns [OF assms(4,5) addr(1), of rnd True] obtain st1 cc1 where
    r: "in_order (?load True) red st = Done st1" "comm st1 = Some cc1" "\<not> clients_locked cc1" by blast
  from load_team_returns [OF r(2,3) addr(2), of rnd False] obtain st' where
    b: "in_order (?load False) blue st1 = Done st'" by blast
  have "LoadClients make_address rnd get_game d st = Done st'"
    using assms(1,2) r(1) b by (simp add: LoadClients_def GAME_CLIENTS_VERSION_def)
  moreover from load_team_Done [OF r(1) assms(4,6,7)] r(2) obtain g1 where
    1: "logic st1 = Some (gl\<lparr>game := Some g1\<rparr>)"
      "map Id (clients cc1) = map Id (clients cc) @ map wc_id red"
      "map player_id (players (red_team g1)) = map player_id (players (red_team g)) @ map wc_id red"
      "map player_id (players (blue_team g1)) = map player_id (players (blue_team g))"
    by auto
  ultimately show ?thesis using load_team_Done [OF b r(2) 1(1)] 1(2-4) by auto
qed

definition example_shared :: "nat shared" where
  "example_shared = \<lparr>comm = Some (AssignGameLogic ClientCommunication), logic = Some example_gl, drawn = 0\<rparr>"

definition example_wire :: "u32 \<Rightarrow> wire_client" where
  "example_wire n = \<lparr>wc_name = ''ann'', wc_id = n, wc_ip = ''10.0.0.1'', wc_port = 9000, wc_vehicle = 2\<rparr>"

theorem LoadClients_loads_both_teams_witness:
  "\<exists>st' cc'. LoadClients (\<lambda>ip. Some (1 :: nat)) (\<lambda>n. (Fin 0, Fin 0))
     (\<lambda>p. Some [[example_wire 5], [example_wire 6]]) (zero_datagram\<lparr>version := 10\<rparr>) example_shared = Done st' \<and>
   comm st' = Some cc' \<and> map Id (clients cc') = [5, 6]"
proof -
  have gl: "game example_gl = Some (Game 100 origin (Fin 1000))"
    by (simp add: example_gl_def NewGame_def)
  from LoadClients_loads_both_teams [of "zero_datagram\<lparr>version := 10\<rparr>" "\<lambda>p. Some [[example_wire 5], [example_wire 6]]"
      "[example_wire 5]" "[example_wire 6]" "[]" "\<lambda>ip. Some (1 :: nat)" example_shared _ _ _ "\<lambda>n. (Fin 0, Fin 0)",
      OF _ _ _ _ _ _ gl]
  show ?thesis
    by (auto simp: example_shared_def Version_def AssignGameLogic_def ClientCommunication_def
        example_wire_def)
qed

lemma plain_message:
  assumes "length p < 2 ^ 32" "v AND 0x7FFF = v" "v AND 0x00FF = v"
  shows "\<exists>d. Load (Get (SetPayload p (length p) (SetPayloadChecksum False (SetVersion v d0))))
      (length (Get (SetPayload p (length p) (SetPayloadChecksum False (SetVersion v d0))))) d1 = (Loaded, d) \<and>
    version d = v \<and> Payload d = p \<and> PayloadCorrectness d"
proof -
  let ?d = "SetPayload p (length p) (SetPayloadChecksum False (SetVersion v d0))"
  have d: "payload ?d = p" "version ?d = v" "\<not> payload_checksum_included ?d"
    using assms by (simp_all add: SetPayload_def SetPayloadChecksum_def SetVersion_def)
  have "Load (Get ?d) (length (Get ?d)) d1 = (Loaded, loaded_from ?d d1)"
    using Load_Get [of ?d _ "[]" d1] d(1) assms(1) by simp
  then show ?thesis
    using d assms by (simp add: loaded_from_def Payload_def PayloadCorrectness_def unat_of_nat)
qed

text \<open>
  The messages to the main process arrive: the game id is loaded as version 12 and the end of
  the game as version 11, with exactly the bytes of the builder as the payload.
\<close>

theorem messages_to_main_process_arrive:
  assumes "length (encode_id n) < 2 ^ 32" "length (encode_end True) < 2 ^ 32"
  shows "(\<exists>d. Load (TransmitGameId encode_id d0 n) (length (TransmitGameId encode_id d0 n)) d1 = (Loaded, d) \<and>
      Version d = 12 \<and> Payload d = encode_id n \<and> PayloadCorrectness d) \<and>
    (\<exists>d. Load (SendGameFinished encode_end d0) (length (SendGameFinished encode_end d0)) d1 = (Loaded, d) \<and>
      Version d = 11 \<and> Payload d = encode_end True \<and> PayloadCorrectness d)"
  using plain_message [OF assms(1), of 12 d0 d1] plain_message [OF assms(2), of 11 d0 d1]
  by (auto simp: TransmitGameId_def SendGameFinished_def Let_def Version_def)

theorem messages_to_main_process_arrive_witness:
  "\<exists>d. Load (TransmitGameId (\<lambda>n. [ucast n]) zero_datagram 7)
     (length (TransmitGameId (\<lambda>n. [ucast n]) zero_datagram 7)) zero_datagram = (Loaded, d) \<and> Payload d = [7]"
  using messages_to_main_process_arrive [of "\<lambda>n. [ucast n]" 7 "\<lambda>b. [1]" zero_datagram zero_datagram]
  by auto

end
