(* ===== verification/Game_Message.thy ===== *)
theory Game_Message
  imports Flatbuffers Main_Process_Comm
begin

text \<open>
  inc/game_generated.h: the list of players that the main process sends, with its tables, their
  builders and checks; how the test server writes such a list; and the fields that \<open>LoadClients\<close>
  reads, with a pointer that is null where the sender left a field out.
\<close>

section \<open>The enumeration FVehicleType\<close>

text \<open>An enumeration holds any value of its byte, which is read as signed.\<close>

definition FVehicleType_Pedestrian :: u8 where "FVehicleType_Pedestrian = 0"
definition FVehicleType_Cyclist :: u8 where "FVehicleType_Cyclist = 1"
definition FVehicleType_Car :: u8 where "FVehicleType_Car = 2"
definition FVehicleType_MIN :: u8 where "FVehicleType_MIN = FVehicleType_Pedestrian"
definition FVehicleType_MAX :: u8 where "FVehicleType_MAX = FVehicleType_Car"

lemmas FVehicleType_defs = FVehicleType_Pedestrian_def FVehicleType_Cyclist_def FVehicleType_Car_def FVehicleType_MIN_def FVehicleType_MAX_def

definition EnumValuesFVehicleType :: "u8 list" where
  "EnumValuesFVehicleType = [FVehicleType_Pedestrian, FVehicleType_Cyclist, FVehicleType_Car]"

definition EnumNamesFVehicleType :: "string option list" where
  "EnumNamesFVehicleType = [Some ''Pedestrian'', Some ''Cyclist'', Some ''Car'', None]"

definition EnumNameFVehicleType :: "('b, 'o, 'p, 'v) flatbuffers \<Rightarrow> u8 \<Rightarrow> string option" where
  "EnumNameFVehicleType L e =
     (if fb_IsOutRange L e FVehicleType_Pedestrian FVehicleType_Car then Some []
      else EnumNamesFVehicleType ! unat e)"

section \<open>The table FVehicle\<close>

definition FVehicle_VT_VEHICLETYPE :: voffset where "FVehicle_VT_VEHICLETYPE = 4"

lemmas FVehicle_VT = FVehicle_VT_VEHICLETYPE_def

definition FVehicle_vehicleType :: "('b, 'o, 'p, 'v) flatbuffers \<Rightarrow> 'p \<Rightarrow> u8" where
  "FVehicle_vehicleType L p = int8_of (fb_GetField L p FVehicle_VT_VEHICLETYPE (Int8 0))"

definition FVehicle_Verify :: "('b, 'o, 'p, 'v) flatbuffers \<Rightarrow> 'p \<Rightarrow> 'v check" where
  "FVehicle_Verify L p = all_of
     [fb_VerifyTableStart L p,
      fb_VerifyField L p (Int8 0) FVehicle_VT_VEHICLETYPE,
      fb_VerifyEndTable L]"

definition FVehicleBuilder_add_vehicleType :: "('b, 'o, 'p, 'v) flatbuffers \<Rightarrow> u8 \<Rightarrow> 'b \<Rightarrow> 'b option" where
  "FVehicleBuilder_add_vehicleType L v = fb_AddElement L FVehicle_VT_VEHICLETYPE (Int8 v) (Int8 0)"

definition FVehicleBuilder :: "('b, 'o, 'p, 'v) flatbuffers \<Rightarrow> ('b, 'o) build" where
  "FVehicleBuilder L b = fb_StartTable L b"

definition FVehicleBuilder_Finish :: "('b, 'o, 'p, 'v) flatbuffers \<Rightarrow> 'o \<Rightarrow> ('b, 'o) build" where
  "FVehicleBuilder_Finish L start b = fb_EndTable L start b"

lemmas FVehicleBuilder_defs = FVehicleBuilder_def FVehicleBuilder_add_vehicleType_def FVehicleBuilder_Finish_def

definition CreateFVehicle :: "('b, 'o, 'p, 'v) flatbuffers \<Rightarrow> u8 \<Rightarrow>
    ('b, 'o) build" where
  "CreateFVehicle L vehicleType' b = do {
     (start, b) \<leftarrow> FVehicleBuilder L b;
     b \<leftarrow> FVehicleBuilder_add_vehicleType L vehicleType' b;
     FVehicleBuilder_Finish L start b }"

section \<open>The table FClient\<close>

definition FClient_VT_NAME :: voffset where "FClient_VT_NAME = 4"
definition FClient_VT_ID :: voffset where "FClient_VT_ID = 6"
definition FClient_VT_IPADDRESS :: voffset where "FClient_VT_IPADDRESS = 8"
definition FClient_VT_PORT :: voffset where "FClient_VT_PORT = 10"
definition FClient_VT_VEHICLE :: voffset where "FClient_VT_VEHICLE = 12"

lemmas FClient_VT = FClient_VT_NAME_def FClient_VT_ID_def FClient_VT_IPADDRESS_def
  FClient_VT_PORT_def FClient_VT_VEHICLE_def

definition FClient_name :: "('b, 'o, 'p, 'v) flatbuffers \<Rightarrow> 'p \<Rightarrow> 'p option" where
  "FClient_name L p = fb_GetPointer L p FClient_VT_NAME"

definition FClient_id :: "('b, 'o, 'p, 'v) flatbuffers \<Rightarrow> 'p \<Rightarrow> u32" where
  "FClient_id L p = uint32_of (fb_GetField L p FClient_VT_ID (Uint32 0))"

definition FClient_ipAddress :: "('b, 'o, 'p, 'v) flatbuffers \<Rightarrow> 'p \<Rightarrow> 'p option" where
  "FClient_ipAddress L p = fb_GetPointer L p FClient_VT_IPADDRESS"

definition FClient_port :: "('b, 'o, 'p, 'v) flatbuffers \<Rightarrow> 'p \<Rightarrow> u32" where
  "FClient_port L p = int32_of (fb_GetField L p FClient_VT_PORT (Int32 0))"

definition FClient_vehicle :: "('b, 'o, 'p, 'v) flatbuffers \<Rightarrow> 'p \<Rightarrow> 'p option" where
  "FClient_vehicle L p = fb_GetPointer L p FClient_VT_VEHICLE"

definition FClient_Verify :: "('b, 'o, 'p, 'v) flatbuffers \<Rightarrow> 'p \<Rightarrow> 'v check" where
  "FClient_Verify L p = all_of
     [fb_VerifyTableStart L p,
      fb_VerifyOffset L p FClient_VT_NAME,
      fb_VerifyString L (FClient_name L p),
      fb_VerifyField L p (Uint32 0) FClient_VT_ID,
      fb_VerifyOffset L p FClient_VT_IPADDRESS,
      fb_VerifyString L (FClient_ipAddress L p),
      fb_VerifyField L p (Int32 0) FClient_VT_PORT,
      fb_VerifyOffset L p FClient_VT_VEHICLE,
      fb_VerifyTable L (FVehicle_Verify L) (FClient_vehicle L p),
      fb_VerifyEndTable L]"

definition FClientBuilder_add_name :: "('b, 'o, 'p, 'v) flatbuffers \<Rightarrow> 'o \<Rightarrow> 'b \<Rightarrow> 'b option" where
  "FClientBuilder_add_name L x = fb_AddOffset L FClient_VT_NAME x"

definition FClientBuilder_add_id :: "('b, 'o, 'p, 'v) flatbuffers \<Rightarrow> u32 \<Rightarrow> 'b \<Rightarrow> 'b option" where
  "FClientBuilder_add_id L v = fb_AddElement L FClient_VT_ID (Uint32 v) (Uint32 0)"

definition FClientBuilder_add_ipAddress :: "('b, 'o, 'p, 'v) flatbuffers \<Rightarrow> 'o \<Rightarrow> 'b \<Rightarrow> 'b option" where
  "FClientBuilder_add_ipAddress L x = fb_AddOffset L FClient_VT_IPADDRESS x"

definition FClientBuilder_add_port :: "('b, 'o, 'p, 'v) flatbuffers \<Rightarrow> u32 \<Rightarrow> 'b \<Rightarrow> 'b option" where
  "FClientBuilder_add_port L v = fb_AddElement L FClient_VT_PORT (Int32 v) (Int32 0)"

definition FClientBuilder_add_vehicle :: "('b, 'o, 'p, 'v) flatbuffers \<Rightarrow> 'o \<Rightarrow> 'b \<Rightarrow> 'b option" where
  "FClientBuilder_add_vehicle L x = fb_AddOffset L FClient_VT_VEHICLE x"

definition FClientBuilder :: "('b, 'o, 'p, 'v) flatbuffers \<Rightarrow> ('b, 'o) build" where
  "FClientBuilder L b = fb_StartTable L b"

definition FClientBuilder_Finish :: "('b, 'o, 'p, 'v) flatbuffers \<Rightarrow> 'o \<Rightarrow> ('b, 'o) build" where
  "FClientBuilder_Finish L start b = fb_EndTable L start b"

lemmas FClientBuilder_defs = FClientBuilder_def FClientBuilder_add_name_def FClientBuilder_add_id_def
  FClientBuilder_add_ipAddress_def FClientBuilder_add_port_def FClientBuilder_add_vehicle_def
  FClientBuilder_Finish_def

definition CreateFClient :: "('b, 'o, 'p, 'v) flatbuffers \<Rightarrow> 'o \<Rightarrow> u32 \<Rightarrow> 'o \<Rightarrow> u32 \<Rightarrow> 'o \<Rightarrow>
    ('b, 'o) build" where
  "CreateFClient L name' id' ipAddress' port' vehicle' b = do {
     (start, b) \<leftarrow> FClientBuilder L b;
     b \<leftarrow> FClientBuilder_add_vehicle L vehicle' b;
     b \<leftarrow> FClientBuilder_add_port L port' b;
     b \<leftarrow> FClientBuilder_add_ipAddress L ipAddress' b;
     b \<leftarrow> FClientBuilder_add_id L id' b;
     b \<leftarrow> FClientBuilder_add_name L name' b;
     FClientBuilder_Finish L start b }"

definition CreateFClientDirect :: "('b, 'o, 'p, 'v) flatbuffers \<Rightarrow> string option \<Rightarrow> u32 \<Rightarrow> string option \<Rightarrow>
    u32 \<Rightarrow> 'o \<Rightarrow> ('b, 'o) build" where
  "CreateFClientDirect L name' id' ipAddress' port' vehicle' b = do {
     (name', b) \<leftarrow> string_or_null L name' b;
     (ipAddress', b) \<leftarrow> string_or_null L ipAddress' b;
     CreateFClient L name' id' ipAddress' port' vehicle' b }"

section \<open>The table FTeam\<close>

definition FTeam_VT_CLIENTS :: voffset where "FTeam_VT_CLIENTS = 4"

lemmas FTeam_VT = FTeam_VT_CLIENTS_def

definition FTeam_clients :: "('b, 'o, 'p, 'v) flatbuffers \<Rightarrow> 'p \<Rightarrow> 'p option" where
  "FTeam_clients L p = fb_GetPointer L p FTeam_VT_CLIENTS"

definition FTeam_Verify :: "('b, 'o, 'p, 'v) flatbuffers \<Rightarrow> 'p \<Rightarrow> 'v check" where
  "FTeam_Verify L p = all_of
     [fb_VerifyTableStart L p,
      fb_VerifyOffset L p FTeam_VT_CLIENTS,
      fb_VerifyVector L (FTeam_clients L p),
      fb_VerifyVectorOfTables L (FClient_Verify L) (FTeam_clients L p),
      fb_VerifyEndTable L]"

definition FTeamBuilder_add_clients :: "('b, 'o, 'p, 'v) flatbuffers \<Rightarrow> 'o \<Rightarrow> 'b \<Rightarrow> 'b option" where
  "FTeamBuilder_add_clients L x = fb_AddOffset L FTeam_VT_CLIENTS x"

definition FTeamBuilder :: "('b, 'o, 'p, 'v) flatbuffers \<Rightarrow> ('b, 'o) build" where
  "FTeamBuilder L b = fb_StartTable L b"

definition FTeamBuilder_Finish :: "('b, 'o, 'p, 'v) flatbuffers \<Rightarrow> 'o \<Rightarrow> ('b, 'o) build" where
  "FTeamBuilder_Finish L start b = fb_EndTable L start b"

lemmas FTeamBuilder_defs = FTeamBuilder_def FTeamBuilder_add_clients_def FTeamBuilder_Finish_def

definition CreateFTeam :: "('b, 'o, 'p, 'v) flatbuffers \<Rightarrow> 'o \<Rightarrow>
    ('b, 'o) build" where
  "CreateFTeam L clients' b = do {
     (start, b) \<leftarrow> FTeamBuilder L b;
     b \<leftarrow> FTeamBuilder_add_clients L clients' b;
     FTeamBuilder_Finish L start b }"

definition CreateFTeamDirect :: "('b, 'o, 'p, 'v) flatbuffers \<Rightarrow> 'o list option \<Rightarrow> ('b, 'o) build" where
  "CreateFTeamDirect L clients' b = do {
     (clients', b) \<leftarrow> vector_or_null L clients' b;
     CreateFTeam L clients' b }"

section \<open>The table FGame\<close>

definition FGame_VT_ID :: voffset where "FGame_VT_ID = 4"
definition FGame_VT_TEAMS :: voffset where "FGame_VT_TEAMS = 6"

lemmas FGame_VT = FGame_VT_ID_def FGame_VT_TEAMS_def

definition FGame_id :: "('b, 'o, 'p, 'v) flatbuffers \<Rightarrow> 'p \<Rightarrow> u32" where
  "FGame_id L p = int32_of (fb_GetField L p FGame_VT_ID (Int32 0))"

definition FGame_teams :: "('b, 'o, 'p, 'v) flatbuffers \<Rightarrow> 'p \<Rightarrow> 'p option" where
  "FGame_teams L p = fb_GetPointer L p FGame_VT_TEAMS"

definition FGame_Verify :: "('b, 'o, 'p, 'v) flatbuffers \<Rightarrow> 'p \<Rightarrow> 'v check" where
  "FGame_Verify L p = all_of
     [fb_VerifyTableStart L p,
      fb_VerifyField L p (Int32 0) FGame_VT_ID,
      fb_VerifyOffset L p FGame_VT_TEAMS,
      fb_VerifyVector L (FGame_teams L p),
      fb_VerifyVectorOfTables L (FTeam_Verify L) (FGame_teams L p),
      fb_VerifyEndTable L]"

definition FGameBuilder_add_id :: "('b, 'o, 'p, 'v) flatbuffers \<Rightarrow> u32 \<Rightarrow> 'b \<Rightarrow> 'b option" where
  "FGameBuilder_add_id L v = fb_AddElement L FGame_VT_ID (Int32 v) (Int32 0)"

definition FGameBuilder_add_teams :: "('b, 'o, 'p, 'v) flatbuffers \<Rightarrow> 'o \<Rightarrow> 'b \<Rightarrow> 'b option" where
  "FGameBuilder_add_teams L x = fb_AddOffset L FGame_VT_TEAMS x"

definition FGameBuilder :: "('b, 'o, 'p, 'v) flatbuffers \<Rightarrow> ('b, 'o) build" where
  "FGameBuilder L b = fb_StartTable L b"

definition FGameBuilder_Finish :: "('b, 'o, 'p, 'v) flatbuffers \<Rightarrow> 'o \<Rightarrow> ('b, 'o) build" where
  "FGameBuilder_Finish L start b = fb_EndTable L start b"

lemmas FGameBuilder_defs = FGameBuilder_def FGameBuilder_add_id_def FGameBuilder_add_teams_def
  FGameBuilder_Finish_def

definition CreateFGame :: "('b, 'o, 'p, 'v) flatbuffers \<Rightarrow> u32 \<Rightarrow> 'o \<Rightarrow>
    ('b, 'o) build" where
  "CreateFGame L id' teams' b = do {
     (start, b) \<leftarrow> FGameBuilder L b;
     b \<leftarrow> FGameBuilder_add_teams L teams' b;
     b \<leftarrow> FGameBuilder_add_id L id' b;
     FGameBuilder_Finish L start b }"

definition CreateFGameDirect :: "('b, 'o, 'p, 'v) flatbuffers \<Rightarrow> u32 \<Rightarrow> 'o list option \<Rightarrow> ('b, 'o) build" where
  "CreateFGameDirect L id' teams' b = do {
     (teams', b) \<leftarrow> vector_or_null L teams' b;
     CreateFGame L id' teams' b }"

definition GetFGame :: "('b, 'o, 'p, 'v) flatbuffers \<Rightarrow> u8 list \<Rightarrow> 'p" where
  "GetFGame L buf = fb_GetRoot L buf"

definition GetSizePrefixedFGame :: "('b, 'o, 'p, 'v) flatbuffers \<Rightarrow> u8 list \<Rightarrow> 'p" where
  "GetSizePrefixedFGame L buf = fb_GetSizePrefixedRoot L buf"

definition VerifyFGameBuffer :: "('b, 'o, 'p, 'v) flatbuffers \<Rightarrow> 'v check" where
  "VerifyFGameBuffer L = fb_VerifyBuffer L (FGame_Verify L)"

definition VerifySizePrefixedFGameBuffer :: "('b, 'o, 'p, 'v) flatbuffers \<Rightarrow> 'v check" where
  "VerifySizePrefixedFGameBuffer L = fb_VerifySizePrefixedBuffer L (FGame_Verify L)"

definition FinishFGameBuffer :: "('b, 'o, 'p, 'v) flatbuffers \<Rightarrow> 'o \<Rightarrow> 'b \<Rightarrow> 'b option" where
  "FinishFGameBuffer L x = fb_Finish L x"

definition FinishSizePrefixedFGameBuffer :: "('b, 'o, 'p, 'v) flatbuffers \<Rightarrow> 'o \<Rightarrow> 'b \<Rightarrow> 'b option" where
  "FinishSizePrefixedFGameBuffer L x = fb_FinishSizePrefixed L x"

section \<open>Writing a list of players\<close>

text \<open>One player and the whole message, as \<open>MockPlayerListDatagram\<close> builds them.\<close>

definition write_client :: "('b, 'o, 'p, 'v) flatbuffers \<Rightarrow> wire_client \<Rightarrow> ('b, 'o) build" where
  "write_client L w b = do {
     (name', b) \<leftarrow> fb_CreateString L (wc_name w) b;
     (ip, b) \<leftarrow> fb_CreateString L (wc_ip w) b;
     (v, b) \<leftarrow> CreateFVehicle L (wc_vehicle w) b;
     CreateFClient L name' (wc_id w) ip (wc_port w) v b }"

definition build_player_list :: "('b, 'o, 'p, 'v) flatbuffers \<Rightarrow> wire_client list \<Rightarrow> wire_client list \<Rightarrow>
    ('b, 'o) build" where
  "build_player_list L red blue b = do {
     (reds, b) \<leftarrow> write_all (write_client L) red b;
     (blues, b) \<leftarrow> write_all (write_client L) blue b;
     (red_players, b) \<leftarrow> fb_CreateVector L reds b;
     (blue_players, b) \<leftarrow> fb_CreateVector L blues b;
     (team_red, b) \<leftarrow> CreateFTeam L red_players b;
     (team_blue, b) \<leftarrow> CreateFTeam L blue_players b;
     (teams, b) \<leftarrow> fb_CreateVector L [team_red, team_blue] b;
     CreateFGame L 55555 teams b }"

definition write_player_list :: "('b, 'o, 'p, 'v) flatbuffers \<Rightarrow> wire_client list \<Rightarrow> wire_client list \<Rightarrow>
    u8 list option" where
  "write_player_list L red blue = do {
     (x, b) \<leftarrow> build_player_list L red blue (fb_FlatBufferBuilder L);
     b \<leftarrow> fb_Finish L x b;
     Some (fb_GetBuffer L b) }"

section \<open>What LoadClients reads\<close>

definition view_client :: "('b, 'o, 'p, 'v) flatbuffers \<Rightarrow> 'p \<Rightarrow> wire_client option" where
  "view_client L p = do {
     v \<leftarrow> FClient_vehicle L p;
     n \<leftarrow> FClient_name L p;
     ip \<leftarrow> FClient_ipAddress L p;
     Some \<lparr>wc_name = fb_str L n, wc_id = FClient_id L p, wc_ip = fb_str L ip, wc_port = FClient_port L p,
       wc_vehicle = FVehicle_vehicleType L v\<rparr> }"

definition view_team :: "('b, 'o, 'p, 'v) flatbuffers \<Rightarrow> 'p \<Rightarrow> wire_client list option" where
  "view_team L p = do {
     v \<leftarrow> FTeam_clients L p;
     those (map (view_client L) (elements L v)) }"

text \<open>Only the first two teams are looked into, and only if there are two.\<close>

definition view_game :: "('b, 'o, 'p, 'v) flatbuffers \<Rightarrow> u8 list \<Rightarrow> wire_client list list option" where
  "view_game L bs = do {
     teams \<leftarrow> FGame_teams L (GetFGame L bs);
     if fb_size L teams < 2 then Some (replicate (fb_size L teams) []) else do {
       red \<leftarrow> view_team L (fb_Get L teams 0);
       blue \<leftarrow> view_team L (fb_Get L teams 1);
       Some [red, blue] } }"

section \<open>Library\<close>

text \<open>The objects of a vehicle and of a client; \<open>v\<close> is the offset given for its vehicle.\<close>

definition vehicle_object :: "'o heap \<Rightarrow> 'o \<Rightarrow> u8 \<Rightarrow> bool" where
  "vehicle_object h x v \<longleftrightarrow>
     (\<exists>m. h x = Some (Table m) \<and> m FVehicle_VT_VEHICLETYPE = set_scalar (Int8 v) (Int8 0))"

definition client_object :: "'o \<Rightarrow> wire_client \<Rightarrow> 'o \<Rightarrow> 'o heap \<Rightarrow> 'o \<Rightarrow> bool" where
  "client_object null w v h x \<longleftrightarrow>
     (\<exists>m n ip. h x = Some (Table m) \<and> m FClient_VT_NAME = Some (Reference n) \<and> h n = Some (Text (wc_name w)) \<and>
        m FClient_VT_ID = set_scalar (Uint32 (wc_id w)) (Uint32 0) \<and>
        m FClient_VT_IPADDRESS = Some (Reference ip) \<and> h ip = Some (Text (wc_ip w)) \<and>
        m FClient_VT_PORT = set_scalar (Int32 (wc_port w)) (Int32 0) \<and>
        m FClient_VT_VEHICLE = set_offset null v)"

text \<open>A client with its vehicle, a team and a list of two teams.\<close>

definition full_client :: "'o \<Rightarrow> 'o heap \<Rightarrow> 'o \<Rightarrow> wire_client \<Rightarrow> bool" where
  "full_client null h x w \<longleftrightarrow> (\<exists>v. client_object null w v h x \<and> v \<noteq> null \<and> vehicle_object h v (wc_vehicle w))"

definition team_object :: "('o heap \<Rightarrow> 'o \<Rightarrow> 'w \<Rightarrow> bool) \<Rightarrow> 'o heap \<Rightarrow> 'o \<Rightarrow> 'w list \<Rightarrow> bool" where
  "team_object R h x ws \<longleftrightarrow> (\<exists>m v ys. h x = Some (Table m) \<and> m FTeam_VT_CLIENTS = Some (Reference v) \<and>
     h v = Some (Vector ys) \<and> list_all2 (R h) ys ws)"

definition game_object :: "('o heap \<Rightarrow> 'o \<Rightarrow> 'w \<Rightarrow> bool) \<Rightarrow> 'w list list \<Rightarrow> 'o heap \<Rightarrow> 'o \<Rightarrow> bool" where
  "game_object R teams h x \<longleftrightarrow> (\<exists>m v ys n. h x = Some (Table m) \<and> m FGame_VT_TEAMS = Some (Reference v) \<and>
     m FGame_VT_ID = set_scalar (Int32 n) (Int32 0) \<and> h v = Some (Vector ys) \<and> list_all2 (team_object R h) ys teams)"

lemma lasting_objects:
  "lasting (\<lambda>h x. vehicle_object h x v)" "lasting (client_object null w y)"
  "lasting (\<lambda>h x. full_client null h x w)"
  "(\<And>w. lasting (\<lambda>h x. R h x w)) \<Longrightarrow> lasting (\<lambda>h x. team_object R h x ws)"
proof -
  show v: "lasting (\<lambda>h x. vehicle_object h x v)" for v :: u8
    unfolding lasting_def vehicle_object_def using map_le_Some by metis
  show c: "lasting (client_object null w y)" for y
    unfolding lasting_def client_object_def by (blast intro: map_le_Some)
  show "lasting (\<lambda>h x. full_client null h x w)"
    using v c unfolding lasting_def full_client_def by metis
  assume "\<And>w. lasting (\<lambda>h x. R h x w)"
  from lasting_list_all2 [of R, OF this] show "lasting (\<lambda>h x. team_object R h x ws)"
    unfolding lasting_def team_object_def using map_le_Some by metis
qed

lemma makes_CreateFVehicle:
  assumes D: "documented L X"
  shows "makes X h (CreateFVehicle L v) (\<lambda>h x. vehicle_object h x v \<and> x \<noteq> fb_null L)"
proof (rule makes_new)
  fix b Q
  assume b: "idle X b h" and Q: "\<And>x b' z. idle X b' (h(x \<mapsto> z)) \<Longrightarrow> h x = None \<Longrightarrow>
    vehicle_object (h(x \<mapsto> z)) x v \<and> x \<noteq> fb_null L \<Longrightarrow> Q (x, b')"
  show "succeeds (CreateFVehicle L v b) Q"
    unfolding CreateFVehicle_def FVehicleBuilder_defs
    by (rule build_steps build_calls [OF D] | (assumption | rule b Q)
        | (simp add: vehicle_object_def set_scalar_def; fail))+
qed

lemma makes_CreateFClient:
  assumes D: "documented L X"
    and h: "h n = Some (Text (wc_name w))" "h ip = Some (Text (wc_ip w))" "n \<noteq> fb_null L" "ip \<noteq> fb_null L"
      "v = fb_null L \<or> h v \<noteq> None"
  shows "makes X h (CreateFClient L n (wc_id w) ip (wc_port w) v)
    (\<lambda>h x. client_object (fb_null L) w v h x \<and> x \<noteq> fb_null L)"
proof (rule makes_new)
  fix b Q
  assume b: "idle X b h" and Q: "\<And>x b' z. idle X b' (h(x \<mapsto> z)) \<Longrightarrow> h x = None \<Longrightarrow>
    client_object (fb_null L) w v (h(x \<mapsto> z)) x \<and> x \<noteq> fb_null L \<Longrightarrow> Q (x, b')"
  have table: "client_object (fb_null L) w v (h(x \<mapsto> Table m)) x"
    if "h x = None" "m FClient_VT_NAME = Some (Reference n)" "m FClient_VT_IPADDRESS = Some (Reference ip)"
      "m FClient_VT_ID = set_scalar (Uint32 (wc_id w)) (Uint32 0)"
      "m FClient_VT_PORT = set_scalar (Int32 (wc_port w)) (Int32 0)"
      "m FClient_VT_VEHICLE = set_offset (fb_null L) v" for x m
    using that h unfolding client_object_def by auto
  show "succeeds (CreateFClient L n (wc_id w) ip (wc_port w) v b) Q"
    unfolding CreateFClient_def FClientBuilder_defs
    by (rule build_steps build_calls [OF D] | (assumption | rule b Q h(5))
        | (simp add: h table FClient_VT set_scalar_def set_offset_def; fail))+
qed

lemma makes_CreateFTeam:
  assumes D: "documented L X" and h: "h v = Some (Vector ys)" "list_all2 (R h) ys ws" "v \<noteq> fb_null L"
    and last: "\<And>w. lasting (\<lambda>h x. R h x w)"
  shows "makes X h (CreateFTeam L v) (\<lambda>h x. team_object R h x ws)"
proof (rule makes_new)
  fix b Q
  assume b: "idle X b h" and Q: "\<And>x b' z. idle X b' (h(x \<mapsto> z)) \<Longrightarrow> h x = None \<Longrightarrow>
    team_object R (h(x \<mapsto> z)) x ws \<Longrightarrow> Q (x, b')"
  have table: "team_object R (h(x \<mapsto> Table m)) x ws"
    if "h x = None" "m FTeam_VT_CLIENTS = Some (Reference v)" for x m
    using that map_le_Some [OF map_le_new [of h x "Table m", OF that(1)] h(1)]
      lastingD [OF lasting_list_all2 [of R, OF last] map_le_new [of h x "Table m", OF that(1)] h(2)]
    unfolding team_object_def by (intro exI [of _ m] exI [of _ v] exI [of _ ys] conjI fun_upd_same)
  show "succeeds (CreateFTeam L v b) Q"
    unfolding CreateFTeam_def FTeamBuilder_defs
    by (rule build_steps build_calls [OF D] | (assumption | rule b Q) | (simp add: h table; fail))+
qed

lemma makes_CreateFGame:
  assumes D: "documented L X" and h: "h v = Some (Vector ys)" "list_all2 (team_object R h) ys teams" "v \<noteq> fb_null L"
    and last: "\<And>w. lasting (\<lambda>h x. R h x w)"
  shows "makes X h (CreateFGame L n v) (game_object R teams)"
proof (rule makes_new)
  fix b Q
  assume b: "idle X b h" and Q: "\<And>x b' z. idle X b' (h(x \<mapsto> z)) \<Longrightarrow> h x = None \<Longrightarrow>
    game_object R teams (h(x \<mapsto> z)) x \<Longrightarrow> Q (x, b')"
  have table: "game_object R teams (h(x \<mapsto> Table m)) x"
    if "h x = None" "m FGame_VT_TEAMS = Some (Reference v)" "m FGame_VT_ID = set_scalar (Int32 n) (Int32 0)" for x m
    using that map_le_Some [OF map_le_new [of h x "Table m", OF that(1)] h(1)]
      lastingD [OF lasting_list_all2 [of "team_object R", OF lasting_objects(4) [OF last]]
      map_le_new [of h x "Table m", OF that(1)] h(2)]
    unfolding game_object_def by (intro exI [of _ m] exI [of _ v] exI [of _ ys] exI [of _ n] conjI fun_upd_same)
  show "succeeds (CreateFGame L n v b) Q"
    unfolding CreateFGame_def FGameBuilder_defs
    by (rule build_steps build_calls [OF D] | (assumption | rule b Q)
        | (simp add: h table FGame_VT set_scalar_def; fail))+
qed

lemma makes_write_client:
  assumes D: "documented L X"
  shows "makes X h (write_client L w) (\<lambda>h x. full_client (fb_null L) h x w)"
  unfolding write_client_def
proof (rule makes_bind [OF makes_CreateString [OF D]], rule makes_bind [OF makes_CreateString [OF D]],
    rule makes_bind [OF makes_CreateFVehicle [OF D]])
  fix h1 n h2 ip h3 v
  assume le: "h1 \<subseteq>\<^sub>m h2" "h2 \<subseteq>\<^sub>m h3" and n: "h1 n = Some (Text (wc_name w)) \<and> n \<noteq> fb_null L"
    and ip: "h2 ip = Some (Text (wc_ip w)) \<and> ip \<noteq> fb_null L"
    and v: "vehicle_object h3 v (wc_vehicle w) \<and> v \<noteq> fb_null L"
  have "h3 n = Some (Text (wc_name w))" "h3 ip = Some (Text (wc_ip w))"
    using n ip map_le_Some [OF le(2)] map_le_Some [OF le(1)] by blast+
  moreover have "h3 v \<noteq> None" using v by (auto simp: vehicle_object_def)
  ultimately have c: "makes X h3 (CreateFClient L n (wc_id w) ip (wc_port w) v)
      (\<lambda>h x. client_object (fb_null L) w v h x \<and> x \<noteq> fb_null L)"
    using n ip by (intro makes_CreateFClient [OF D]) simp_all
  have "full_client (fb_null L) h4 x w" if "client_object (fb_null L) w v h4 x" "h3 \<subseteq>\<^sub>m h4" for h4 x
    using that v lastingD [OF lasting_objects(1) that(2)] by (auto simp: full_client_def)
  with c show "makes X h3 (CreateFClient L n (wc_id w) ip (wc_port w) v)
      (\<lambda>h x. full_client (fb_null L) h x w)"
    unfolding makes_def by blast
qed

lemma full_client_in: "list_all2 (full_client null h) ys ws \<Longrightarrow> y \<in> set ys \<Longrightarrow> h y \<noteq> None"
  unfolding full_client_def client_object_def by (auto simp: in_set_conv_nth list_all2_conv_all_nth)

lemma makes_build_player_list:
  assumes D: "documented L X"
  shows "makes X h (build_player_list L red blue) (game_object (full_client (fb_null L)) [red, blue])"
  unfolding build_player_list_def
proof (rule makes_bind [OF makes_write_all [where R = "full_client (fb_null L)", OF lasting_objects(3) makes_write_client [OF D]]],
    rule makes_bind [OF makes_write_all [where R = "full_client (fb_null L)", OF lasting_objects(3) makes_write_client [OF D]]])
  let ?R = "full_client (fb_null L)"
  note last = lasting_list_all2 [of ?R, OF lasting_objects(3)]
  note lastt = lasting_objects(4) [of ?R, OF lasting_objects(3)]
  fix h1 reds h2 blues
  assume "h1 \<subseteq>\<^sub>m h2" "list_all2 (?R h1) reds red" and b: "list_all2 (?R h2) blues blue"
  then have r: "list_all2 (?R h2) reds red" by (rule_tac lastingD [OF last])
  show "makes X h2 (\<lambda>b. fb_CreateVector L reds b \<bind> (\<lambda>(red_players, b). fb_CreateVector L blues b \<bind>
      (\<lambda>(blue_players, b). CreateFTeam L red_players b \<bind> (\<lambda>(team_red, b). CreateFTeam L blue_players b \<bind>
      (\<lambda>(team_blue, b). fb_CreateVector L [team_red, team_blue] b \<bind> (\<lambda>(teams, b). CreateFGame L 55555 teams b))))))
      (game_object ?R [red, blue])"
  proof (rule makes_bind [OF makes_CreateVector [OF D full_client_in [OF r]]], assumption, rule makes_bind)
    fix h3 rv
    assume h3: "h2 \<subseteq>\<^sub>m h3" "h3 rv = Some (Vector reds) \<and> rv \<noteq> fb_null L"
    show "makes X h3 (fb_CreateVector L blues) (\<lambda>h x. h x = Some (Vector blues) \<and> x \<noteq> fb_null L)"
      by (rule makes_CreateVector [OF D full_client_in [OF lastingD [OF last h3(1) b]]])
    fix h4 bv
    assume h4: "h3 \<subseteq>\<^sub>m h4" "h4 bv = Some (Vector blues) \<and> bv \<noteq> fb_null L"
    have le: "h2 \<subseteq>\<^sub>m h4" using h3(1) h4(1) by (rule map_le_trans)
    have rv: "h4 rv = Some (Vector reds)" "rv \<noteq> fb_null L" using h3(2) map_le_Some [OF h4(1)] by auto
    show "makes X h4 (\<lambda>b. CreateFTeam L rv b \<bind> (\<lambda>(team_red, b). CreateFTeam L bv b \<bind>
      (\<lambda>(team_blue, b). fb_CreateVector L [team_red, team_blue] b \<bind> (\<lambda>(teams, b). CreateFGame L 55555 teams b))))
      (game_object ?R [red, blue])"
    proof (rule makes_bind [OF makes_CreateFTeam [where R = ?R, OF D rv(1) lastingD [OF last le r] rv(2) lasting_objects(3)]],
        rule makes_bind [OF makes_CreateFTeam [where R = ?R and ys = blues, OF D]])
      fix h5 tr
      assume h5: "h4 \<subseteq>\<^sub>m h5" "team_object ?R h5 tr red"
      show "h5 bv = Some (Vector blues)" "bv \<noteq> fb_null L" using h4(2) map_le_Some [OF h5(1)] by auto
      show "list_all2 (?R h5) blues blue"
        by (rule lastingD [OF last map_le_trans [OF le h5(1)] b])
      fix h6 tb
      assume h6: "h5 \<subseteq>\<^sub>m h6" "team_object ?R h6 tb blue"
      have t: "list_all2 (team_object ?R h6) [tr, tb] [red, blue]"
        using h6(2) lastingD [OF lastt h6(1) h5(2)] by simp
      show "makes X h6 (\<lambda>b. fb_CreateVector L [tr, tb] b \<bind> (\<lambda>(teams, b). CreateFGame L 55555 teams b))
          (game_object ?R [red, blue])"
      proof (rule makes_bind [OF makes_CreateVector [OF D]])
        show "y \<in> set [tr, tb] \<Longrightarrow> h6 y \<noteq> None" for y using t by (auto simp: team_object_def)
        fix h7 v
        assume "h6 \<subseteq>\<^sub>m h7" "h7 v = Some (Vector [tr, tb]) \<and> v \<noteq> fb_null L"
        with lastingD [OF lasting_list_all2 [of "team_object ?R", OF lastt] this(1) t]
        show "makes X h7 (CreateFGame L 55555 v) (game_object ?R [red, blue])"
          by (intro makes_CreateFGame [OF D _ _ _ lasting_objects(3)]) auto
      qed
    qed (rule lasting_objects(3))
  qed
qed

lemma write_player_list_message:
  assumes D: "documented L X"
  obtains bs h x where "write_player_list L red blue = Some bs" "message L X bs h x"
    "game_object (full_client (fb_null L)) [red, blue] h x"
  using write_message [OF D makes_build_player_list [OF D]] unfolding write_player_list_def
  by (metis (no_types, lifting) game_object_def option.distinct(1))

text \<open>Reading them back.\<close>

lemma view_client_full:
  assumes M: "message L X bs h r" and c: "full_client null h x w"
  shows "view_client L (place X bs x) = Some w"
proof -
  from c obtain v k where v: "client_object null w v h x" "v \<noteq> null" "h v = Some (Table k)"
      "k FVehicle_VT_VEHICLETYPE = set_scalar (Int8 (wc_vehicle w)) (Int8 0)"
    unfolding full_client_def vehicle_object_def by blast
  then obtain m n ip where m: "h x = Some (Table m)" "m FClient_VT_NAME = Some (Reference n)" "h n = Some (Text (wc_name w))"
      "m FClient_VT_ID = set_scalar (Uint32 (wc_id w)) (Uint32 0)"
      "m FClient_VT_IPADDRESS = Some (Reference ip)" "h ip = Some (Text (wc_ip w))"
      "m FClient_VT_PORT = set_scalar (Int32 (wc_port w)) (Int32 0)" "m FClient_VT_VEHICLE = Some (Reference v)"
    unfolding client_object_def by auto
  note field = GetField_set [OF M m(1)] GetField_set [OF M v(3)] GetPointer_Some [OF M m(1)] str_text [OF M]
  have "FClient_vehicle L (place X bs x) = Some (place X bs v)" "FClient_name L (place X bs x) = Some (place X bs n)"
    "FClient_ipAddress L (place X bs x) = Some (place X bs ip)" "FClient_id L (place X bs x) = wc_id w"
    "FClient_port L (place X bs x) = wc_port w" "FVehicle_vehicleType L (place X bs v) = wc_vehicle w"
    unfolding FClient_vehicle_def FClient_name_def FClient_ipAddress_def FClient_id_def FClient_port_def
      FVehicle_vehicleType_def
    by (simp_all add: field(1) [OF m(4)] field(1) [OF m(7)] field(2) [OF v(4)] field(3) [OF m(2)]
        field(3) [OF m(5)] field(3) [OF m(8)])
  then show ?thesis by (simp add: view_client_def field(4) [OF m(3)] field(4) [OF m(6)])
qed

lemma view_team_object:
  assumes M: "message L X bs h r" and t: "team_object R h x ws"
  obtains ys where "list_all2 (R h) ys ws"
    "view_team L (place X bs x) = those (map (\<lambda>y. view_client L (place X bs y)) ys)"
proof -
  from t obtain m v ys where m: "h x = Some (Table m)" "m FTeam_VT_CLIENTS = Some (Reference v)"
      "h v = Some (Vector ys)" "list_all2 (R h) ys ws"
    unfolding team_object_def by blast
  have "view_team L (place X bs x) = those (map (\<lambda>y. view_client L (place X bs y)) ys)"
    by (simp add: view_team_def FTeam_clients_def GetPointer_Some [OF M m(1,2)] elements_vector [OF M m(3)] comp_def)
  with m(4) show thesis by (rule that)
qed

lemma view_game_object:
  assumes M: "message L X bs h x" and g: "game_object R [red, blue] h x"
  obtains r b where "team_object R h r red" "team_object R h b blue"
    "view_game L bs = do { t \<leftarrow> view_team L (place X bs r); u \<leftarrow> view_team L (place X bs b); Some [t, u] }"
proof -
  from g obtain m v ys n where m: "h x = Some (Table m)" "m FGame_VT_TEAMS = Some (Reference v)"
      "h v = Some (Vector ys)" "list_all2 (team_object R h) ys [red, blue]"
    unfolding game_object_def by blast
  then obtain r b where ys: "ys = [r, b]" "team_object R h r red" "team_object R h b blue"
    by (auto simp: list_all2_Cons2)
  have root: "GetFGame L bs = place X bs x" using M by (simp add: GetFGame_def message_def)
  have "view_game L bs = do { t \<leftarrow> view_team L (place X bs r); u \<leftarrow> view_team L (place X bs b); Some [t, u] }"
    using vector_elements [OF M m(3)]
    by (simp add: view_game_def root FGame_teams_def GetPointer_Some [OF M m(1,2)] ys(1))
  with ys(2,3) show thesis by (rule that)
qed

lemma view_game_full:
  assumes M: "message L X bs h x" and g: "game_object (full_client null) [red, blue] h x"
  shows "view_game L bs = Some [red, blue]"
proof -
  have team: "view_team L (place X bs t) = Some ws" if t: "team_object (full_client null) h t ws" for t ws
  proof -
    obtain ys where ys: "list_all2 (full_client null h) ys ws"
        "view_team L (place X bs t) = those (map (\<lambda>y. view_client L (place X bs y)) ys)"
      by (rule view_team_object [OF M t])
    have "list_all2 (\<lambda>y w. view_client L (place X bs y) = Some w) ys ws"
      by (rule list_all2_mono [OF ys(1)]) (rule view_client_full [OF M])
    with ys(2) show ?thesis by (simp add: those_list_all2)
  qed
  obtain r b where "team_object (full_client null) h r red" "team_object (full_client null) h b blue"
    "view_game L bs = do { t \<leftarrow> view_team L (place X bs r); u \<leftarrow> view_team L (place X bs b); Some [t, u] }"
    by (rule view_game_object [OF M g])
  with team show ?thesis by simp
qed

text \<open>Their checks: a vehicle is the fourth level of tables.\<close>

lemma client_accepted:
  assumes M: "message L X bs h r" and c: "client_object null w v h x"
    and v: "v = null \<or> vehicle_object h v t"
  shows "accepts X 2 (if v = null then 1 else 2) (FClient_Verify L (place X bs x))"
proof -
  from c obtain m n ip where m: "h x = Some (Table m)" "m FClient_VT_NAME = Some (Reference n)" "h n = Some (Text (wc_name w))"
      "m FClient_VT_ID = set_scalar (Uint32 (wc_id w)) (Uint32 0)"
      "m FClient_VT_IPADDRESS = Some (Reference ip)" "h ip = Some (Text (wc_ip w))"
      "m FClient_VT_PORT = set_scalar (Int32 (wc_port w)) (Int32 0)" "m FClient_VT_VEHICLE = set_offset null v"
    unfolding client_object_def by blast
  have veh: "accepts X 1 (if v = null then 0 else 1) (fb_VerifyTable L (FVehicle_Verify L) (FClient_vehicle L (place X bs x)))"
  proof (cases "v = null")
    case True
    then show ?thesis
      using accepts_mono [OF accepts_no_object(2) [OF M], of 1]
      by (simp add: FClient_vehicle_def GetPointer_set [OF M m(1,8)])
  next
    case False
    with v obtain k where k: "h v = Some (Table k)" "k FVehicle_VT_VEHICLETYPE = set_scalar (Int8 t) (Int8 0)"
      by (auto simp: vehicle_object_def)
    have "accepts X 0 0 (all_of [fb_VerifyField L (place X bs v) (Int8 0) FVehicle_VT_VEHICLETYPE])"
      by (intro accepts_skips accepts_Nil) (auto intro: accepts_field(1) [OF M k])
    from accepts_table [OF M k(1) this] accepts_subtable [OF M k(1)] False show ?thesis
      by (simp add: FClient_vehicle_def GetPointer_set [OF M m(1,8)] FVehicle_Verify_def)
  qed
  have texts: "accepts X 0 0 (fb_VerifyString L (FClient_name L (place X bs x)))"
    "accepts X 0 0 (fb_VerifyString L (FClient_ipAddress L (place X bs x)))"
    using m(3,6) unfolding FClient_name_def FClient_ipAddress_def
    by (auto simp: GetPointer_Some [OF M m(1,2)] GetPointer_Some [OF M m(1,5)] intro!: accepts_string [OF M])
  have front: "list_all (accepts X 0 0)
     [fb_VerifyOffset L (place X bs x) FClient_VT_NAME, fb_VerifyString L (FClient_name L (place X bs x)),
      fb_VerifyField L (place X bs x) (Uint32 0) FClient_VT_ID,
      fb_VerifyOffset L (place X bs x) FClient_VT_IPADDRESS, fb_VerifyString L (FClient_ipAddress L (place X bs x)),
      fb_VerifyField L (place X bs x) (Int32 0) FClient_VT_PORT,
      fb_VerifyOffset L (place X bs x) FClient_VT_VEHICLE]"
    by (simp add: texts accepts_field(1) [OF M m(1) m(4)] accepts_field(1) [OF M m(1) m(7)]
        accepts_field(3) [OF M m(1) m(8)] accepts_reference(1) [OF M m(1,2)] accepts_reference(1) [OF M m(1,5)])
  from accepts_table [OF M m(1) accepts_front [OF front accepts_single [OF veh]]] show ?thesis
    by (simp add: FClient_Verify_def eval_nat_numeral split: if_splits)
qed

lemma team_accepted:
  assumes M: "message L X bs h r" and t: "team_object R h x ws"
    and R: "\<And>y w. R h y w \<Longrightarrow> accepts X 2 (cost w) (FClient_Verify L (place X bs y))"
  shows "accepts X 3 (1 + sum_list (map cost ws)) (FTeam_Verify L (place X bs x))"
proof -
  from t obtain m v ys where m: "h x = Some (Table m)" "m FTeam_VT_CLIENTS = Some (Reference v)"
      "h v = Some (Vector ys)" "list_all2 (R h) ys ws"
    unfolding team_object_def by blast
  have "list_all2 (\<lambda>y n. accepts X 2 n (FClient_Verify L (place X bs y))) ys (map cost ws)"
    using list_all2_mono [OF m(4) R] by (simp add: list.rel_map)
  from accepts_vector [OF M m(3)] accepts_vector(2) [OF M m(3) this]
  have vec: "accepts X 0 0 (fb_VerifyVector L (FTeam_clients L (place X bs x)))"
    "accepts X 2 (sum_list (map cost ws)) (fb_VerifyVectorOfTables L (FClient_Verify L) (FTeam_clients L (place X bs x)))"
    by (simp_all add: FTeam_clients_def GetPointer_Some [OF M m(1,2)])
  have front: "list_all (accepts X 0 0) [fb_VerifyOffset L (place X bs x) FTeam_VT_CLIENTS,
      fb_VerifyVector L (FTeam_clients L (place X bs x))]"
    by (simp add: vec(1) accepts_reference(1) [OF M m(1,2)])
  from accepts_table [OF M m(1) accepts_front [OF front accepts_single [OF vec(2)]]] show ?thesis
    by (simp add: FTeam_Verify_def eval_nat_numeral)
qed

lemma game_accepted:
  assumes M: "message L X bs h r" and g: "game_object R teams h x"
    and R: "\<And>y w. R h y w \<Longrightarrow> accepts X 2 (cost w) (FClient_Verify L (place X bs y))"
  shows "accepts X 4 (1 + (\<Sum>ws\<leftarrow>teams. 1 + sum_list (map cost ws))) (FGame_Verify L (place X bs x))"
proof -
  from g obtain m v ys n where m: "h x = Some (Table m)" "m FGame_VT_TEAMS = Some (Reference v)"
      "h v = Some (Vector ys)" "list_all2 (team_object R h) ys teams" "m FGame_VT_ID = set_scalar (Int32 n) (Int32 0)"
    unfolding game_object_def by blast
  have "list_all2 (\<lambda>y n. accepts X 3 n (FTeam_Verify L (place X bs y))) ys (map (\<lambda>ws. 1 + sum_list (map cost ws)) teams)"
    unfolding list.rel_map by (rule list_all2_mono [OF m(4)]) (rule team_accepted [OF M _ R])
  from accepts_vector [OF M m(3)] accepts_vector(2) [OF M m(3) this]
  have vec: "accepts X 0 0 (fb_VerifyVector L (FGame_teams L (place X bs x)))"
    "accepts X 3 (\<Sum>ws\<leftarrow>teams. 1 + sum_list (map cost ws))
      (fb_VerifyVectorOfTables L (FTeam_Verify L) (FGame_teams L (place X bs x)))"
    by (simp_all add: FGame_teams_def GetPointer_Some [OF M m(1,2)])
  have front: "list_all (accepts X 0 0) [fb_VerifyField L (place X bs x) (Int32 0) FGame_VT_ID,
      fb_VerifyOffset L (place X bs x) FGame_VT_TEAMS, fb_VerifyVector L (FGame_teams L (place X bs x))]"
    by (simp add: vec(1) accepts_reference(1) [OF M m(1,2)] accepts_field(1) [OF M m(1,5)])
  from accepts_table [OF M m(1) accepts_front [OF front accepts_single [OF vec(2)]]] show ?thesis
    by (simp add: FGame_Verify_def eval_nat_numeral)
qed

text \<open>The names of vehicles, for every value of the byte.\<close>

lemma EnumNameFVehicleType_total:
  assumes "documented L X"
  shows "EnumNameFVehicleType L e = Some
    (if e = FVehicleType_Pedestrian then ''Pedestrian'' else if e = FVehicleType_Cyclist then ''Cyclist''
     else if e = FVehicleType_Car then ''Car'' else [])"
proof (cases "fb_IsOutRange L e FVehicleType_Pedestrian FVehicleType_Car")
  case True
  with assms have "sint e < 0 \<or> 2 < sint e" by (simp add: documented_def FVehicleType_defs)
  then have "e \<noteq> 0" "e \<noteq> 1" "e \<noteq> 2" by auto
  with True show ?thesis by (simp add: EnumNameFVehicleType_def FVehicleType_defs)
next
  case False
  with assms have "0 \<le> sint e \<and> sint e \<le> 2" by (simp add: documented_def FVehicleType_defs not_less)
  then have "sint e = sint (0 :: u8) \<or> sint e = sint (1 :: u8) \<or> sint e = sint (2 :: u8)" by auto
  then have "e = 0 \<or> e = 1 \<or> e = 2" by (metis of_int_sint scast_id)
  with False show ?thesis by (auto simp: EnumNameFVehicleType_def EnumNamesFVehicleType_def FVehicleType_defs)
qed

end
