(* ===== verification/Status_Message.thy ===== *)
theory Status_Message
  imports Flatbuffers Main_Process_Comm
begin

text \<open>
  inc/game_status_generated.h: the status of the game that the clients are sent, with its tables,
  their builders and checks; the calls of the builder in player.cpp, team.cpp and game.cpp, on the
  values that \<open>GenerateFlatbuffers\<close> of Game.thy hands to it; and a view of all fields, which
  gives these values back.
\<close>

section \<open>The enumeration Vehicle\<close>

definition Vehicle_Pedestrian :: u8 where "Vehicle_Pedestrian = 0"
definition Vehicle_Cyclist :: u8 where "Vehicle_Cyclist = 1"
definition Vehicle_Car :: u8 where "Vehicle_Car = 2"
definition Vehicle_MIN :: u8 where "Vehicle_MIN = Vehicle_Pedestrian"
definition Vehicle_MAX :: u8 where "Vehicle_MAX = Vehicle_Car"

lemmas Vehicle_defs = Vehicle_Pedestrian_def Vehicle_Cyclist_def Vehicle_Car_def Vehicle_MIN_def Vehicle_MAX_def

definition EnumValuesVehicle :: "u8 list" where
  "EnumValuesVehicle = [Vehicle_Pedestrian, Vehicle_Cyclist, Vehicle_Car]"

definition EnumNamesVehicle :: "string option list" where
  "EnumNamesVehicle = [Some ''Pedestrian'', Some ''Cyclist'', Some ''Car'', None]"

definition EnumNameVehicle :: "('b, 'o, 'p, 'v) flatbuffers \<Rightarrow> u8 \<Rightarrow> string option" where
  "EnumNameVehicle L e =
     (if fb_IsOutRange L e Vehicle_Pedestrian Vehicle_Car then Some []
      else EnumNamesVehicle ! unat e)"

section \<open>The table Player\<close>

definition Player_VT_NAME :: voffset where "Player_VT_NAME = 4"
definition Player_VT_ID :: voffset where "Player_VT_ID = 6"
definition Player_VT_POINTS :: voffset where "Player_VT_POINTS = 8"
definition Player_VT_POSITION :: voffset where "Player_VT_POSITION = 10"
definition Player_VT_VEHICLE :: voffset where "Player_VT_VEHICLE = 12"

lemmas Player_VT = Player_VT_NAME_def Player_VT_ID_def Player_VT_POINTS_def Player_VT_POSITION_def
  Player_VT_VEHICLE_def

definition Player_name :: "('b, 'o, 'p, 'v) flatbuffers \<Rightarrow> 'p \<Rightarrow> 'p option" where
  "Player_name L p = fb_GetPointer L p Player_VT_NAME"

definition Player_id :: "('b, 'o, 'p, 'v) flatbuffers \<Rightarrow> 'p \<Rightarrow> u32" where
  "Player_id L p = uint32_of (fb_GetField L p Player_VT_ID (Uint32 0))"

definition Player_points :: "('b, 'o, 'p, 'v) flatbuffers \<Rightarrow> 'p \<Rightarrow> u32" where
  "Player_points L p = int32_of (fb_GetField L p Player_VT_POINTS (Int32 0))"

definition Player_position :: "('b, 'o, 'p, 'v) flatbuffers \<Rightarrow> 'p \<Rightarrow> Position option" where
  "Player_position L p = fb_GetStruct L p Player_VT_POSITION"

definition Player_vehicle :: "('b, 'o, 'p, 'v) flatbuffers \<Rightarrow> 'p \<Rightarrow> u8" where
  "Player_vehicle L p = int8_of (fb_GetField L p Player_VT_VEHICLE (Int8 0))"

definition Player_Verify :: "('b, 'o, 'p, 'v) flatbuffers \<Rightarrow> 'p \<Rightarrow> 'v check" where
  "Player_Verify L p = all_of
     [fb_VerifyTableStart L p,
      fb_VerifyOffsetRequired L p Player_VT_NAME,
      fb_VerifyString L (Player_name L p),
      fb_VerifyField L p (Uint32 0) Player_VT_ID,
      fb_VerifyField L p (Int32 0) Player_VT_POINTS,
      fb_VerifyStructRequired L p Player_VT_POSITION,
      fb_VerifyField L p (Int8 0) Player_VT_VEHICLE,
      fb_VerifyEndTable L]"

definition PlayerBuilder_add_name :: "('b, 'o, 'p, 'v) flatbuffers \<Rightarrow> 'o \<Rightarrow> 'b \<Rightarrow> 'b option" where
  "PlayerBuilder_add_name L x = fb_AddOffset L Player_VT_NAME x"

definition PlayerBuilder_add_id :: "('b, 'o, 'p, 'v) flatbuffers \<Rightarrow> u32 \<Rightarrow> 'b \<Rightarrow> 'b option" where
  "PlayerBuilder_add_id L v = fb_AddElement L Player_VT_ID (Uint32 v) (Uint32 0)"

definition PlayerBuilder_add_points :: "('b, 'o, 'p, 'v) flatbuffers \<Rightarrow> u32 \<Rightarrow> 'b \<Rightarrow> 'b option" where
  "PlayerBuilder_add_points L v = fb_AddElement L Player_VT_POINTS (Int32 v) (Int32 0)"

definition PlayerBuilder_add_position :: "('b, 'o, 'p, 'v) flatbuffers \<Rightarrow> Position option \<Rightarrow> 'b \<Rightarrow> 'b option" where
  "PlayerBuilder_add_position L x = fb_AddStruct L Player_VT_POSITION x"

definition PlayerBuilder_add_vehicle :: "('b, 'o, 'p, 'v) flatbuffers \<Rightarrow> u8 \<Rightarrow> 'b \<Rightarrow> 'b option" where
  "PlayerBuilder_add_vehicle L v = fb_AddElement L Player_VT_VEHICLE (Int8 v) (Int8 0)"

definition PlayerBuilder :: "('b, 'o, 'p, 'v) flatbuffers \<Rightarrow> ('b, 'o) build" where
  "PlayerBuilder L b = fb_StartTable L b"

definition PlayerBuilder_Finish :: "('b, 'o, 'p, 'v) flatbuffers \<Rightarrow> 'o \<Rightarrow> ('b, 'o) build" where
  "PlayerBuilder_Finish L start b = do {
     (x, b) \<leftarrow> fb_EndTable L start b;
     b \<leftarrow> fb_Required L x Player_VT_NAME b;
     b \<leftarrow> fb_Required L x Player_VT_POSITION b;
     Some (x, b) }"

lemmas PlayerBuilder_defs = PlayerBuilder_def PlayerBuilder_add_name_def PlayerBuilder_add_id_def
  PlayerBuilder_add_points_def PlayerBuilder_add_position_def PlayerBuilder_add_vehicle_def
  PlayerBuilder_Finish_def

definition CreatePlayer :: "('b, 'o, 'p, 'v) flatbuffers \<Rightarrow> 'o \<Rightarrow> u32 \<Rightarrow> u32 \<Rightarrow> Position option \<Rightarrow> u8 \<Rightarrow>
    ('b, 'o) build" where
  "CreatePlayer L name' id' points' position' vehicle' b = do {
     (start, b) \<leftarrow> PlayerBuilder L b;
     b \<leftarrow> PlayerBuilder_add_position L position' b;
     b \<leftarrow> PlayerBuilder_add_points L points' b;
     b \<leftarrow> PlayerBuilder_add_id L id' b;
     b \<leftarrow> PlayerBuilder_add_name L name' b;
     b \<leftarrow> PlayerBuilder_add_vehicle L vehicle' b;
     PlayerBuilder_Finish L start b }"

definition CreatePlayerDirect :: "('b, 'o, 'p, 'v) flatbuffers \<Rightarrow> string option \<Rightarrow> u32 \<Rightarrow> u32 \<Rightarrow>
    Position option \<Rightarrow> u8 \<Rightarrow> ('b, 'o) build" where
  "CreatePlayerDirect L name' id' points' position' vehicle' b = do {
     (name', b) \<leftarrow> string_or_null L name' b;
     CreatePlayer L name' id' points' position' vehicle' b }"

section \<open>The table Team\<close>

definition Team_VT_POINTS :: voffset where "Team_VT_POINTS = 4"
definition Team_VT_PLAYERS :: voffset where "Team_VT_PLAYERS = 6"

lemmas Team_VT = Team_VT_POINTS_def Team_VT_PLAYERS_def

definition Team_points :: "('b, 'o, 'p, 'v) flatbuffers \<Rightarrow> 'p \<Rightarrow> u32" where
  "Team_points L p = int32_of (fb_GetField L p Team_VT_POINTS (Int32 0))"

definition Team_players :: "('b, 'o, 'p, 'v) flatbuffers \<Rightarrow> 'p \<Rightarrow> 'p option" where
  "Team_players L p = fb_GetPointer L p Team_VT_PLAYERS"

definition Team_Verify :: "('b, 'o, 'p, 'v) flatbuffers \<Rightarrow> 'p \<Rightarrow> 'v check" where
  "Team_Verify L p = all_of
     [fb_VerifyTableStart L p,
      fb_VerifyField L p (Int32 0) Team_VT_POINTS,
      fb_VerifyOffsetRequired L p Team_VT_PLAYERS,
      fb_VerifyVector L (Team_players L p),
      fb_VerifyVectorOfTables L (Player_Verify L) (Team_players L p),
      fb_VerifyEndTable L]"

definition TeamBuilder_add_points :: "('b, 'o, 'p, 'v) flatbuffers \<Rightarrow> u32 \<Rightarrow> 'b \<Rightarrow> 'b option" where
  "TeamBuilder_add_points L v = fb_AddElement L Team_VT_POINTS (Int32 v) (Int32 0)"

definition TeamBuilder_add_players :: "('b, 'o, 'p, 'v) flatbuffers \<Rightarrow> 'o \<Rightarrow> 'b \<Rightarrow> 'b option" where
  "TeamBuilder_add_players L x = fb_AddOffset L Team_VT_PLAYERS x"

definition TeamBuilder :: "('b, 'o, 'p, 'v) flatbuffers \<Rightarrow> ('b, 'o) build" where
  "TeamBuilder L b = fb_StartTable L b"

definition TeamBuilder_Finish :: "('b, 'o, 'p, 'v) flatbuffers \<Rightarrow> 'o \<Rightarrow> ('b, 'o) build" where
  "TeamBuilder_Finish L start b = do {
     (x, b) \<leftarrow> fb_EndTable L start b;
     b \<leftarrow> fb_Required L x Team_VT_PLAYERS b;
     Some (x, b) }"

lemmas TeamBuilder_defs = TeamBuilder_def TeamBuilder_add_points_def TeamBuilder_add_players_def
  TeamBuilder_Finish_def

definition CreateTeam :: "('b, 'o, 'p, 'v) flatbuffers \<Rightarrow> u32 \<Rightarrow> 'o \<Rightarrow>
    ('b, 'o) build" where
  "CreateTeam L points' players' b = do {
     (start, b) \<leftarrow> TeamBuilder L b;
     b \<leftarrow> TeamBuilder_add_players L players' b;
     b \<leftarrow> TeamBuilder_add_points L points' b;
     TeamBuilder_Finish L start b }"

definition CreateTeamDirect :: "('b, 'o, 'p, 'v) flatbuffers \<Rightarrow> u32 \<Rightarrow> 'o list option \<Rightarrow> ('b, 'o) build" where
  "CreateTeamDirect L points' players' b = do {
     (players', b) \<leftarrow> vector_or_null L players' b;
     CreateTeam L points' players' b }"

section \<open>The table PointBox\<close>

definition PointBox_VT_POSITION :: voffset where "PointBox_VT_POSITION = 4"
definition PointBox_VT_VALUE :: voffset where "PointBox_VT_VALUE = 6"

lemmas PointBox_VT = PointBox_VT_POSITION_def PointBox_VT_VALUE_def

definition PointBox_position :: "('b, 'o, 'p, 'v) flatbuffers \<Rightarrow> 'p \<Rightarrow> Position option" where
  "PointBox_position L p = fb_GetStruct L p PointBox_VT_POSITION"

definition PointBox_value :: "('b, 'o, 'p, 'v) flatbuffers \<Rightarrow> 'p \<Rightarrow> u32" where
  "PointBox_value L p = int32_of (fb_GetField L p PointBox_VT_VALUE (Int32 0))"

definition PointBox_Verify :: "('b, 'o, 'p, 'v) flatbuffers \<Rightarrow> 'p \<Rightarrow> 'v check" where
  "PointBox_Verify L p = all_of
     [fb_VerifyTableStart L p,
      fb_VerifyStructRequired L p PointBox_VT_POSITION,
      fb_VerifyField L p (Int32 0) PointBox_VT_VALUE,
      fb_VerifyEndTable L]"

definition PointBoxBuilder_add_position :: "('b, 'o, 'p, 'v) flatbuffers \<Rightarrow> Position option \<Rightarrow> 'b \<Rightarrow> 'b option" where
  "PointBoxBuilder_add_position L x = fb_AddStruct L PointBox_VT_POSITION x"

definition PointBoxBuilder_add_value :: "('b, 'o, 'p, 'v) flatbuffers \<Rightarrow> u32 \<Rightarrow> 'b \<Rightarrow> 'b option" where
  "PointBoxBuilder_add_value L v = fb_AddElement L PointBox_VT_VALUE (Int32 v) (Int32 0)"

definition PointBoxBuilder :: "('b, 'o, 'p, 'v) flatbuffers \<Rightarrow> ('b, 'o) build" where
  "PointBoxBuilder L b = fb_StartTable L b"

definition PointBoxBuilder_Finish :: "('b, 'o, 'p, 'v) flatbuffers \<Rightarrow> 'o \<Rightarrow> ('b, 'o) build" where
  "PointBoxBuilder_Finish L start b = do {
     (x, b) \<leftarrow> fb_EndTable L start b;
     b \<leftarrow> fb_Required L x PointBox_VT_POSITION b;
     Some (x, b) }"

lemmas PointBoxBuilder_defs = PointBoxBuilder_def PointBoxBuilder_add_position_def PointBoxBuilder_add_value_def
  PointBoxBuilder_Finish_def

definition CreatePointBox :: "('b, 'o, 'p, 'v) flatbuffers \<Rightarrow> Position option \<Rightarrow> u32 \<Rightarrow>
    ('b, 'o) build" where
  "CreatePointBox L position' value' b = do {
     (start, b) \<leftarrow> PointBoxBuilder L b;
     b \<leftarrow> PointBoxBuilder_add_value L value' b;
     b \<leftarrow> PointBoxBuilder_add_position L position' b;
     PointBoxBuilder_Finish L start b }"

section \<open>The table Game\<close>

definition Game_VT_SEQUENCE :: voffset where "Game_VT_SEQUENCE = 4"
definition Game_VT_TEAMS :: voffset where "Game_VT_TEAMS = 6"
definition Game_VT_BOXES :: voffset where "Game_VT_BOXES = 8"
definition Game_VT_FINISHED :: voffset where "Game_VT_FINISHED = 10"

lemmas Game_VT = Game_VT_SEQUENCE_def Game_VT_TEAMS_def Game_VT_BOXES_def Game_VT_FINISHED_def

definition Game_sequence :: "('b, 'o, 'p, 'v) flatbuffers \<Rightarrow> 'p \<Rightarrow> u64" where
  "Game_sequence L p = uint64_of (fb_GetField L p Game_VT_SEQUENCE (Uint64 0))"

definition Game_teams :: "('b, 'o, 'p, 'v) flatbuffers \<Rightarrow> 'p \<Rightarrow> 'p option" where
  "Game_teams L p = fb_GetPointer L p Game_VT_TEAMS"

definition Game_boxes :: "('b, 'o, 'p, 'v) flatbuffers \<Rightarrow> 'p \<Rightarrow> 'p option" where
  "Game_boxes L p = fb_GetPointer L p Game_VT_BOXES"

definition Game_finished :: "('b, 'o, 'p, 'v) flatbuffers \<Rightarrow> 'p \<Rightarrow> bool" where
  "Game_finished L p \<longleftrightarrow> uint8_of (fb_GetField L p Game_VT_FINISHED (Uint8 0)) \<noteq> 0"

definition Game_Verify :: "('b, 'o, 'p, 'v) flatbuffers \<Rightarrow> 'p \<Rightarrow> 'v check" where
  "Game_Verify L p = all_of
     [fb_VerifyTableStart L p,
      fb_VerifyField L p (Uint64 0) Game_VT_SEQUENCE,
      fb_VerifyOffsetRequired L p Game_VT_TEAMS,
      fb_VerifyVector L (Game_teams L p),
      fb_VerifyVectorOfTables L (Team_Verify L) (Game_teams L p),
      fb_VerifyOffset L p Game_VT_BOXES,
      fb_VerifyVector L (Game_boxes L p),
      fb_VerifyVectorOfTables L (PointBox_Verify L) (Game_boxes L p),
      fb_VerifyField L p (Uint8 0) Game_VT_FINISHED,
      fb_VerifyEndTable L]"

definition GameBuilder_add_sequence :: "('b, 'o, 'p, 'v) flatbuffers \<Rightarrow> u64 \<Rightarrow> 'b \<Rightarrow> 'b option" where
  "GameBuilder_add_sequence L v = fb_AddElement L Game_VT_SEQUENCE (Uint64 v) (Uint64 0)"

definition GameBuilder_add_teams :: "('b, 'o, 'p, 'v) flatbuffers \<Rightarrow> 'o \<Rightarrow> 'b \<Rightarrow> 'b option" where
  "GameBuilder_add_teams L x = fb_AddOffset L Game_VT_TEAMS x"

definition GameBuilder_add_boxes :: "('b, 'o, 'p, 'v) flatbuffers \<Rightarrow> 'o \<Rightarrow> 'b \<Rightarrow> 'b option" where
  "GameBuilder_add_boxes L x = fb_AddOffset L Game_VT_BOXES x"

definition GameBuilder_add_finished :: "('b, 'o, 'p, 'v) flatbuffers \<Rightarrow> bool \<Rightarrow> 'b \<Rightarrow> 'b option" where
  "GameBuilder_add_finished L v = fb_AddElement L Game_VT_FINISHED (Uint8 (of_bool v)) (Uint8 0)"

definition GameBuilder :: "('b, 'o, 'p, 'v) flatbuffers \<Rightarrow> ('b, 'o) build" where
  "GameBuilder L b = fb_StartTable L b"

definition GameBuilder_Finish :: "('b, 'o, 'p, 'v) flatbuffers \<Rightarrow> 'o \<Rightarrow> ('b, 'o) build" where
  "GameBuilder_Finish L start b = do {
     (x, b) \<leftarrow> fb_EndTable L start b;
     b \<leftarrow> fb_Required L x Game_VT_TEAMS b;
     Some (x, b) }"

lemmas GameBuilder_defs = GameBuilder_def GameBuilder_add_sequence_def GameBuilder_add_teams_def
  GameBuilder_add_boxes_def GameBuilder_add_finished_def GameBuilder_Finish_def

definition CreateGame :: "('b, 'o, 'p, 'v) flatbuffers \<Rightarrow> u64 \<Rightarrow> 'o \<Rightarrow> 'o \<Rightarrow> bool \<Rightarrow>
    ('b, 'o) build" where
  "CreateGame L sequence' teams' boxes' finished' b = do {
     (start, b) \<leftarrow> GameBuilder L b;
     b \<leftarrow> GameBuilder_add_sequence L sequence' b;
     b \<leftarrow> GameBuilder_add_boxes L boxes' b;
     b \<leftarrow> GameBuilder_add_teams L teams' b;
     b \<leftarrow> GameBuilder_add_finished L finished' b;
     GameBuilder_Finish L start b }"

definition CreateGameDirect :: "('b, 'o, 'p, 'v) flatbuffers \<Rightarrow> u64 \<Rightarrow> 'o list option \<Rightarrow> 'o list option \<Rightarrow>
    bool \<Rightarrow> ('b, 'o) build" where
  "CreateGameDirect L sequence' teams' boxes' finished' b = do {
     (teams', b) \<leftarrow> vector_or_null L teams' b;
     (boxes', b) \<leftarrow> vector_or_null L boxes' b;
     CreateGame L sequence' teams' boxes' finished' b }"

definition GetGame :: "('b, 'o, 'p, 'v) flatbuffers \<Rightarrow> u8 list \<Rightarrow> 'p" where
  "GetGame L buf = fb_GetRoot L buf"

definition GetSizePrefixedGame :: "('b, 'o, 'p, 'v) flatbuffers \<Rightarrow> u8 list \<Rightarrow> 'p" where
  "GetSizePrefixedGame L buf = fb_GetSizePrefixedRoot L buf"

definition VerifyGameBuffer :: "('b, 'o, 'p, 'v) flatbuffers \<Rightarrow> 'v check" where
  "VerifyGameBuffer L = fb_VerifyBuffer L (Game_Verify L)"

definition VerifySizePrefixedGameBuffer :: "('b, 'o, 'p, 'v) flatbuffers \<Rightarrow> 'v check" where
  "VerifySizePrefixedGameBuffer L = fb_VerifySizePrefixedBuffer L (Game_Verify L)"

definition FinishGameBuffer :: "('b, 'o, 'p, 'v) flatbuffers \<Rightarrow> 'o \<Rightarrow> 'b \<Rightarrow> 'b option" where
  "FinishGameBuffer L x = fb_Finish L x"

definition FinishSizePrefixedGameBuffer :: "('b, 'o, 'p, 'v) flatbuffers \<Rightarrow> 'o \<Rightarrow> 'b \<Rightarrow> 'b option" where
  "FinishSizePrefixedGameBuffer L x = fb_FinishSizePrefixed L x"

section \<open>Writing the status\<close>

text \<open>\<open>Player::GenerateFlatbuffers\<close>, with its switch, and those of the team and the game.\<close>

fun vehicle_code :: "VehicleType \<Rightarrow> u8" where
  "vehicle_code CYCLIST = Vehicle_Cyclist"
| "vehicle_code PEDESTRIAN = Vehicle_Pedestrian"
| "vehicle_code CAR = Vehicle_Car"

definition write_player :: "('b, 'o, 'p, 'v) flatbuffers \<Rightarrow> wire_player \<Rightarrow> ('b, 'o) build" where
  "write_player L w b = do {
     (name', b) \<leftarrow> fb_CreateString L (wp_name w) b;
     CreatePlayer L name' (wp_id w) (wp_points w) (Some (Position (wp_longitude w) (wp_latitude w)))
       (vehicle_code (wp_vehicle w)) b }"

definition write_team :: "('b, 'o, 'p, 'v) flatbuffers \<Rightarrow> wire_team \<Rightarrow> ('b, 'o) build" where
  "write_team L w b = do {
     (players_vec, b) \<leftarrow> write_all (write_player L) (wt_players w) b;
     (players', b) \<leftarrow> fb_CreateVector L players_vec b;
     CreateTeam L (wt_points w) players' b }"

definition write_box :: "('b, 'o, 'p, 'v) flatbuffers \<Rightarrow> wire_box \<Rightarrow> ('b, 'o) build" where
  "write_box L w b = CreatePointBox L (Some (Position (wb_longitude w) (wb_latitude w))) (wb_value w) b"

definition build_status :: "('b, 'o, 'p, 'v) flatbuffers \<Rightarrow> wire_game \<Rightarrow> ('b, 'o) build" where
  "build_status L w b = do {
     (teams_vector, b) \<leftarrow> write_all (write_team L) (wg_teams w) b;
     (teams', b) \<leftarrow> fb_CreateVector L teams_vector b;
     (point_boxes_vector, b) \<leftarrow> write_all (write_box L) (wg_boxes w) b;
     (boxes', b) \<leftarrow> fb_CreateVector L point_boxes_vector b;
     CreateGame L (wg_sequence w) teams' boxes' (wg_finished w) b }"

definition write_status :: "('b, 'o, 'p, 'v) flatbuffers \<Rightarrow> wire_game \<Rightarrow> u8 list option" where
  "write_status L w = do {
     (x, b) \<leftarrow> build_status L w (fb_FlatBufferBuilder L);
     b \<leftarrow> fb_Finish L x b;
     Some (fb_GetBuffer L b) }"

section \<open>Reading it\<close>

definition view_player :: "('b, 'o, 'p, 'v) flatbuffers \<Rightarrow> 'p \<Rightarrow> wire_player option" where
  "view_player L p = do {
     n \<leftarrow> Player_name L p;
     c \<leftarrow> Player_position L p;
     Some \<lparr>wp_name = fb_str L n, wp_id = Player_id L p, wp_points = Player_points L p,
       wp_longitude = Position_longitude c, wp_latitude = Position_latitude c,
       wp_vehicle = vehicle_of (Player_vehicle L p)\<rparr> }"

definition view_status_team :: "('b, 'o, 'p, 'v) flatbuffers \<Rightarrow> 'p \<Rightarrow> wire_team option" where
  "view_status_team L p = do {
     v \<leftarrow> Team_players L p;
     ps \<leftarrow> those (map (view_player L) (elements L v));
     Some \<lparr>wt_points = Team_points L p, wt_players = ps\<rparr> }"

definition view_box :: "('b, 'o, 'p, 'v) flatbuffers \<Rightarrow> 'p \<Rightarrow> wire_box option" where
  "view_box L p = do {
     c \<leftarrow> PointBox_position L p;
     Some \<lparr>wb_longitude = Position_longitude c, wb_latitude = Position_latitude c,
       wb_value = PointBox_value L p\<rparr> }"

definition view_status :: "('b, 'o, 'p, 'v) flatbuffers \<Rightarrow> u8 list \<Rightarrow> wire_game option" where
  "view_status L bs = (let p = GetGame L bs in do {
     ts \<leftarrow> Game_teams L p;
     teams' \<leftarrow> those (map (view_status_team L) (elements L ts));
     xs \<leftarrow> Game_boxes L p;
     boxes' \<leftarrow> those (map (view_box L) (elements L xs));
     Some \<lparr>wg_sequence = Game_sequence L p, wg_teams = teams', wg_boxes = boxes',
       wg_finished = Game_finished L p\<rparr> })"

section \<open>Library\<close>

text \<open>The objects of a status, as the schema types them.\<close>

definition player_object :: "'o heap \<Rightarrow> 'o \<Rightarrow> wire_player \<Rightarrow> bool" where
  "player_object h x w \<longleftrightarrow> (\<exists>m n. h x = Some (Table m) \<and> m Player_VT_NAME = Some (Reference n) \<and>
     h n = Some (Text (wp_name w)) \<and> m Player_VT_ID = set_scalar (Uint32 (wp_id w)) (Uint32 0) \<and>
     m Player_VT_POINTS = set_scalar (Int32 (wp_points w)) (Int32 0) \<and>
     m Player_VT_POSITION = Some (Struct (Position (wp_longitude w) (wp_latitude w))) \<and>
     m Player_VT_VEHICLE = set_scalar (Int8 (vehicle_code (wp_vehicle w))) (Int8 0))"

definition status_team_object :: "'o heap \<Rightarrow> 'o \<Rightarrow> wire_team \<Rightarrow> bool" where
  "status_team_object h x w \<longleftrightarrow> (\<exists>m v ys. h x = Some (Table m) \<and>
     m Team_VT_POINTS = set_scalar (Int32 (wt_points w)) (Int32 0) \<and>
     m Team_VT_PLAYERS = Some (Reference v) \<and> h v = Some (Vector ys) \<and>
     list_all2 (player_object h) ys (wt_players w))"

definition box_object :: "'o heap \<Rightarrow> 'o \<Rightarrow> wire_box \<Rightarrow> bool" where
  "box_object h x w \<longleftrightarrow> (\<exists>m. h x = Some (Table m) \<and>
     m PointBox_VT_POSITION = Some (Struct (Position (wb_longitude w) (wb_latitude w))) \<and>
     m PointBox_VT_VALUE = set_scalar (Int32 (wb_value w)) (Int32 0))"

definition status_object :: "wire_game \<Rightarrow> 'o heap \<Rightarrow> 'o \<Rightarrow> bool" where
  "status_object w h x \<longleftrightarrow> (\<exists>m t ys v zs. h x = Some (Table m) \<and>
     m Game_VT_SEQUENCE = set_scalar (Uint64 (wg_sequence w)) (Uint64 0) \<and>
     m Game_VT_TEAMS = Some (Reference t) \<and> h t = Some (Vector ys) \<and>
     list_all2 (status_team_object h) ys (wg_teams w) \<and>
     m Game_VT_BOXES = Some (Reference v) \<and> h v = Some (Vector zs) \<and>
     list_all2 (box_object h) zs (wg_boxes w) \<and>
     m Game_VT_FINISHED = set_scalar (Uint8 (of_bool (wg_finished w))) (Uint8 0))"

text \<open>All coordinates are numbers that the host can represent.\<close>

definition representable_status :: "(double \<Rightarrow> bool) \<Rightarrow> wire_game \<Rightarrow> bool" where
  "representable_status R w \<longleftrightarrow>
     (\<forall>t \<in> set (wg_teams w). \<forall>p \<in> set (wt_players t). R (wp_longitude p) \<and> R (wp_latitude p)) \<and>
     (\<forall>x \<in> set (wg_boxes w). R (wb_longitude x) \<and> R (wb_latitude x))"

lemma lasting_status:
  "lasting (\<lambda>h x. player_object h x p)" "lasting (\<lambda>h x. box_object h x c)"
  "lasting (\<lambda>h x. status_team_object h x w)"
proof -
  show p: "lasting (\<lambda>h x. player_object h x p)" for p
    unfolding lasting_def player_object_def by (blast intro: map_le_Some)
  show "lasting (\<lambda>h x. box_object h x c)"
    unfolding lasting_def box_object_def by (blast intro: map_le_Some)
  note ps = lastingD [OF lasting_list_all2 [of player_object, OF p]]
  show "lasting (\<lambda>h x. status_team_object h x w)"
    unfolding lasting_def status_team_object_def by (blast intro: map_le_Some ps)
qed

lemma makes_write_box:
  assumes D: "documented L X" and R: "representable X (wb_longitude w)" "representable X (wb_latitude w)"
  shows "makes X h (write_box L w) (\<lambda>h x. box_object h x w)"
proof (rule makes_new)
  fix b Q
  assume b: "idle X b h" and Q: "\<And>x b' z. idle X b' (h(x \<mapsto> z)) \<Longrightarrow> h x = None \<Longrightarrow>
    box_object (h(x \<mapsto> z)) x w \<Longrightarrow> Q (x, b')"
  show "succeeds (write_box L w b) Q"
    unfolding write_box_def CreatePointBox_def PointBoxBuilder_defs
    by (rule build_steps build_calls [OF D] | (assumption | rule b Q)
        | (simp add: R box_object_def PointBox_VT set_scalar_def; fail))+
qed

lemma makes_CreatePlayer:
  assumes D: "documented L X" and h: "h n = Some (Text (wp_name w))" "n \<noteq> fb_null L"
    and R: "representable X (wp_longitude w)" "representable X (wp_latitude w)"
  shows "makes X h (CreatePlayer L n (wp_id w) (wp_points w) (Some (Position (wp_longitude w) (wp_latitude w)))
    (vehicle_code (wp_vehicle w))) (\<lambda>h x. player_object h x w)"
proof (rule makes_new)
  fix b Q
  assume b: "idle X b h" and Q: "\<And>x b' z. idle X b' (h(x \<mapsto> z)) \<Longrightarrow> h x = None \<Longrightarrow>
    player_object (h(x \<mapsto> z)) x w \<Longrightarrow> Q (x, b')"
  have table: "player_object (h(x \<mapsto> Table m)) x w"
    if "h x = None" "m Player_VT_NAME = Some (Reference n)" "m Player_VT_ID = set_scalar (Uint32 (wp_id w)) (Uint32 0)"
      "m Player_VT_POINTS = set_scalar (Int32 (wp_points w)) (Int32 0)"
      "m Player_VT_POSITION = Some (Struct (Position (wp_longitude w) (wp_latitude w)))"
      "m Player_VT_VEHICLE = set_scalar (Int8 (vehicle_code (wp_vehicle w))) (Int8 0)" for x m
    using that h unfolding player_object_def by auto
  show "succeeds (CreatePlayer L n (wp_id w) (wp_points w) (Some (Position (wp_longitude w) (wp_latitude w)))
      (vehicle_code (wp_vehicle w)) b) Q"
    unfolding CreatePlayer_def PlayerBuilder_defs
    by (rule build_steps build_calls [OF D] fun_upd_same | (assumption | rule b Q)
        | (simp add: h R table Player_VT set_scalar_def; fail))+
qed

lemma makes_CreateTeam:
  assumes D: "documented L X" and h: "h v = Some (Vector ys)" "list_all2 (player_object h) ys (wt_players w)"
    "v \<noteq> fb_null L"
  shows "makes X h (CreateTeam L (wt_points w) v) (\<lambda>h x. status_team_object h x w)"
proof (rule makes_new)
  fix b Q
  assume b: "idle X b h" and Q: "\<And>x b' z. idle X b' (h(x \<mapsto> z)) \<Longrightarrow> h x = None \<Longrightarrow>
    status_team_object (h(x \<mapsto> z)) x w \<Longrightarrow> Q (x, b')"
  have table: "status_team_object (h(x \<mapsto> Table m)) x w"
    if "h x = None" "m Team_VT_PLAYERS = Some (Reference v)"
      "m Team_VT_POINTS = set_scalar (Int32 (wt_points w)) (Int32 0)" for x m
    using that map_le_Some [OF map_le_new [of h x "Table m", OF that(1)] h(1)]
      lastingD [OF lasting_list_all2 [of player_object, OF lasting_status(1)] map_le_new [of h x "Table m", OF that(1)] h(2)]
    unfolding status_team_object_def by (intro exI [of _ m] exI [of _ v] exI [of _ ys] conjI fun_upd_same)
  show "succeeds (CreateTeam L (wt_points w) v b) Q"
    unfolding CreateTeam_def TeamBuilder_defs
    by (rule build_steps build_calls [OF D] fun_upd_same | (assumption | rule b Q)
        | (simp add: h table Team_VT set_scalar_def; fail))+
qed

lemma makes_CreateGame:
  assumes D: "documented L X" and t: "h t = Some (Vector ys)" "list_all2 (status_team_object h) ys (wg_teams w)"
    "t \<noteq> fb_null L" and v: "h v = Some (Vector zs)" "list_all2 (box_object h) zs (wg_boxes w)" "v \<noteq> fb_null L"
  shows "makes X h (CreateGame L (wg_sequence w) t v (wg_finished w)) (status_object w)"
proof (rule makes_new)
  fix b Q
  assume b: "idle X b h" and Q: "\<And>x b' z. idle X b' (h(x \<mapsto> z)) \<Longrightarrow> h x = None \<Longrightarrow>
    status_object w (h(x \<mapsto> z)) x \<Longrightarrow> Q (x, b')"
  have table: "status_object w (h(x \<mapsto> Table m)) x"
    if "h x = None" "m Game_VT_TEAMS = Some (Reference t)" "m Game_VT_BOXES = Some (Reference v)"
      "m Game_VT_SEQUENCE = set_scalar (Uint64 (wg_sequence w)) (Uint64 0)"
      "m Game_VT_FINISHED = set_scalar (Uint8 (of_bool (wg_finished w))) (Uint8 0)" for x m
  proof -
    note le = map_le_new [of h x "Table m", OF that(1)]
    show ?thesis
      using that map_le_Some [OF le t(1)] map_le_Some [OF le v(1)]
        lastingD [OF lasting_list_all2 [of status_team_object, OF lasting_status(3)] le t(2)]
        lastingD [OF lasting_list_all2 [of box_object, OF lasting_status(2)] le v(2)]
      unfolding status_object_def
      by (intro exI [of _ m] exI [of _ t] exI [of _ ys] exI [of _ v] exI [of _ zs] conjI fun_upd_same)
  qed
  show "succeeds (CreateGame L (wg_sequence w) t v (wg_finished w) b) Q"
    unfolding CreateGame_def GameBuilder_defs
    by (rule build_steps build_calls [OF D] fun_upd_same | (assumption | rule b Q)
        | (simp add: t v table Game_VT set_scalar_def; fail))+
qed

lemma makes_write_player:
  assumes D: "documented L X" and R: "representable X (wp_longitude w)" "representable X (wp_latitude w)"
  shows "makes X h (write_player L w) (\<lambda>h x. player_object h x w)"
  unfolding write_player_def
  by (rule makes_bind [OF makes_CreateString [OF D]]) (auto intro: makes_CreatePlayer [OF D _ _ R])

lemma objects_in:
  "list_all2 (player_object h) ys ps \<Longrightarrow> y \<in> set ys \<Longrightarrow> h y \<noteq> None"
  "list_all2 (status_team_object h) ys ts \<Longrightarrow> y \<in> set ys \<Longrightarrow> h y \<noteq> None"
  "list_all2 (box_object h) ys bs \<Longrightarrow> y \<in> set ys \<Longrightarrow> h y \<noteq> None"
  unfolding player_object_def status_team_object_def box_object_def
  by (auto simp: in_set_conv_nth list_all2_conv_all_nth)

lemma makes_write_team:
  fixes L :: "('b, 'o, 'p, 'v) flatbuffers" and X :: "('b, 'o, 'p, 'v) meaning"
  assumes D: "documented L X"
    and R: "\<And>p. p \<in> set (wt_players w) \<Longrightarrow> representable X (wp_longitude p) \<and> representable X (wp_latitude p)"
  shows "makes X h (write_team L w) (\<lambda>h x. status_team_object h x w)"
  unfolding write_team_def
proof (rule makes_bind [OF makes_write_all [where R = player_object, OF lasting_status(1)]])
  show "p \<in> set (wt_players w) \<Longrightarrow> makes X h (write_player L p) (\<lambda>h x. player_object h x p)" for p h
    using R by (auto intro: makes_write_player [OF D])
  fix h1 :: "'o heap" and ps
  assume ps: "list_all2 (player_object h1) ps (wt_players w)"
  show "makes X h1 (\<lambda>b. fb_CreateVector L ps b \<bind> (\<lambda>(players', b). CreateTeam L (wt_points w) players' b))
      (\<lambda>h x. status_team_object h x w)"
  proof (rule makes_bind [OF makes_CreateVector [OF D objects_in(1) [OF ps]]], assumption)
    fix h2 v
    assume "h1 \<subseteq>\<^sub>m h2" "h2 v = Some (Vector ps) \<and> v \<noteq> fb_null L"
    with lastingD [OF lasting_list_all2 [of player_object, OF lasting_status(1)] this(1) ps]
    show "makes X h2 (CreateTeam L (wt_points w) v) (\<lambda>h x. status_team_object h x w)"
      by (intro makes_CreateTeam [OF D]) auto
  qed
qed

lemma makes_build_status:
  fixes L :: "('b, 'o, 'p, 'v) flatbuffers" and X :: "('b, 'o, 'p, 'v) meaning"
  assumes D: "documented L X" and R: "representable_status (representable X) w"
  shows "makes X h (build_status L w) (status_object w)"
  unfolding build_status_def
proof (rule makes_bind [OF makes_write_all [where R = status_team_object, OF lasting_status(3)]])
  note lt = lasting_list_all2 [of status_team_object, OF lasting_status(3)]
  note lb = lasting_list_all2 [of box_object, OF lasting_status(2)]
  show "t \<in> set (wg_teams w) \<Longrightarrow> makes X h (write_team L t) (\<lambda>h x. status_team_object h x t)" for t h
    using R by (auto simp: representable_status_def intro: makes_write_team [OF D])
  fix h1 :: "'o heap" and ts
  assume ts: "list_all2 (status_team_object h1) ts (wg_teams w)"
  show "makes X h1 (\<lambda>b. fb_CreateVector L ts b \<bind> (\<lambda>(teams', b). write_all (write_box L) (wg_boxes w) b \<bind>
      (\<lambda>(zs, b). fb_CreateVector L zs b \<bind> (\<lambda>(boxes', b).
        CreateGame L (wg_sequence w) teams' boxes' (wg_finished w) b)))) (status_object w)"
  proof (rule makes_bind [OF makes_CreateVector [OF D objects_in(2) [OF ts]]], assumption,
      rule makes_bind [OF makes_write_all [where R = box_object, OF lasting_status(2)]])
    show "x \<in> set (wg_boxes w) \<Longrightarrow> makes X h (write_box L x) (\<lambda>h y. box_object h y x)" for x h
      using R by (auto simp: representable_status_def intro: makes_write_box [OF D])
    fix h2 t h3 zs
    assume t: "h1 \<subseteq>\<^sub>m h2" "h2 t = Some (Vector ts) \<and> t \<noteq> fb_null L"
      and zs: "h2 \<subseteq>\<^sub>m h3" "list_all2 (box_object h3) zs (wg_boxes w)"
    show "makes X h3 (\<lambda>b. fb_CreateVector L zs b \<bind> (\<lambda>(boxes', b).
        CreateGame L (wg_sequence w) t boxes' (wg_finished w) b)) (status_object w)"
    proof (rule makes_bind [OF makes_CreateVector [OF D objects_in(3) [OF zs(2)]]], assumption)
      fix h4 v
      assume v: "h3 \<subseteq>\<^sub>m h4" "h4 v = Some (Vector zs) \<and> v \<noteq> fb_null L"
      have le: "h2 \<subseteq>\<^sub>m h4" using zs(1) v(1) by (rule map_le_trans)
      have "h4 t = Some (Vector ts)" "t \<noteq> fb_null L" using t(2) map_le_Some [OF le] by auto
      with v(2) lastingD [OF lt map_le_trans [OF t(1) le] ts] lastingD [OF lb v(1) zs(2)]
      show "makes X h4 (CreateGame L (wg_sequence w) t v (wg_finished w)) (status_object w)"
        by (intro makes_CreateGame [OF D]) auto
    qed
  qed
qed

lemma write_status_message:
  assumes D: "documented L X" and R: "representable_status (representable X) w"
  obtains bs h x where "write_status L w = Some bs" "message L X bs h x" "status_object w h x"
  by (rule write_message [OF D makes_build_status [OF D R]])
    (auto simp: write_status_def status_object_def intro: that)

text \<open>Reading the objects back.\<close>

lemma vehicle_of_code [simp]: "vehicle_of (vehicle_code v) = v"
  by (cases v) (simp_all add: vehicle_of_def Vehicle_defs)

lemma view_player_object:
  assumes M: "message L X bs h r" and p: "player_object h x w"
  shows "view_player L (place X bs x) = Some w"
proof -
  from p obtain m n where m: "h x = Some (Table m)" "m Player_VT_NAME = Some (Reference n)" "h n = Some (Text (wp_name w))"
      "m Player_VT_ID = set_scalar (Uint32 (wp_id w)) (Uint32 0)"
      "m Player_VT_POINTS = set_scalar (Int32 (wp_points w)) (Int32 0)"
      "m Player_VT_POSITION = Some (Struct (Position (wp_longitude w) (wp_latitude w)))"
      "m Player_VT_VEHICLE = set_scalar (Int8 (vehicle_code (wp_vehicle w))) (Int8 0)"
    unfolding player_object_def by blast
  note field = GetField_set [OF M m(1)]
  have "Player_name L (place X bs x) = Some (place X bs n)" "Player_id L (place X bs x) = wp_id w"
    "Player_points L (place X bs x) = wp_points w"
    "Player_position L (place X bs x) = Some (Position (wp_longitude w) (wp_latitude w))"
    "Player_vehicle L (place X bs x) = vehicle_code (wp_vehicle w)"
    unfolding Player_name_def Player_id_def Player_points_def Player_position_def Player_vehicle_def
    by (simp_all add: field [OF m(4)] field [OF m(5)] field [OF m(7)] GetPointer_Some [OF M m(1,2)]
        GetStruct_Some [OF M m(1,6)])
  then show ?thesis by (simp add: view_player_def str_text [OF M m(3)])
qed

lemma view_box_object:
  assumes M: "message L X bs h r" and b: "box_object h x w"
  shows "view_box L (place X bs x) = Some w"
proof -
  from b obtain m where m: "h x = Some (Table m)"
      "m PointBox_VT_POSITION = Some (Struct (Position (wb_longitude w) (wb_latitude w)))"
      "m PointBox_VT_VALUE = set_scalar (Int32 (wb_value w)) (Int32 0)"
    unfolding box_object_def by blast
  then show ?thesis
    by (simp add: view_box_def PointBox_position_def PointBox_value_def GetStruct_Some [OF M m(1,2)]
        GetField_set [OF M m(1,3)])
qed

lemma view_elements:
  assumes M: "message L X bs h r" and v: "h v = Some (Vector ys)" "list_all2 (R h) ys ws"
    and f: "\<And>y w. R h y w \<Longrightarrow> f (place X bs y) = Some w"
  shows "those (map f (elements L (place X bs v))) = Some ws"
  using list_all2_mono [OF v(2) f] by (simp add: elements_vector [OF M v(1)] comp_def those_list_all2)

lemma view_status_team_object:
  assumes M: "message L X bs h r" and t: "status_team_object h x w"
  shows "view_status_team L (place X bs x) = Some w"
proof -
  from t obtain m v ys where m: "h x = Some (Table m)" "m Team_VT_POINTS = set_scalar (Int32 (wt_points w)) (Int32 0)"
      "m Team_VT_PLAYERS = Some (Reference v)" "h v = Some (Vector ys)"
      "list_all2 (player_object h) ys (wt_players w)"
    unfolding status_team_object_def by blast
  have "those (map (view_player L) (elements L (place X bs v))) = Some (wt_players w)"
    using view_player_object [OF M] by (rule view_elements [where R = player_object, OF M m(4,5)])
  then show ?thesis
    by (simp add: view_status_team_def Team_points_def Team_players_def GetPointer_Some [OF M m(1,3)]
        GetField_set [OF M m(1,2)])
qed

lemma view_status_object:
  assumes M: "message L X bs h x" and g: "status_object w h x"
  shows "view_status L bs = Some w"
proof -
  from g obtain m t ys v zs where m: "h x = Some (Table m)"
      "m Game_VT_SEQUENCE = set_scalar (Uint64 (wg_sequence w)) (Uint64 0)"
      "m Game_VT_TEAMS = Some (Reference t)" "h t = Some (Vector ys)"
      "list_all2 (status_team_object h) ys (wg_teams w)"
      "m Game_VT_BOXES = Some (Reference v)" "h v = Some (Vector zs)"
      "list_all2 (box_object h) zs (wg_boxes w)"
      "m Game_VT_FINISHED = set_scalar (Uint8 (of_bool (wg_finished w))) (Uint8 0)"
    unfolding status_object_def by blast
  have root: "GetGame L bs = place X bs x" using M by (simp add: GetGame_def message_def)
  have "those (map (view_status_team L) (elements L (place X bs t))) = Some (wg_teams w)"
    using view_status_team_object [OF M] by (rule view_elements [where R = status_team_object, OF M m(4,5)])
  moreover have "those (map (view_box L) (elements L (place X bs v))) = Some (wg_boxes w)"
    using view_box_object [OF M] by (rule view_elements [where R = box_object, OF M m(7,8)])
  ultimately show ?thesis
    by (simp add: view_status_def root Game_teams_def Game_boxes_def Game_sequence_def Game_finished_def
        GetPointer_Some [OF M m(1,3)] GetPointer_Some [OF M m(1,6)] GetField_set [OF M m(1,2)]
        GetField_set [OF M m(1,9)])
qed

text \<open>Their checks: a player is on the third level of tables.\<close>

lemma player_accepted:
  assumes M: "message L X bs h r" and p: "player_object h x w"
  shows "accepts X 1 1 (Player_Verify L (place X bs x))"
proof -
  from p obtain m n where m: "h x = Some (Table m)" "m Player_VT_NAME = Some (Reference n)" "h n = Some (Text (wp_name w))"
      "m Player_VT_ID = set_scalar (Uint32 (wp_id w)) (Uint32 0)"
      "m Player_VT_POINTS = set_scalar (Int32 (wp_points w)) (Int32 0)"
      "m Player_VT_POSITION = Some (Struct (Position (wp_longitude w) (wp_latitude w)))"
      "m Player_VT_VEHICLE = set_scalar (Int8 (vehicle_code (wp_vehicle w))) (Int8 0)"
    unfolding player_object_def by blast
  note field = accepts_field(1) [OF M m(1)]
  have name: "accepts X 0 0 (fb_VerifyString L (Player_name L (place X bs x)))"
    using m(3) by (auto simp: Player_name_def GetPointer_Some [OF M m(1,2)] intro!: accepts_string [OF M])
  have "list_all (accepts X 0 0)
     [fb_VerifyOffsetRequired L (place X bs x) Player_VT_NAME, fb_VerifyString L (Player_name L (place X bs x)),
      fb_VerifyField L (place X bs x) (Uint32 0) Player_VT_ID, fb_VerifyField L (place X bs x) (Int32 0) Player_VT_POINTS,
      fb_VerifyStructRequired L (place X bs x) Player_VT_POSITION,
      fb_VerifyField L (place X bs x) (Int8 0) Player_VT_VEHICLE]"
    by (simp add: name field [OF m(4)] field [OF m(5)] field [OF m(7)] accepts_field(2) [OF M m(1,6)]
        accepts_reference(2) [OF M m(1,2)])
  from accepts_table [OF M m(1) accepts_front_only [OF this]] show ?thesis by (simp add: Player_Verify_def)
qed

lemma box_accepted:
  assumes M: "message L X bs h r" and b: "box_object h x w"
  shows "accepts X 1 1 (PointBox_Verify L (place X bs x))"
proof -
  from b obtain m where m: "h x = Some (Table m)"
      "m PointBox_VT_POSITION = Some (Struct (Position (wb_longitude w) (wb_latitude w)))"
      "m PointBox_VT_VALUE = set_scalar (Int32 (wb_value w)) (Int32 0)"
    unfolding box_object_def by blast
  have "list_all (accepts X 0 0) [fb_VerifyStructRequired L (place X bs x) PointBox_VT_POSITION,
      fb_VerifyField L (place X bs x) (Int32 0) PointBox_VT_VALUE]"
    by (simp add: accepts_field(1) [OF M m(1,3)] accepts_field(2) [OF M m(1,2)])
  from accepts_table [OF M m(1) accepts_front_only [OF this]] show ?thesis by (simp add: PointBox_Verify_def)
qed

lemma accepts_elements:
  assumes M: "message L X bs h r" and v: "h v = Some (Vector ys)" "list_all2 (R h) ys ws"
    and f: "\<And>y w. R h y w \<Longrightarrow> accepts X l (cost w) (f (place X bs y))"
  shows "accepts X l (sum_list (map cost ws)) (fb_VerifyVectorOfTables L f (Some (place X bs v)))"
  using list_all2_mono [OF v(2) f] by (intro accepts_vector(2) [OF M v(1)]) (simp add: list.rel_map)

lemma status_team_accepted:
  assumes M: "message L X bs h r" and t: "status_team_object h x w"
  shows "accepts X 2 (1 + length (wt_players w)) (Team_Verify L (place X bs x))"
proof -
  from t obtain m v ys where m: "h x = Some (Table m)" "m Team_VT_POINTS = set_scalar (Int32 (wt_points w)) (Int32 0)"
      "m Team_VT_PLAYERS = Some (Reference v)" "h v = Some (Vector ys)"
      "list_all2 (player_object h) ys (wt_players w)"
    unfolding status_team_object_def by blast
  have players: "Team_players L (place X bs x) = Some (place X bs v)"
    by (simp add: Team_players_def GetPointer_Some [OF M m(1,3)])
  have "accepts X 1 (\<Sum>p\<leftarrow>wt_players w. 1) (fb_VerifyVectorOfTables L (Player_Verify L) (Some (place X bs v)))"
    using player_accepted [OF M] by (rule accepts_elements [where R = player_object, OF M m(4,5)])
  then have vec: "accepts X 1 (length (wt_players w))
      (fb_VerifyVectorOfTables L (Player_Verify L) (Team_players L (place X bs x)))"
    by (simp add: players sum_list_triv)
  have "list_all (accepts X 0 0) [fb_VerifyField L (place X bs x) (Int32 0) Team_VT_POINTS,
      fb_VerifyOffsetRequired L (place X bs x) Team_VT_PLAYERS, fb_VerifyVector L (Team_players L (place X bs x))]"
    by (simp add: players accepts_vector(1) [OF M m(4)] accepts_field(1) [OF M m(1,2)] accepts_reference(2) [OF M m(1,3)])
  from accepts_table [OF M m(1) accepts_front [OF this accepts_single [OF vec]]] show ?thesis
    by (simp add: Team_Verify_def eval_nat_numeral)
qed

lemma status_accepted:
  assumes M: "message L X bs h x" and g: "status_object w h x"
  shows "accepts X 3 (1 + (\<Sum>t\<leftarrow>wg_teams w. 1 + length (wt_players t)) + length (wg_boxes w))
    (Game_Verify L (place X bs x))"
proof -
  from g obtain m t ys v zs where m: "h x = Some (Table m)"
      "m Game_VT_SEQUENCE = set_scalar (Uint64 (wg_sequence w)) (Uint64 0)"
      "m Game_VT_TEAMS = Some (Reference t)" "h t = Some (Vector ys)"
      "list_all2 (status_team_object h) ys (wg_teams w)"
      "m Game_VT_BOXES = Some (Reference v)" "h v = Some (Vector zs)"
      "list_all2 (box_object h) zs (wg_boxes w)"
      "m Game_VT_FINISHED = set_scalar (Uint8 (of_bool (wg_finished w))) (Uint8 0)"
    unfolding status_object_def by blast
  have ps: "Game_teams L (place X bs x) = Some (place X bs t)" "Game_boxes L (place X bs x) = Some (place X bs v)"
    by (simp_all add: Game_teams_def Game_boxes_def GetPointer_Some [OF M m(1,3)] GetPointer_Some [OF M m(1,6)])
  have teams: "accepts X 2 (\<Sum>t\<leftarrow>wg_teams w. 1 + length (wt_players t))
      (fb_VerifyVectorOfTables L (Team_Verify L) (Game_teams L (place X bs x)))"
    unfolding ps using status_team_accepted [OF M]
    by (rule accepts_elements [where R = status_team_object, OF M m(4,5)])
  have "accepts X 1 (\<Sum>b\<leftarrow>wg_boxes w. 1) (fb_VerifyVectorOfTables L (PointBox_Verify L) (Some (place X bs v)))"
    using box_accepted [OF M] by (rule accepts_elements [where R = box_object, OF M m(7,8)])
  then have boxes: "accepts X 1 (length (wg_boxes w))
      (fb_VerifyVectorOfTables L (PointBox_Verify L) (Game_boxes L (place X bs x)))"
    by (simp add: ps sum_list_triv)
  have f1: "list_all (accepts X 0 0) [fb_VerifyField L (place X bs x) (Uint64 0) Game_VT_SEQUENCE,
      fb_VerifyOffsetRequired L (place X bs x) Game_VT_TEAMS, fb_VerifyVector L (Game_teams L (place X bs x))]"
    by (simp add: ps accepts_vector(1) [OF M m(4)] accepts_field(1) [OF M m(1,2)] accepts_reference(2) [OF M m(1,3)])
  have f2: "list_all (accepts X 0 0) [fb_VerifyOffset L (place X bs x) Game_VT_BOXES,
      fb_VerifyVector L (Game_boxes L (place X bs x))]"
    by (simp add: ps accepts_vector(1) [OF M m(7)] accepts_reference(1) [OF M m(1,6)])
  have f3: "accepts X 0 0 (all_of [fb_VerifyField L (place X bs x) (Uint8 0) Game_VT_FINISHED])"
    by (rule accepts_single) (rule accepts_field(1) [OF M m(1,9)], simp)
  note all = accepts_front [OF f1 accepts_Cons [OF teams accepts_front [OF f2 accepts_Cons [OF boxes f3]]]]
  from accepts_table [OF M m(1) all] show ?thesis
    by (simp add: Game_Verify_def eval_nat_numeral add.assoc)
qed

end
