(* ===== verification/Mockers.thy ===== *)
theory Mockers
  imports Main_Process_Comm
begin

text \<open>
  The test peers of src/client_communication_mocker and src/main_process_communication_mocker:
  they build the same datagrams from the outside, so their messages must get through. The
  FlatBuffers encodings are parameters, as in the other theories; Message_Flow instantiates them.
\<close>

section \<open>client_communication_mocker\<close>

definition MockInputDatagram :: "(wire_input \<Rightarrow> u8 list) \<Rightarrow> datagram \<Rightarrow> u64 \<Rightarrow> u32 \<Rightarrow> bool \<Rightarrow> double \<Rightarrow> datagram" where
  "MockInputDatagram encode d0 seq n mv dir =
     (let d = SetVersion 101 d0;
          d = SetPayloadChecksum False d;
          p = encode \<lparr>sequence = seq, wire_id = n, disconnect = False, wire_direction = dir, wire_move = mv\<rparr>
      in SetPayload p (length p) d)"

text \<open>The counts that \<open>DecodeGameStatus\<close> prints; None stands for the text of a wrong version.\<close>

record status_counts =
  teams_count :: nat
  players_count :: nat
  point_boxes_count :: nat
  finished_flag :: bool
  seq_number :: u64

definition DecodeGameStatus :: "(u8 list \<Rightarrow> wire_game option) \<Rightarrow> datagram \<Rightarrow> u8 list \<Rightarrow> nat \<Rightarrow>
    status_counts option outcome" where
  "DecodeGameStatus get_status d0 received len =
     (case Load received len d0 of
        (Thrown e, d) \<Rightarrow> Threw None
      | (Out_Of_Bounds, d) \<Rightarrow> Undefined_Behaviour
      | (Loaded, d) \<Rightarrow>
          if Version d = 100
          then case get_status (Payload d) of
              None \<Rightarrow> Undefined_Behaviour
            | Some s \<Rightarrow> Done (Some
                \<lparr>teams_count = length (wg_teams s),
                 players_count = (\<Sum>t\<leftarrow>wg_teams s. length (wt_players t)),
                 point_boxes_count = length (wg_boxes s),
                 finished_flag = wg_finished s, seq_number = wg_sequence s\<rparr>)
          else Done None)"

section \<open>main_process_communication_mocker\<close>

fun decimal :: "nat \<Rightarrow> string" where
  "decimal n = (if n < 10 then [char_of (48 + n)] else decimal (n div 10) @ [char_of (48 + n mod 10)])"

declare decimal.simps [simp del]

text \<open>
  One team. The variable \<open>vehicle\<close> is static: it goes round 1, 2, 3 over all calls, starting
  with 2 after its initial value 1; the constants of the schema are one lower.
\<close>

definition next_vehicle :: "u8 \<Rightarrow> u8" where
  "next_vehicle v = (if 3 < v + 1 then 1 else v + 1)"

fun mock_team :: "string \<Rightarrow> nat \<Rightarrow> nat \<Rightarrow> nat \<Rightarrow> nat \<Rightarrow> u8 \<Rightarrow> wire_client list \<times> u8" where
  "mock_team colour first_id first_port i 0 v = ([], v)"
| "mock_team colour first_id first_port i (Suc n) v =
     (let v = next_vehicle v;
          w = \<lparr>wc_name = ''player_'' @ decimal (i + 1) @ ''_team_'' @ colour,
               wc_id = word_of_nat (first_id + i), wc_ip = ''127.0.0.1'',
               wc_port = ucast (word_of_nat (first_port + i) :: u16),
               wc_vehicle = (if v = 1 then 0 else if v = 2 then 1 else if v = 3 then 2 else 0)\<rparr>;
          (ws, v) = mock_team colour first_id first_port (i + 1) n v
      in (w # ws, v))"

text \<open>The two static variables are passed and returned.\<close>

definition MockPlayerListDatagram :: "(wire_client list list \<Rightarrow> u8 list) \<Rightarrow> datagram \<Rightarrow> nat \<Rightarrow> nat \<Rightarrow>
    u8 \<times> u8 \<Rightarrow> datagram \<times> u8 \<times> u8" where
  "MockPlayerListDatagram encode d0 team_1_player_count team_2_player_count statics =
     (let (red, v1) = mock_team ''red'' 1000 5100 0 team_1_player_count (fst statics);
          (blue, v2) = mock_team ''blue'' 2000 5500 0 team_2_player_count (snd statics);
          p = encode [red, blue];
          d = SetVersion 10 d0;
          d = SetPayloadChecksum True d
      in (SetPayload p (length p) d, v1, v2))"

text \<open>What the mocker writes on an accepted connection: the datagram between two pieces of text.\<close>

definition mocked_bytes :: "datagram \<Rightarrow> u8 list" where
  "mocked_bytes message = [116, 101, 115, 116] @ Get message @ [116, 101, 115, 116] @ [0xAB]"

section \<open>Properties\<close>

lemma length_mock_team: "length (fst (mock_team colour m q i n v)) = n"
  by (induction n arbitrary: i v) (simp_all add: Let_def case_prod_beta')

lemma mock_team_ids: "map wc_id (fst (mock_team colour m q i n v)) = map (\<lambda>k. word_of_nat (m + k)) [i..<i + n]"
proof (induction n arbitrary: i v)
  case (Suc n)
  have "[i..<i + Suc n] = i # [i + 1..<(i + 1) + n]" by (simp add: upt_conv_Cons)
  with Suc [of "i + 1"] show ?case by (simp add: Let_def case_prod_beta')
qed simp

lemma mock_team_ip: "w \<in> set (fst (mock_team colour m q i n v)) \<Longrightarrow> wc_ip w = ''127.0.0.1''"
proof (induction n arbitrary: i v)
  case (Suc n)
  from Suc.prems Suc.IH [of "i + 1"] show ?case by (auto simp: Let_def case_prod_beta')
qed simp

text \<open>
  The client mocker is understood: if the view of a payload undoes its encoding, the input it
  sends with a fresh sequence number is accepted by the client it names, which then moves as told.
\<close>

theorem mocked_input_accepted:
  assumes "i = \<lparr>sequence = seq, wire_id = Id c, disconnect = False, wire_direction = dir, wire_move = mv\<rparr>"
    "get_input (encode i) = Some i" "length (encode i) < 2 ^ 32" "last_sequence c < seq"
  shows "DecodeDatagram get_input d1 (Get (MockInputDatagram encode d0 seq (Id c) mv dir))
      (length (Get (MockInputDatagram encode d0 seq (Id c) mv dir))) c =
    (Result True, c\<lparr>input := (input c)\<lparr>move := mv, direction := dir\<rparr>, last_sequence := seq\<rparr>)"
proof -
  let ?d = "MockInputDatagram encode d0 seq (Id c) mv dir"
  have d: "payload ?d = encode i" "version ?d = 101"
    using assms(1,3) by (simp_all add: MockInputDatagram_def SetPayload_def SetPayloadChecksum_def
        SetVersion_def Let_def)
  have load: "Load (Get ?d) (length (Get ?d)) d1 = (Loaded, loaded_from ?d d1)"
    using Load_Get [of ?d _ "[]" d1] d(1) assms(3) by simp
  have "Version (loaded_from ?d d1) = 101" "get_input (Payload (loaded_from ?d d1)) = Some i"
    using d assms(2) by (simp_all add: Version_def Payload_def loaded_from_def)
  from DecodeDatagram_accepts [where get_input = get_input and i = i and c = c, OF load this] show ?thesis
    using assms(1,4) by simp
qed

theorem mocked_input_accepted_witness:
  "fst (DecodeDatagram example_view zero_datagram
     (Get (MockInputDatagram (\<lambda>i. [0x41]) zero_datagram 1 5 True (Fin 0))) 13 example_client) = Result True"
  using mocked_input_accepted [of example_input 1 example_client "Fin 0" True example_view "\<lambda>i. [0x41]"
      zero_datagram zero_datagram]
  by (simp add: example_input_def example_client_def example_view_def Get_eq MockInputDatagram_def
      SetVersion_def SetPayloadChecksum_def SetPayload_def header_size_def Let_def)

text \<open>
  The mocker of the main process is understood through its noise: from the text, the datagram
  and the text that it writes, received at once, the stream delivers exactly the datagram, as
  version 10 with a correct payload that lists as many players as asked for in each team.
\<close>

theorem mocked_players_delivered:
  assumes "red = fst (mock_team ''red'' 1000 5100 0 m (fst statics))"
    "blue = fst (mock_team ''blue'' 2000 5500 0 n (snd statics))"
    "length (encode [red, blue]) < 2 ^ 32"
  shows "\<exists>r t. receive (new_stream d1)
      (mocked_bytes (fst (MockPlayerListDatagram encode d0 m n statics))) = Some ([r], t) \<and>
    Version r = 10 \<and> PayloadCorrectness r \<and> Payload r = encode [red, blue] \<and>
    map wc_id red = map (\<lambda>k. word_of_nat (1000 + k)) [0..<m] \<and>
    map wc_id blue = map (\<lambda>k. word_of_nat (2000 + k)) [0..<n]"
proof -
  let ?d = "fst (MockPlayerListDatagram encode d0 m n statics)"
  have d: "payload ?d = encode [red, blue]" "version ?d = 10"
    using assms by (simp_all add: MockPlayerListDatagram_def SetPayload_def SetPayloadChecksum_def
        SetVersion_def Let_def case_prod_beta')
  have "list_all sendable [([116, 101, 115, 116], ?d)]"
    using d(1) assms(3) by (simp add: sendable_def LOWER_def BEGIN_SEQUENCE_def)
  from drain_frames [OF this, of "[116, 101, 115, 116, 0xAB]" "push (new_stream d1) (mocked_bytes ?d)"]
  obtain ms t where "receive (new_stream d1) (mocked_bytes ?d) = Some (ms, t)"
      "list_all2 same_message [?d] ms"
    by (auto simp: receive_drain new_stream_def sent_def mocked_bytes_def LOWER_def BEGIN_SEQUENCE_def)
  then obtain r where "receive (new_stream d1) (mocked_bytes ?d) = Some ([r], t)" "same_message ?d r"
    by (auto simp: list_all2_Cons1)
  with d mock_team_ids [of "''red''" 1000 5100 0 m] mock_team_ids [of "''blue''" 2000 5500 0 n] assms(1,2)
  show ?thesis by (auto simp: same_message_def Version_def Payload_def)
qed

theorem mocked_players_delivered_witness:
  "\<exists>r t. receive (new_stream zero_datagram)
     (mocked_bytes (fst (MockPlayerListDatagram (\<lambda>ts. [1, 2]) zero_datagram 5 5 (1, 1)))) = Some ([r], t) \<and>
     Payload r = [1, 2]"
  using mocked_players_delivered [OF refl refl, of "\<lambda>ts. [1, 2]" 5 "(1, 1)" 5 zero_datagram zero_datagram]
  by auto

end
