(* ===== verification/Flatbuffers_Example.thy ===== *)
theory Flatbuffers_Example
  imports Flatbuffers
begin

text \<open>
  A small library that behaves as documented, for the witnesses. An object is a list of numbers,
  its offset its position from 1 on, and a message all of them in unary; of the floating point
  numbers only the natural ones are represented.
\<close>

section \<open>Lists of numbers as bytes\<close>

definition unary :: "nat list \<Rightarrow> u8 list" where
  "unary ns = concat (map (\<lambda>n. replicate n 1 @ [0]) ns) @ [2]"

fun numbers :: "nat \<Rightarrow> nat list \<Rightarrow> u8 list \<Rightarrow> nat list list" where
  "numbers n ns [] = []"
| "numbers n ns (b # bs) =
     (if b = 1 then numbers (n + 1) ns bs else if b = 0 then numbers 0 (ns @ [n]) bs
      else ns # numbers 0 [] bs)"

lemma numbers_ones: "numbers n ns (replicate k 1 @ 0 # bs) = numbers 0 (ns @ [n + k]) bs"
  by (induction k arbitrary: n) simp_all

lemma numbers_unary: "numbers 0 ns (unary ms @ bs) = (ns @ ms) # numbers 0 [] bs"
  by (induction ms arbitrary: ns) (simp_all add: unary_def numbers_ones)

lemma numbers_concat: "numbers 0 [] (concat (map unary os)) = os"
  by (induction os) (simp_all add: numbers_unary)

lemma length_unary: "length (unary ns) = sum_list ns + length ns + 1"
  by (induction ns) (simp_all add: unary_def)

section \<open>Objects as lists of numbers\<close>

fun natural :: "double \<Rightarrow> nat" where
  "natural (Fin r) = nat \<lfloor>r\<rfloor>"
| "natural _ = 0"

definition is_natural :: "double \<Rightarrow> bool" where
  "is_natural d \<longleftrightarrow> d = Fin (real (natural d))"

fun entry_code :: "nat entry \<Rightarrow> nat list" where
  "entry_code (Scalar (Uint64 w)) = [0, unat w, 0]"
| "entry_code (Scalar (Uint32 w)) = [1, unat w, 0]"
| "entry_code (Scalar (Int32 w)) = [2, unat w, 0]"
| "entry_code (Scalar (Uint8 w)) = [3, unat w, 0]"
| "entry_code (Scalar (Int8 w)) = [4, unat w, 0]"
| "entry_code (Scalar (Float32 x)) = [5, natural x, 0]"
| "entry_code (Reference x) = [6, x, 0]"
| "entry_code (Struct (Position x y)) = [7, natural x, natural y]"

fun entry_of :: "nat \<Rightarrow> nat \<Rightarrow> nat \<Rightarrow> nat entry" where
  "entry_of t n k =
     (if t = 0 then Scalar (Uint64 (word_of_nat n)) else if t = 1 then Scalar (Uint32 (word_of_nat n))
      else if t = 2 then Scalar (Int32 (word_of_nat n)) else if t = 3 then Scalar (Uint8 (word_of_nat n))
      else if t = 4 then Scalar (Int8 (word_of_nat n)) else if t = 5 then Scalar (Float32 (Fin (real n)))
      else if t = 6 then Reference n else Struct (Position (Fin (real n)) (Fin (real k))))"

fun fields_of :: "nat list \<Rightarrow> nat fields" where
  "fields_of (f # t # n # k # ns) = (fields_of ns)(word_of_nat f \<mapsto> entry_of t n k)"
| "fields_of _ = Map.empty"

definition object_of :: "nat list \<Rightarrow> nat object" where
  "object_of ns = (case ns of
       [] \<Rightarrow> Text []
     | t # ns \<Rightarrow> if t = 0 then Text (map char_of ns) else if t = 1 then Vector ns else Table (fields_of ns))"

definition heap_of :: "nat list list \<Rightarrow> nat heap" where
  "heap_of os x = (if 0 < x \<and> x \<le> length os then Some (object_of (os ! (x - 1))) else None)"

definition set_field :: "voffset \<Rightarrow> nat entry \<Rightarrow> nat list \<Rightarrow> nat list" where
  "set_field f e ns = unat f # entry_code e @ ns"

section \<open>The library\<close>

type_synonym small_builder = "nat list option \<times> nat list list \<times> nat \<times> bool"
type_synonym small_pointer = "nat list list \<times> nat"
type_synonym small_verifier = "u8 list \<times> nat \<times> nat"

definition on_fields :: "(nat list \<Rightarrow> nat list) \<Rightarrow> small_builder \<Rightarrow> small_builder option" where
  "on_fields g b = (case b of (None, os, r) \<Rightarrow> None | (Some ns, os, r) \<Rightarrow> Some (Some (g ns), os, r))"

definition new_object :: "nat list \<Rightarrow> small_builder \<Rightarrow> (nat \<times> small_builder) option" where
  "new_object ns b = (case b of (None, os, r) \<Rightarrow> Some (Suc (length os), (None, os @ [ns], r)) | _ \<Rightarrow> None)"

fun pointed :: "small_pointer \<Rightarrow> nat object option" where
  "pointed (os, x) = heap_of os x"

definition field_at :: "small_pointer \<Rightarrow> voffset \<Rightarrow> nat entry option" where
  "field_at p f = (case pointed p of Some (Table m) \<Rightarrow> m f | _ \<Rightarrow> None)"

definition skip_if :: "bool \<Rightarrow> small_verifier check" where
  "skip_if ok v = (ok, v)"

definition small_check_all :: "(small_pointer \<Rightarrow> small_verifier check) \<Rightarrow> small_pointer option \<Rightarrow> small_verifier check" where
  "small_check_all c p = (case p of None \<Rightarrow> skip_if True
     | Some p \<Rightarrow> (case pointed p of Some (Vector ys) \<Rightarrow> all_of (map (\<lambda>y. c (fst p, y)) ys) | _ \<Rightarrow> skip_if False))"

definition bytes_of :: "nat \<Rightarrow> nat list list \<Rightarrow> u8 list" where
  "bytes_of r os = concat (map unary ([r] # os))"

definition root_of :: "u8 list \<Rightarrow> small_pointer" where
  "root_of bs = (let os = numbers 0 [] bs in (tl os, hd (hd os)))"

definition small_library :: "(small_builder, nat, small_pointer, small_verifier) flatbuffers" where
  "small_library = \<lparr>
     fb_IsOutRange = (\<lambda>e low high. sint e < sint low \<or> sint high < sint e),
     fb_null = 0,
     fb_FlatBufferBuilder = (None, [], 0, False),
     fb_StartTable = (\<lambda>b. case b of (None, os, r) \<Rightarrow> Some (0, (Some [], os, r)) | _ \<Rightarrow> None),
     fb_AddElement = (\<lambda>f v d. on_fields (\<lambda>ns. if v = d then ns else set_field f (Scalar v) ns)),
     fb_AddOffset = (\<lambda>f x. on_fields (\<lambda>ns. if x = 0 then ns else set_field f (Reference x) ns)),
     fb_AddStruct = (\<lambda>f s. on_fields (\<lambda>ns. case s of None \<Rightarrow> ns | Some s \<Rightarrow> set_field f (Struct s) ns)),
     fb_EndTable = (\<lambda>w b. case b of (Some ns, os, r) \<Rightarrow> new_object (2 # ns) (None, os, r) | _ \<Rightarrow> None),
     fb_Required = (\<lambda>x f b. if field_at (fst (snd b), x) f = None then None else Some b),
     fb_CreateString = (\<lambda>s. new_object (0 # map of_char s)),
     fb_CreateVector = (\<lambda>xs. new_object (1 # xs)),
     fb_Finish = (\<lambda>x b. case b of (None, os, r) \<Rightarrow> Some (None, os, x, False) | _ \<Rightarrow> None),
     fb_FinishSizePrefixed = (\<lambda>x b. case b of (None, os, r) \<Rightarrow> Some (None, os, x, True) | _ \<Rightarrow> None),
     fb_GetBuffer = (\<lambda>(w, os, r, prefixed). (if prefixed then le32 (word_of_nat (length (bytes_of r os))) else []) @
       bytes_of r os),
     fb_GetRoot = (\<lambda>bs. root_of bs),
     fb_GetSizePrefixedRoot = (\<lambda>bs. root_of (drop 4 bs)),
     fb_GetField = (\<lambda>p f d. case field_at p f of Some (Scalar v) \<Rightarrow> v | _ \<Rightarrow> d),
     fb_GetPointer = (\<lambda>p f. case field_at p f of Some (Reference x) \<Rightarrow> Some (fst p, x) | _ \<Rightarrow> None),
     fb_GetStruct = (\<lambda>p f. case field_at p f of Some (Struct s) \<Rightarrow> Some s | _ \<Rightarrow> None),
     fb_str = (\<lambda>p. case pointed p of Some (Text s) \<Rightarrow> s | _ \<Rightarrow> []),
     fb_size = (\<lambda>p. case pointed p of Some (Vector ys) \<Rightarrow> length ys | _ \<Rightarrow> 0),
     fb_Get = (\<lambda>p i. case pointed p of Some (Vector ys) \<Rightarrow> (fst p, ys ! i) | _ \<Rightarrow> p),
     fb_Verifier = (\<lambda>bs. (bs, 64, 1000000)),
     fb_VerifyTableStart = (\<lambda>p (bs, l, n). (0 < l \<and> 0 < n, (bs, l - 1, n - 1))),
     fb_VerifyField = (\<lambda>p d f. skip_if (case field_at p f of None \<Rightarrow> True | Some (Scalar s) \<Rightarrow> same_type s d | _ \<Rightarrow> False)),
     fb_VerifyStructRequired = (\<lambda>p f. skip_if (case field_at p f of Some (Struct s) \<Rightarrow> True | _ \<Rightarrow> False)),
     fb_VerifyOffset = (\<lambda>p f. skip_if (case field_at p f of None \<Rightarrow> True | Some (Reference x) \<Rightarrow> True | _ \<Rightarrow> False)),
     fb_VerifyOffsetRequired = (\<lambda>p f. skip_if (case field_at p f of Some (Reference x) \<Rightarrow> True | _ \<Rightarrow> False)),
     fb_VerifyString = (\<lambda>p. skip_if (case p of None \<Rightarrow> True
       | Some p \<Rightarrow> (case pointed p of Some (Text s) \<Rightarrow> True | _ \<Rightarrow> False))),
     fb_VerifyVector = (\<lambda>p. skip_if (case p of None \<Rightarrow> True
       | Some p \<Rightarrow> (case pointed p of Some (Vector ys) \<Rightarrow> True | _ \<Rightarrow> False))),
     fb_VerifyTable = (\<lambda>c p. case p of None \<Rightarrow> skip_if True | Some p \<Rightarrow> c p),
     fb_VerifyVectorOfTables = small_check_all,
     fb_VerifyEndTable = (\<lambda>(bs, l, n). (True, (bs, l + 1, n))),
     fb_VerifyBuffer = (\<lambda>c v. c (root_of (fst v)) v),
     fb_VerifySizePrefixedBuffer = (\<lambda>c v. c (root_of (drop 4 (fst v))) v)\<rparr>"

definition small_meaning :: "(small_builder, nat, small_pointer, small_verifier) meaning" where
  "small_meaning = \<lparr>
     made = (\<lambda>(w, os, r, prefixed). (map_option (\<lambda>ns. (0, fields_of ns)) w, heap_of os)),
     place = (\<lambda>bs x. (tl (numbers 0 [] bs), x)),
     levels_left = (\<lambda>(bs, l, n). l),
     tables_left = (\<lambda>(bs, l, n). n),
     representable = is_natural\<rparr>"

section \<open>It behaves as documented\<close>

lemma numbers_bytes [simp]: "numbers 0 [] (bytes_of r os) = [r] # os"
  unfolding bytes_of_def by (rule numbers_concat)

lemma root_of_bytes [simp]: "root_of (bytes_of r os) = (os, r)"
  by (simp add: root_of_def)

lemma fields_of_set_field [simp]:
  "holds_scalar is_natural v \<Longrightarrow> fields_of (set_field f (Scalar v) ns) = (fields_of ns)(f \<mapsto> Scalar v)"
  "fields_of (set_field f (Reference x) ns) = (fields_of ns)(f \<mapsto> Reference x)"
  "holds_struct is_natural (Some p) \<Longrightarrow>
    fields_of (set_field f (Struct p) ns) = (fields_of ns)(f \<mapsto> Struct p)"
    apply (cases v; simp add: set_field_def is_natural_def)
   apply (simp add: set_field_def)
  apply (cases p; simp add: set_field_def is_natural_def)
  done

lemma heap_of_new: "(heap_of os)(Suc (length os) \<mapsto> object_of ns) = heap_of (os @ [ns])"
  by (auto simp: heap_of_def fun_eq_iff nth_append)

lemma heap_of_empty: "heap_of [] = Map.empty"
  by (auto simp: heap_of_def fun_eq_iff)

lemma heap_of_fresh [simp]: "heap_of os (Suc (length os)) = None"
  by (simp add: heap_of_def)

lemma object_of_objects:
  "object_of (2 # ns) = Table (fields_of ns)" "object_of (Suc 0 # xs) = Vector xs"
  "object_of (0 # map of_char s) = Text s"
  by (simp_all add: object_of_def comp_def)

lemmas small_defs = small_library_def small_meaning_def

lemma small_field_laws: "field_laws small_library small_meaning"
  unfolding field_laws_def small_defs on_fields_def
  by (auto simp: with_scalar_def with_offset_def with_struct_def
      split: option.splits prod.splits)

lemma small_object_laws: "object_laws small_library small_meaning"
  unfolding object_laws_def
  by (auto simp: small_defs new_object_def field_at_def heap_of_new [symmetric] object_of_objects
      heap_of_empty split: option.splits prod.splits)

lemma small_reads: "reads small_library small_meaning (bytes_of r os) (heap_of os)"
  unfolding reads_def small_defs by (auto simp: field_at_def)

lemma small_verifies: "verifies small_library small_meaning (bytes_of r os) (heap_of os)"
  unfolding verifies_def small_defs
  by (auto simp: field_at_def skip_if_def small_check_all_def split: option.splits entry.splits)

lemma small_message_laws: "message_laws small_library small_meaning"
  unfolding message_laws_def
proof (intro conjI allI impI)
  fix b h x
  assume b: "made small_meaning b = (None, h)"
  obtain w os r q where "b = (w, os, r, q)" by (cases b)
  with b have b: "b = (None, os, r, q)" "h = heap_of os" by (auto simp: small_defs)
  have "place small_meaning (bytes_of x os) = (\<lambda>y. (os, y))" by (simp add: small_defs)
  with small_reads [of x os] small_verifies [of x os] b
  show "\<exists>b'. fb_Finish small_library x b = Some b' \<and>
      reads small_library small_meaning (fb_GetBuffer small_library b') h \<and>
      verifies small_library small_meaning (fb_GetBuffer small_library b') h \<and>
      fb_GetRoot small_library (fb_GetBuffer small_library b') =
        place small_meaning (fb_GetBuffer small_library b') x \<and>
      (\<forall>c. fb_VerifyBuffer small_library c (fb_Verifier small_library (fb_GetBuffer small_library b')) =
        c (place small_meaning (fb_GetBuffer small_library b') x)
          (fb_Verifier small_library (fb_GetBuffer small_library b')))"
    and "\<exists>b' bs. fb_FinishSizePrefixed small_library x b = Some b' \<and>
      bs = drop 4 (fb_GetBuffer small_library b') \<and> reads small_library small_meaning bs h \<and>
      verifies small_library small_meaning bs h \<and>
      fb_GetSizePrefixedRoot small_library (fb_GetBuffer small_library b') = place small_meaning bs x \<and>
      (\<forall>c. fb_VerifySizePrefixedBuffer small_library c (fb_Verifier small_library (fb_GetBuffer small_library b')) =
        c (place small_meaning bs x) (fb_Verifier small_library (fb_GetBuffer small_library b')))"
    by (simp_all add: small_defs)
qed (simp_all add: small_defs)

lemma small_documented: "documented small_library small_meaning"
  by (simp add: documented_def small_field_laws small_object_laws small_message_laws)
    (simp add: small_library_def)

end
