(* ===== verification/Message_Flow.thy ===== *)
theory Message_Flow
  imports Input_Message Notice_Messages Game_Message Status_Message Mockers Flatbuffers_Example
begin

text \<open>
  The messages from end to end: what one side writes with the FlatBuffers builder and puts into a
  datagram is what the other side reads from the datagram with the accessors. Here the parameters
  \<open>encode\<close>, \<open>get_input\<close> and \<open>get_game\<close> of the communication theories are the functions of the
  schema theories, for any library that behaves as documented.
\<close>

section \<open>The encodings\<close>

text \<open>The bytes of a finished builder. That a build comes to its end is part of the theorems.\<close>

definition finished :: "u8 list option \<Rightarrow> u8 list" where
  "finished r = (case r of None \<Rightarrow> [] | Some bs \<Rightarrow> bs)"

definition encode_input :: "('b, 'o, 'p, 'v) flatbuffers \<Rightarrow> wire_input \<Rightarrow> u8 list" where
  "encode_input L i = finished (write_input L i)"

definition encode_status :: "('b, 'o, 'p, 'v) flatbuffers \<Rightarrow> wire_game \<Rightarrow> u8 list" where
  "encode_status L w = finished (write_status L w)"

definition encode_id :: "('b, 'o, 'p, 'v) flatbuffers \<Rightarrow> u32 \<Rightarrow> u8 list" where
  "encode_id L n = finished (write_game_id L n)"

definition encode_end :: "('b, 'o, 'p, 'v) flatbuffers \<Rightarrow> bool \<Rightarrow> u8 list" where
  "encode_end L e = finished (write_game_ended L e)"

definition encode_players :: "('b, 'o, 'p, 'v) flatbuffers \<Rightarrow> wire_client list list \<Rightarrow> u8 list" where
  "encode_players L teams = finished (write_player_list L (teams ! 0) (teams ! 1))"

section \<open>Library\<close>

lemma status_written:
  assumes "documented L X" "representable_status (representable X) w"
  obtains h x where "write_status L w = Some (encode_status L w)" "message L X (encode_status L w) h x"
    "status_object w h x"
  by (rule write_status_message [OF assms]) (simp add: that encode_status_def finished_def)

lemma players_written:
  assumes "documented L X"
  obtains h x where "write_player_list L red blue = Some (encode_players L [red, blue])"
    "message L X (encode_players L [red, blue]) h x" "game_object (full_client (fb_null L)) [red, blue] h x"
  by (rule write_player_list_message [OF assms, of red blue]) (simp add: that encode_players_def finished_def)

lemma input_written:
  assumes "documented L X" "representable X (wire_direction i)"
  obtains h x m where "write_input L i = Some (encode_input L i)" "message L X (encode_input L i) h x"
    "h x = Some (Table m)" "input_table i m"
  by (rule write_input_message [OF assms]) (simp add: that encode_input_def finished_def)

lemma id_written:
  assumes "documented L X"
  obtains h x m where "write_game_id L n = Some (encode_id L n)" "message L X (encode_id L n) h x"
    "h x = Some (Table m)" "m FGameId_VT_ID = set_scalar (Int32 n) (Int32 0)"
  by (rule write_game_id_message [OF assms, of n]) (simp add: that encode_id_def finished_def)

lemma end_written:
  assumes "documented L X"
  obtains h x m where "write_game_ended L e = Some (encode_end L e)" "message L X (encode_end L e) h x"
    "h x = Some (Table m)" "m FGameEnded_VT_ENDED = set_scalar (Uint8 (of_bool e)) (Uint8 0)"
  by (rule write_game_ended_message [OF assms, of e]) (simp add: that encode_end_def finished_def)

section \<open>Properties\<close>

text \<open>
  C13. Every message that the program and its test peers write has the types of its schema: the
  generated checks accept it with the default limits of the verifier, as long as it has at most a
  million tables.
\<close>

theorem messages_pass_verification:
  assumes "documented L X" "representable X (wire_direction i)" "representable_status (representable X) w"
    "(\<Sum>t\<leftarrow>wg_teams w. 1 + length (wt_players t)) + length (wg_boxes w) < 1000000"
    "2 * (length red + length blue) + 3 \<le> 1000000"
  shows "(\<exists>bs. write_input L i = Some bs \<and> fst (VerifyInputBuffer L (fb_Verifier L bs))) \<and>
    (\<exists>bs. write_game_id L n = Some bs \<and> fst (VerifyFGameIdBuffer L (fb_Verifier L bs))) \<and>
    (\<exists>bs. write_game_ended L e = Some bs \<and> fst (VerifyFGameEndedBuffer L (fb_Verifier L bs))) \<and>
    (\<exists>bs. write_player_list L red blue = Some bs \<and> fst (VerifyFGameBuffer L (fb_Verifier L bs))) \<and>
    (\<exists>bs. write_status L w = Some bs \<and> fst (VerifyGameBuffer L (fb_Verifier L bs)))"
proof (intro conjI)
  note D = assms(1)
  show "\<exists>bs. write_input L i = Some bs \<and> fst (VerifyInputBuffer L (fb_Verifier L bs))"
    using VerifyBuffer_accepts input_accepted unfolding VerifyInputBuffer_def
    by (rule_tac input_written [OF D assms(2)]) fastforce
  show "\<exists>bs. write_game_id L n = Some bs \<and> fst (VerifyFGameIdBuffer L (fb_Verifier L bs))"
    using VerifyBuffer_accepts game_id_reads(2) unfolding VerifyFGameIdBuffer_def
    by (rule_tac id_written [OF D, of n]) fastforce
  show "\<exists>bs. write_game_ended L e = Some bs \<and> fst (VerifyFGameEndedBuffer L (fb_Verifier L bs))"
    using VerifyBuffer_accepts game_ended_reads(2) unfolding VerifyFGameEndedBuffer_def
    by (rule_tac end_written [OF D, of e]) fastforce
  have cost: "accepts X 2 2 (FClient_Verify L (place X bs y))"
    if "message L X bs h r" "full_client (fb_null L) h y c" for bs h r y c
    using that client_accepted [OF that(1)] unfolding full_client_def by fastforce
  have tables: "1 + (\<Sum>ws\<leftarrow>[red, blue]. 1 + sum_list (map (\<lambda>_. 2) ws)) \<le> (1000000 :: nat)"
    using assms(5) by (simp add: sum_list_triv)
  show "\<exists>bs. write_player_list L red blue = Some bs \<and> fst (VerifyFGameBuffer L (fb_Verifier L bs))"
  proof (rule players_written [OF D, of red blue])
    fix h x
    assume w: "write_player_list L red blue = Some (encode_players L [red, blue])"
      and M: "message L X (encode_players L [red, blue]) h x"
      and g: "game_object (full_client (fb_null L)) [red, blue] h x"
    have "accepts X 4 (1 + (\<Sum>ws\<leftarrow>[red, blue]. 1 + sum_list (map (\<lambda>_. 2) ws)))
        (FGame_Verify L (place X (encode_players L [red, blue]) x))"
      using cost [OF M] by (rule game_accepted [OF M g])
    from VerifyBuffer_accepts [where c = "FGame_Verify L", OF M this _ tables] w show ?thesis by (simp add: VerifyFGameBuffer_def)
  qed
  show "\<exists>bs. write_status L w = Some bs \<and> fst (VerifyGameBuffer L (fb_Verifier L bs))"
  proof (rule status_written [OF D assms(3)])
    fix h x
    assume w: "write_status L w = Some (encode_status L w)"
      and M: "message L X (encode_status L w) h x" and g: "status_object w h x"
    from VerifyBuffer_accepts [where c = "Game_Verify L", OF M status_accepted [OF M g]] assms(4) w show ?thesis
      by (simp add: VerifyGameBuffer_def)
  qed
qed

text \<open>A library, an input, a status and a list on which the theorems are applied.\<close>

lemma natural_zero: "representable small_meaning (Fin 0)"
  by (simp add: small_meaning_def is_natural_def)

definition one_player_game :: game where
  "one_player_game = (Game 100 origin (Fin 1000))\<lparr>red_team := \<lparr>players = [Player ''ann'' 5 CAR]\<rparr>\<rparr>"

definition one_player_logic :: game_logic where
  "one_player_logic = example_gl\<lparr>game := Some one_player_game\<rparr>"

lemma one_player_status: "GenerateFlatbuffers one_player_game 0 =
  \<lparr>wg_sequence = 0, wg_teams = [\<lparr>wt_points = 0, wt_players = [\<lparr>wp_name = ''ann'', wp_id = 5, wp_points = 0,
      wp_longitude = Fin 0, wp_latitude = Fin 0, wp_vehicle = CAR\<rparr>]\<rparr>, \<lparr>wt_points = 0, wt_players = []\<rparr>],
    wg_boxes = [], wg_finished = False\<rparr>"
  by (simp add: GenerateFlatbuffers_def Team_GenerateFlatbuffers_def Player_GenerateFlatbuffers_def
      one_player_game_def Game_def Player_def Score_def RedTeamWon_def BlueTeamWon_def)

lemma one_player_representable: "representable_status (representable small_meaning) (GenerateFlatbuffers one_player_game 0)"
  by (simp add: one_player_status representable_status_def natural_zero)

theorem messages_pass_verification_witness:
  "fst (VerifyGameBuffer small_library (fb_Verifier small_library
     (encode_status small_library (GenerateFlatbuffers one_player_game 0))))"
proof -
  have "(\<Sum>t\<leftarrow>wg_teams (GenerateFlatbuffers one_player_game 0). 1 + length (wt_players t)) +
      length (wg_boxes (GenerateFlatbuffers one_player_game 0)) < 1000000"
    by (simp add: one_player_status)
  from messages_pass_verification [OF small_documented _ one_player_representable this, of example_input "[]" "[]" 1 True]
  show ?thesis by (auto simp: example_input_def natural_zero encode_status_def finished_def)
qed

text \<open>
  C5. The status of the game reaches the clients. With a game, each expiry of the timer sends every
  client a datagram; whoever loads it finds a correct payload in which the accessors read the
  whole status, field by field, as \<open>GenerateFlatbuffers\<close> gave it to the builder, and the test
  client counts what is in the game.
\<close>

theorem status_reaches_the_clients:
  assumes "documented L X" "game gl = Some g" "logic_assigned cc" "\<not> clients_locked cc"
    and w: "w = GenerateFlatbuffers g (serialization_seq_num gl)"
    and "representable_status (representable X) w" "length (encode_status L w) < 2 ^ 32"
  shows "\<exists>cc' bytes d. write_status L w = Some (encode_status L w) \<and>
    transmit_handler (encode_status L) d0 gl cc = Done (cc', map (\<lambda>c. (remote_endpoint c, bytes)) (clients cc), 1) \<and>
    Load bytes (length bytes) d1 = (Loaded, d) \<and> PayloadCorrectness d \<and> view_status L (Payload d) = Some w \<and>
    DecodeGameStatus (view_status L) d1 bytes (length bytes) = Done (Some
      \<lparr>teams_count = 2, players_count = length (players (red_team g)) + length (players (blue_team g)),
       point_boxes_count = length (point_boxes g), finished_flag = RedTeamWon g \<or> BlueTeamWon g,
       seq_number = serialization_seq_num gl\<rparr>)"
proof -
  obtain h x where m: "write_status L w = Some (encode_status L w)" "message L X (encode_status L w) h x"
    "status_object w h x" by (rule status_written [OF assms(1,6)])
  have view: "view_status L (encode_status L w) = Some w" by (rule view_status_object [OF m(2,3)])
  have "GetGameStatus gl = Some w" using assms(2) w by (simp add: GetGameStatus_def)
  from status_arrives_intact [where encode = "encode_status L", OF assms(3,4) this assms(7), of d0 d1] obtain cc' bytes d where
    t: "transmit_handler (encode_status L) d0 gl cc = Done (cc', map (\<lambda>c. (remote_endpoint c, bytes)) (clients cc), 1)"
      "Load bytes (length bytes) d1 = (Loaded, d)" "Version d = 100" "PayloadCorrectness d"
      "Payload d = encode_status L w" by blast
  moreover have "DecodeGameStatus (view_status L) d1 bytes (length bytes) = Done (Some
      \<lparr>teams_count = 2, players_count = length (players (red_team g)) + length (players (blue_team g)),
       point_boxes_count = length (point_boxes g), finished_flag = RedTeamWon g \<or> BlueTeamWon g,
       seq_number = serialization_seq_num gl\<rparr>)"
    using t view w by (simp add: DecodeGameStatus_def GenerateFlatbuffers_def Team_GenerateFlatbuffers_def)
  ultimately show ?thesis using m(1) view by auto
qed

lemma encode_status_length: "length (encode_status small_library (GenerateFlatbuffers one_player_game 0)) < 2 ^ 32"
  by (simp add: one_player_status encode_status_def finished_def write_status_def build_status_def write_team_def
      write_player_def CreatePlayer_def CreateTeam_def CreateGame_def PlayerBuilder_defs TeamBuilder_defs
      GameBuilder_defs Player_VT Team_VT Game_VT Vehicle_defs small_library_def on_fields_def new_object_def
      set_field_def field_at_def heap_of_def object_of_def bytes_of_def length_unary)

theorem status_reaches_the_clients_witness:
  "\<exists>cc' bytes. transmit_handler (encode_status small_library) zero_datagram one_player_logic example_comm =
      Done (cc', [(\<lparr>address = 1, port = 9000\<rparr>, bytes)], 1) \<and>
    DecodeGameStatus (view_status small_library) zero_datagram bytes (length bytes) = Done (Some
      \<lparr>teams_count = 2, players_count = 1, point_boxes_count = 0, finished_flag = False, seq_number = 0\<rparr>)"
proof -
  have gl: "game one_player_logic = Some one_player_game" "serialization_seq_num one_player_logic = 0"
    by (simp_all add: one_player_logic_def example_gl_def NewGame_def GameLogic_def)
  have "RedTeamWon one_player_game = False" "BlueTeamWon one_player_game = False"
    "length (players (red_team one_player_game)) = 1" "length (players (blue_team one_player_game)) = 0"
    "point_boxes one_player_game = []"
    by (simp_all add: one_player_game_def Game_def Player_def Score_def RedTeamWon_def BlueTeamWon_def)
  with status_reaches_the_clients [OF small_documented gl(1), of example_comm
      "GenerateFlatbuffers one_player_game 0" zero_datagram zero_datagram, unfolded gl(2), OF _ _ refl
      one_player_representable encode_status_length]
  show ?thesis by (auto simp: example_comm_def example_client_def)
qed

text \<open>
  C11. The players of the main process join the game. From the bytes that the test server writes on
  a connection, received at once, the receive handler returns; the players of its two teams have
  then joined the two teams of the game and the clients of the UDP communication, in order.
\<close>

theorem mocked_players_join:
  assumes "documented L X"
    and red: "red = fst (mock_team ''red'' 1000 5100 0 m (fst statics))"
    and blue: "blue = fst (mock_team ''blue'' 2000 5500 0 n (snd statics))"
    and "length (encode_players L [red, blue]) < 2 ^ 32" "make_address ''127.0.0.1'' \<noteq> None"
    and st: "comm st = Some cc" "\<not> clients_locked cc" "logic st = Some gl" "game gl = Some g"
  shows "write_player_list L red blue = Some (encode_players L [red, blue]) \<and>
    (\<exists>s st' cc' g'. main_receive_handler (handle_datagram make_address rnd (view_game L))
        (mocked_bytes (fst (MockPlayerListDatagram (encode_players L) d0 m n statics))) (new_stream d1) st =
        Done (s, st') \<and>
      comm st' = Some cc' \<and> logic st' = Some (gl\<lparr>game := Some g'\<rparr>) \<and>
      map Id (clients cc') = map Id (clients cc) @ map (\<lambda>k. word_of_nat (1000 + k)) [0..<m] @
        map (\<lambda>k. word_of_nat (2000 + k)) [0..<n] \<and>
      map player_id (players (red_team g')) =
        map player_id (players (red_team g)) @ map (\<lambda>k. word_of_nat (1000 + k)) [0..<m] \<and>
      map player_id (players (blue_team g')) =
        map player_id (players (blue_team g)) @ map (\<lambda>k. word_of_nat (2000 + k)) [0..<n])"
proof -
  let ?bytes = "mocked_bytes (fst (MockPlayerListDatagram (encode_players L) d0 m n statics))"
  let ?handle = "handle_datagram make_address rnd (view_game L)"
  obtain h x where w: "write_player_list L red blue = Some (encode_players L [red, blue])"
    "message L X (encode_players L [red, blue]) h x" "game_object (full_client (fb_null L)) [red, blue] h x"
    by (rule players_written [OF assms(1)])
  have view: "view_game L (encode_players L [red, blue]) = Some [red, blue]" by (rule view_game_full [OF w(2,3)])
  from mocked_players_delivered [where encode = "encode_players L", OF red blue assms(4), of d1 d0] obtain r t where
    r: "receive (new_stream d1) ?bytes = Some ([r], t)" "Version r = 10" "PayloadCorrectness r"
      "Payload r = encode_players L [red, blue]"
    and ids: "map wc_id red = map (\<lambda>k. word_of_nat (1000 + k)) [0..<m]"
      "map wc_id blue = map (\<lambda>k. word_of_nat (2000 + k)) [0..<n]" by blast
  have "\<forall>w \<in> set (red @ blue). make_address (wc_ip w) \<noteq> None"
    using mock_team_ip assms(5) red blue by auto
  from LoadClients_loads_both_teams [OF r(2) _ this st, of "view_game L" "[]" rnd] view r(4) obtain st' cc' g' where
    load: "LoadClients make_address rnd (view_game L) r st = Done st'" "comm st' = Some cc'"
      "logic st' = Some (gl\<lparr>game := Some g'\<rparr>)" "map Id (clients cc') = map Id (clients cc) @ map wc_id (red @ blue)"
      "map player_id (players (red_team g')) = map player_id (players (red_team g)) @ map wc_id red"
      "map player_id (players (blue_team g')) = map player_id (players (blue_team g)) @ map wc_id blue"
    by auto
  have "in_order ?handle [r] st = Done st'" using r(3) load(1) by (simp add: handle_datagram_def)
  with flush_loop_drain [of "push (new_stream d1) ?bytes" "[r]" t ?handle st] r(1)
  have "main_receive_handler ?handle ?bytes (new_stream d1) st = Done (t, st')"
    by (simp add: main_receive_handler_flush_loop receive_drain)
  with load w(1) ids show ?thesis by auto
qed

lemma encode_players_length: "length (encode_players small_library
    [fst (mock_team ''red'' 1000 5100 0 1 1), fst (mock_team ''blue'' 2000 5500 0 0 1)]) < 2 ^ 32"
  by (simp add: encode_players_def finished_def write_player_list_def build_player_list_def write_client_def
      CreateFVehicle_def CreateFClient_def CreateFTeam_def CreateFGame_def FVehicleBuilder_defs FClientBuilder_defs
      FTeamBuilder_defs FGameBuilder_defs FVehicle_VT FClient_VT FTeam_VT FGame_VT small_library_def
      on_fields_def new_object_def set_field_def bytes_of_def length_unary next_vehicle_def decimal.simps Let_def)

theorem mocked_players_join_witness:
  "\<exists>s st' cc'. main_receive_handler (handle_datagram (\<lambda>ip. Some (1 :: nat)) (\<lambda>n. (Fin 0, Fin 0)) (view_game small_library))
      (mocked_bytes (fst (MockPlayerListDatagram (encode_players small_library) zero_datagram 1 0 (1, 1))))
      (new_stream zero_datagram) example_shared = Done (s, st') \<and>
    comm st' = Some cc' \<and> map Id (clients cc') = [1000]"
proof -
  have gl: "game example_gl = Some (Game 100 origin (Fin 1000))"
    by (simp add: example_gl_def NewGame_def)
  from mocked_players_join [where m = 1 and n = 0 and statics = "(1, 1)", OF small_documented refl refl, of "\<lambda>ip. Some (1 :: nat)"
      example_shared _ _ _ "\<lambda>n. (Fin 0, Fin 0)" zero_datagram zero_datagram, OF _ _ _ _ _ gl] encode_players_length
  show ?thesis by (auto simp: example_shared_def AssignGameLogic_def ClientCommunication_def)
qed

text \<open>A list of one player without a vehicle, and an empty second team.\<close>

definition build_incomplete :: "('b, 'o, 'p, 'v) flatbuffers \<Rightarrow> wire_client \<Rightarrow> ('b, 'o) build" where
  "build_incomplete L w b = do {
     (c, b) \<leftarrow> CreateFClientDirect L (Some (wc_name w)) (wc_id w) (Some (wc_ip w)) (wc_port w) (fb_null L) b;
     (t, b) \<leftarrow> CreateFTeamDirect L (Some [c]) b;
     (u, b) \<leftarrow> CreateFTeamDirect L (Some []) b;
     CreateFGameDirect L 0 (Some [t, u]) b }"

lemma makes_incomplete:
  fixes L :: "('b, 'o, 'p, 'v) flatbuffers" and X :: "('b, 'o, 'p, 'v) meaning"
  assumes D: "documented L X"
  defines "R \<equiv> \<lambda>h x w. client_object (fb_null L) w (fb_null L) h x"
  shows "makes X h (build_incomplete L w) (game_object R [[w], []])"
proof -
  have last: "lasting (\<lambda>h x. R h x w)" for w unfolding R_def by (rule lasting_objects(2))
  note lastt = lasting_objects(4) [of R, OF last]
  have client: "makes X h (CreateFClientDirect L (Some (wc_name w)) (wc_id w) (Some (wc_ip w)) (wc_port w) (fb_null L))
      (\<lambda>h x. R h x w)" for h
    unfolding CreateFClientDirect_def string_or_null_def option.case
  proof (rule makes_bind [OF makes_CreateString [OF D]], rule makes_bind [OF makes_CreateString [OF D]])
    fix h1 h2 :: "'o heap" and n ip
    assume "h1 \<subseteq>\<^sub>m h2" "h1 n = Some (Text (wc_name w)) \<and> n \<noteq> fb_null L" "h2 ip = Some (Text (wc_ip w)) \<and> ip \<noteq> fb_null L"
    then have "makes X h2 (CreateFClient L n (wc_id w) ip (wc_port w) (fb_null L))
        (\<lambda>h x. client_object (fb_null L) w (fb_null L) h x \<and> x \<noteq> fb_null L)"
      by (intro makes_CreateFClient [OF D]) (auto intro: map_le_Some)
    then show "makes X h2 (CreateFClient L n (wc_id w) ip (wc_port w) (fb_null L)) (\<lambda>h x. R h x w)"
      unfolding makes_def R_def by blast
  qed
  have team: "makes X h (CreateFTeamDirect L (Some ys)) (\<lambda>h x. team_object R h x ws)"
    if ys: "list_all2 (R h) ys ws" for h ys ws
    unfolding CreateFTeamDirect_def vector_or_null_def option.case
  proof (rule makes_bind [OF makes_CreateVector [OF D]])
    show "y \<in> set ys \<Longrightarrow> h y \<noteq> None" for y
      using ys by (auto simp: R_def client_object_def in_set_conv_nth list_all2_conv_all_nth)
    fix h1 :: "'o heap" and v
    assume "h \<subseteq>\<^sub>m h1" "h1 v = Some (Vector ys) \<and> v \<noteq> fb_null L"
    with lastingD [OF lasting_list_all2 [of R, OF last] this(1) ys]
    show "makes X h1 (CreateFTeam L v) (\<lambda>h x. team_object R h x ws)"
      by (intro makes_CreateFTeam [OF D _ _ _ last]) auto
  qed
  have game: "makes X h (CreateFGameDirect L 0 (Some ys)) (game_object R teams)"
    if ys: "list_all2 (team_object R h) ys teams" for h ys teams
    unfolding CreateFGameDirect_def vector_or_null_def option.case
  proof (rule makes_bind [OF makes_CreateVector [OF D]])
    show "y \<in> set ys \<Longrightarrow> h y \<noteq> None" for y
      using ys by (auto simp: team_object_def in_set_conv_nth list_all2_conv_all_nth)
    fix h1 :: "'o heap" and v
    assume "h \<subseteq>\<^sub>m h1" "h1 v = Some (Vector ys) \<and> v \<noteq> fb_null L"
    with lastingD [OF lasting_list_all2 [of "team_object R", OF lastt] this(1) ys]
    show "makes X h1 (CreateFGame L 0 v) (game_object R teams)"
      by (intro makes_CreateFGame [OF D _ _ _ last]) auto
  qed
  show ?thesis
    unfolding build_incomplete_def
  proof (rule makes_bind [OF client])
    fix h1 :: "'o heap" and c
    assume "R h1 c w"
    then have c: "list_all2 (R h1) [c] [w]" by simp
    show "makes X h1 (\<lambda>b. CreateFTeamDirect L (Some [c]) b \<bind> (\<lambda>(t, b). CreateFTeamDirect L (Some []) b \<bind>
        (\<lambda>(u, b). CreateFGameDirect L 0 (Some [t, u]) b))) (game_object R [[w], []])"
    proof (rule makes_bind [OF team [OF c]], rule makes_bind [OF team [OF list_all2_Nil [THEN iffD2, OF refl]]], rule game)
      fix h2 h3 :: "'o heap" and t u
      assume "team_object R h2 t [w]" "h2 \<subseteq>\<^sub>m h3" "team_object R h3 u []"
      then show "list_all2 (team_object R h3) [t, u] [[w], []]" using lastingD [OF lastt] by simp
    qed
  qed
qed

lemma game_object_in: "game_object R teams h x \<Longrightarrow> h x \<noteq> None"
  by (auto simp: game_object_def)

definition write_incomplete :: "('b, 'o, 'p, 'v) flatbuffers \<Rightarrow> wire_client \<Rightarrow> u8 list option" where
  "write_incomplete L w = do {
     (x, b) \<leftarrow> build_incomplete L w (fb_FlatBufferBuilder L);
     b \<leftarrow> fb_Finish L x b;
     Some (fb_GetBuffer L b) }"

text \<open>
  C26. An incomplete list of players crashes the process. The schema lets a client come without a
  vehicle, and such a list passes the generated checks, which the program does not even make; but
  \<open>LoadClients\<close> follows the pointer to the vehicle, which is null.
\<close>

theorem incomplete_player_crashes:
  assumes "documented L X"
  shows "\<exists>bs. write_incomplete L w = Some bs \<and> fst (VerifyFGameBuffer L (fb_Verifier L bs)) \<and>
    (\<forall>d. Version d = 10 \<longrightarrow> Payload d = bs \<longrightarrow>
       LoadClients make_address rnd (view_game L) d st = Undefined_Behaviour)"
proof -
  let ?R = "\<lambda>h x w. client_object (fb_null L) w (fb_null L) h x"
  have "\<exists>bs h x. write_incomplete L w = Some bs \<and> message L X bs h x \<and> game_object ?R [[w], []] h x"
    by (rule write_message [OF assms makes_incomplete [where w = w, OF assms]])
      (auto dest: game_object_in simp: write_incomplete_def)
  then obtain bs h x where w: "write_incomplete L w = Some bs" and M: "message L X bs h x"
    and g: "game_object ?R [[w], []] h x" by blast
  have "accepts X 2 1 (FClient_Verify L (place X bs y))" if "?R h y c" for y c
    using client_accepted [OF M that] by simp
  from VerifyBuffer_accepts [where c = "FGame_Verify L", OF M game_accepted [where cost = "\<lambda>_. 1", OF M g this]]
  have "fst (VerifyFGameBuffer L (fb_Verifier L bs))" by (simp add: VerifyFGameBuffer_def)
  moreover have "view_game L bs = None"
  proof (rule view_game_object [OF M g])
    fix r b
    assume r: "team_object ?R h r [w]" and view: "view_game L bs =
      do { t \<leftarrow> view_team L (place X bs r); u \<leftarrow> view_team L (place X bs b); Some [t, u] }"
    have "view_team L (place X bs r) = None"
    proof (rule view_team_object [OF M r])
      fix ys
      assume ys: "list_all2 (?R h) ys [w]"
        "view_team L (place X bs r) = those (map (\<lambda>y. view_client L (place X bs y)) ys)"
      then obtain y where y: "ys = [y]" "?R h y w" by (auto simp: list_all2_Cons2)
      then obtain m where m: "h y = Some (Table m)" "m FClient_VT_VEHICLE = set_offset (fb_null L) (fb_null L)"
        by (auto simp: client_object_def)
      have "view_client L (place X bs y) = None"
        by (simp add: view_client_def FClient_vehicle_def GetPointer_set [OF M m])
      with ys(2) y(1) show ?thesis by simp
    qed
    with view show ?thesis by simp
  qed
  ultimately show ?thesis
    using w by (auto simp: LoadClients_def GAME_CLIENTS_VERSION_def)
qed

theorem incomplete_player_crashes_witness:
  "\<exists>bs. LoadClients (\<lambda>ip. Some (1 :: nat)) (\<lambda>n. (Fin 0, Fin 0)) (view_game small_library)
     (zero_datagram\<lparr>version := 10, payload := bs\<rparr>) example_shared = Undefined_Behaviour"
proof -
  from incomplete_player_crashes [OF small_documented, of "example_wire 5" "\<lambda>ip. Some (1 :: nat)"
      "\<lambda>n. (Fin 0, Fin 0)" example_shared] obtain bs where
    "\<forall>d. Version d = 10 \<longrightarrow> Payload d = bs \<longrightarrow> LoadClients (\<lambda>ip. Some (1 :: nat)) (\<lambda>n. (Fin 0, Fin 0))
      (view_game small_library) d example_shared = Undefined_Behaviour" by blast
  then show ?thesis by (intro exI [of _ bs]) (simp add: Version_def Payload_def)
qed

text \<open>
  C25. The small messages are understood. The input of a test client with a fresh sequence number
  is accepted by the client it names, which then moves as told; the game id and the end of the
  game that the main process is sent are read there as what was sent.
\<close>

theorem small_messages_are_understood:
  assumes "documented L X" "representable X dir"
    and i: "i = \<lparr>sequence = seq, wire_id = Id c, disconnect = False, wire_direction = dir, wire_move = mv\<rparr>"
    and "length (encode_input L i) < 2 ^ 32" "length (encode_id L n) < 2 ^ 32" "length (encode_end L True) < 2 ^ 32"
    and "last_sequence c < seq"
  shows "(let d = MockInputDatagram (encode_input L) d0 seq (Id c) mv dir
      in DecodeDatagram (\<lambda>bs. Some (view_input L bs)) d1 (Get d) (length (Get d)) c =
        (Result True, c\<lparr>input := (input c)\<lparr>move := mv, direction := dir\<rparr>, last_sequence := seq\<rparr>)) \<and>
    (\<exists>d. Load (TransmitGameId (encode_id L) d0 n) (length (TransmitGameId (encode_id L) d0 n)) d1 = (Loaded, d) \<and>
      Version d = 12 \<and> FGameId_id L (GetFGameId L (Payload d)) = n) \<and>
    (\<exists>d. Load (SendGameFinished (encode_end L) d0) (length (SendGameFinished (encode_end L) d0)) d1 = (Loaded, d) \<and>
      Version d = 11 \<and> FGameEnded_ended L (GetFGameEnded L (Payload d)))"
proof -
  have "view_input L (encode_input L i) = i"
    by (rule input_written [OF assms(1), of i]) (use assms(2) i input_fields in auto)
  moreover have "FGameId_id L (GetFGameId L (encode_id L n)) = n"
    by (rule id_written [OF assms(1), of n]) (rule game_id_reads(1))
  moreover have "FGameEnded_ended L (GetFGameEnded L (encode_end L True))"
    by (rule end_written [OF assms(1), of True]) (use game_ended_reads(1) in fastforce)
  ultimately show ?thesis
    using mocked_input_accepted [where encode = "encode_input L" and get_input = "\<lambda>bs. Some (view_input L bs)",
        OF i _ assms(4,7), of d1 d0]
      messages_to_main_process_arrive [where encode_id = "encode_id L" and encode_end = "encode_end L",
        OF assms(5,6), of d0 d1]
    by (auto simp: Let_def)
qed

lemma encode_small_length:
  "length (encode_input small_library example_input) < 2 ^ 32" "length (encode_id small_library 7) < 2 ^ 32"
  "length (encode_end small_library True) < 2 ^ 32"
  by (simp_all add: encode_input_def encode_id_def encode_end_def finished_def write_input_def write_game_id_def
      write_game_ended_def CreateInput_def CreateFGameId_def CreateFGameEnded_def InputBuilder_defs
      FGameIdBuilder_defs FGameEndedBuilder_defs Input_VT FGameId_VT FGameEnded_VT example_input_def
      small_library_def on_fields_def new_object_def set_field_def bytes_of_def length_unary zero_double_def)

theorem small_messages_are_understood_witness:
  "let d = MockInputDatagram (encode_input small_library) zero_datagram 1 5 True (Fin 0)
   in fst (DecodeDatagram (\<lambda>bs. Some (view_input small_library bs)) zero_datagram (Get d) (length (Get d)) example_client) =
     Result True"
  using small_messages_are_understood [OF small_documented natural_zero refl, of 1 example_client True 7 zero_datagram zero_datagram]
    encode_small_length
  by (simp add: example_input_def example_client_def Let_def)

end
