(* ===== verification/Mocker_Runs.thy ===== *)
theory Mocker_Runs
  imports Message_Flow
begin

text \<open>
  The main functions of the two test peers, src/client_communication_mocker/main.cpp and
  src/main_process_communication_mocker/main.cpp: loops that react to what asio reports. An event
  is such a report; what the program prints and sends is collected in its state.
\<close>

section \<open>client_communication_mocker\<close>

text \<open>
  \<open>seq_counter\<close> is the static variable of the timer handler. Both handlers start themselves again, so
  one wait of each kind is pending all the time, and any sequence of the two events can come.
\<close>

record 'a client_mocker =
  seq_counter :: u64
  receive_area :: "u8 list"
  printed :: "status_counts option list"
  transmitted :: "('a endpoint \<times> u8 list) list"

definition client_mocker_main :: "'a client_mocker" where
  "client_mocker_main =
     \<lparr>seq_counter = 0, receive_area = replicate 4096 0, printed = [], transmitted = []\<rparr>"

datatype client_mocker_report = Arrived "u8 list" | Expired

text \<open>A datagram longer than the buffer is cut off. An exception leaves \<open>run\<close> and ends the program.\<close>

definition Receive :: "(u8 list \<Rightarrow> wire_game option) \<Rightarrow> datagram \<Rightarrow> u8 list \<Rightarrow> 'a client_mocker \<Rightarrow>
    'a client_mocker outcome" where
  "Receive get_status d0 arrived m =
     (let n = min (length arrived) (length (receive_area m));
          m = m\<lparr>receive_area := write_at (receive_area m) 0 (take n arrived)\<rparr>
      in case DecodeGameStatus get_status d0 (receive_area m) n of
           Done r \<Rightarrow> Done (m\<lparr>printed := printed m @ [r]\<rparr>)
         | Threw _ \<Rightarrow> Threw m
         | Blocked \<Rightarrow> Blocked
         | Undefined_Behaviour \<Rightarrow> Undefined_Behaviour)"

text \<open>The literal 3.14 is passed as a \<open>float\<close>: the multiple of 2 ^ -22 that is next to it.\<close>

definition mocked_direction :: double where
  "mocked_direction = Fin (13170115 / 4194304)"

definition Transmit :: "(string \<Rightarrow> 'a option) \<Rightarrow> (wire_input \<Rightarrow> u8 list) \<Rightarrow> datagram \<Rightarrow> 'a client_mocker \<Rightarrow>
    'a client_mocker outcome" where
  "Transmit make_address encode d0 m =
     (let m = m\<lparr>seq_counter := seq_counter m + 1\<rparr>;
          d = MockInputDatagram encode d0 (seq_counter m) 1 True mocked_direction
      in case make_address ''127.0.0.1'' of
           None \<Rightarrow> Threw m
         | Some a \<Rightarrow> Done (m\<lparr>transmitted := transmitted m @ [(\<lparr>address = a, port = 8850\<rparr>, Get d)]\<rparr>))"

fun client_mocker_event :: "(string \<Rightarrow> 'a option) \<Rightarrow> (wire_input \<Rightarrow> u8 list) \<Rightarrow> (u8 list \<Rightarrow> wire_game option) \<Rightarrow>
    datagram \<Rightarrow> client_mocker_report \<Rightarrow> 'a client_mocker \<Rightarrow> 'a client_mocker outcome" where
  "client_mocker_event make_address encode get_status d0 (Arrived bs) m = Receive get_status d0 bs m"
| "client_mocker_event make_address encode get_status d0 Expired m = Transmit make_address encode d0 m"

section \<open>main_process_communication_mocker\<close>

datatype server_mocker_pc = Accepting | First_Read | Second_Read

text \<open>\<open>vehicles\<close> are the static variables of \<open>MockPlayerListDatagram\<close>, \<open>served\<close> what was written, per connection.\<close>

record server_mocker =
  server_at :: server_mocker_pc
  vehicles :: "u8 \<times> u8"
  served :: "u8 list list"

definition server_mocker_main :: server_mocker where
  "server_mocker_main = \<lparr>server_at = Accepting, vehicles = (1, 1), served = []\<rparr>"

text \<open>
  The call that the loop waits in comes to its end: \<open>accept\<close>, which may throw, or a read, whose error
  code is set and ignored, like that of the write. The bytes read are only counted.
\<close>

definition server_mocker_step :: "(wire_client list list \<Rightarrow> u8 list) \<Rightarrow> datagram \<Rightarrow> bool \<Rightarrow> server_mocker \<Rightarrow>
    server_mocker outcome" where
  "server_mocker_step encode d0 failed m =
     (case server_at m of
        Accepting \<Rightarrow> if failed then Threw m else Done (m\<lparr>server_at := First_Read\<rparr>)
      | First_Read \<Rightarrow>
          let (message, statics) = MockPlayerListDatagram encode d0 5 5 (vehicles m)
          in Done (m\<lparr>server_at := Second_Read, vehicles := statics, served := served m @ [mocked_bytes message]\<rparr>)
      | Second_Read \<Rightarrow> Done (m\<lparr>server_at := Accepting\<rparr>))"

section \<open>Library\<close>

text \<open>The n-th datagram of the client mocker.\<close>

definition nth_input :: "(wire_input \<Rightarrow> u8 list) \<Rightarrow> datagram \<Rightarrow> nat \<Rightarrow> u8 list" where
  "nth_input encode d0 n = Get (MockInputDatagram encode d0 (word_of_nat n) 1 True mocked_direction)"

definition mocked_input :: "nat \<Rightarrow> wire_input" where
  "mocked_input n = \<lparr>sequence = word_of_nat n, wire_id = 1, disconnect = False,
     wire_direction = mocked_direction, wire_move = True\<rparr>"

lemma transmitted_inputs:
  assumes "in_order (client_mocker_event make_address encode get_status d0) es client_mocker_main = Done m"
  shows "seq_counter m = word_of_nat (length (transmitted m)) \<and>
    map snd (transmitted m) = map (nth_input encode d0) [1..<Suc (length (transmitted m))] \<and>
    length (transmitted m) = length (filter (\<lambda>e. e = Expired) es)"
  using assms
proof (induction es arbitrary: m rule: rev_induct)
  case Nil
  then show ?case by (auto simp: client_mocker_main_def)
next
  case (snoc e es)
  from snoc.prems obtain m' where
    m': "in_order (client_mocker_event make_address encode get_status d0) es client_mocker_main = Done m'"
    and e: "client_mocker_event make_address encode get_status d0 e m' = Done m"
    by (cases "in_order (client_mocker_event make_address encode get_status d0) es client_mocker_main")
      (auto simp: in_order_append elim: and_then.elims)
  from snoc.IH [OF m'] e show ?case
    by (cases e) (auto simp: Receive_def Transmit_def Let_def nth_input_def add.commute
        split: outcome.splits option.splits)
qed

lemma nth_input_loaded:
  assumes "length (encode (mocked_input n)) < 2 ^ 32"
  shows "\<exists>d. Load (nth_input encode d0 n) (length (nth_input encode d0 n)) d1 = (Loaded, d) \<and>
    Version d = 101 \<and> Payload d = encode (mocked_input n)"
proof -
  let ?d = "MockInputDatagram encode d0 (word_of_nat n) 1 True mocked_direction"
  have d: "payload ?d = encode (mocked_input n)" "version ?d = 101"
    using assms by (simp_all add: MockInputDatagram_def SetPayload_def SetPayloadChecksum_def
        SetVersion_def Let_def mocked_input_def)
  have "Load (Get ?d) (length (Get ?d)) d1 = (Loaded, loaded_from ?d d1)"
    using Load_Get [of ?d _ "[]" d1] d(1) assms by simp
  with d show ?thesis by (simp add: nth_input_def Version_def Payload_def loaded_from_def)
qed

lemma mocked_input_viewed:
  assumes "documented L X" "representable X mocked_direction"
  shows "view_input L (encode_input L (mocked_input n)) = mocked_input n"
  by (rule input_written [OF assms(1), of "mocked_input n"])
    (use assms(2) input_fields in \<open>auto simp: mocked_input_def\<close>)

lemma increasing_inputs_accepted:
  assumes "\<And>n. get_input (encode (mocked_input n)) = Some (mocked_input n)" "sorted_wrt (<) ns"
    "\<forall>n \<in> set ns. unat (last_sequence c) < n \<and> n < 2 ^ 64 \<and> length (encode (mocked_input n)) < 2 ^ 32" "Id c = 1"
  shows "map fst (accepted_inputs get_input d1 (map (nth_input encode d0) ns) c) = map (nth_input encode d0) ns"
  using assms(2-4)
proof (induction ns arbitrary: c)
  case (Cons n ns)
  let ?c = "c\<lparr>input := (input c)\<lparr>move := True, direction := mocked_direction\<rparr>, last_sequence := word_of_nat n\<rparr>"
  from nth_input_loaded [of encode n d0 d1] Cons.prems(2) obtain d where
    d: "Load (nth_input encode d0 n) (length (nth_input encode d0 n)) d1 = (Loaded, d)"
      "Version d = 101" "Payload d = encode (mocked_input n)" by auto
  have "last_sequence c < word_of_nat n"
    using Cons.prems(2) by (simp add: word_less_nat_alt unat_of_nat)
  with DecodeDatagram_accepts [where get_input = get_input and i = "mocked_input n" and c = c, OF d(1,2)] d(3)
    assms(1) Cons.prems(3)
  have "DecodeDatagram get_input d1 (nth_input encode d0 n) (length (nth_input encode d0 n)) c = (Result True, ?c)"
    by (simp add: mocked_input_def)
  moreover have "map fst (accepted_inputs get_input d1 (map (nth_input encode d0) ns) ?c) = map (nth_input encode d0) ns"
    using Cons.prems by (intro Cons.IH) (auto simp: unat_of_nat)
  ultimately show ?case by simp
qed simp

text \<open>Team after team, connection after connection, the vehicles of the server mocker go round.\<close>

definition vehicle_counter :: "nat \<Rightarrow> u8" where
  "vehicle_counter x = word_of_nat (1 + x mod 3)"

lemma vehicle_counter_next:
  "next_vehicle (vehicle_counter x) = vehicle_counter (x + 1) \<and>
   (if vehicle_counter x = 1 then 0 else if vehicle_counter x = 2 then 1 else if vehicle_counter x = 3 then 2 else 0) =
     (word_of_nat (x mod 3) :: u8)"
proof -
  consider "x mod 3 = 0" | "x mod 3 = 1" | "x mod 3 = 2" by linarith
  then show ?thesis
    by cases (auto simp: vehicle_counter_def next_vehicle_def mod_Suc)
qed

lemma mock_team_vehicles:
  "snd (mock_team colour m q i n (vehicle_counter x)) = vehicle_counter (x + n) \<and>
   map wc_vehicle (fst (mock_team colour m q i n (vehicle_counter x))) = map (\<lambda>k. word_of_nat ((x + k) mod 3)) [1..<Suc n]"
proof (induction n arbitrary: i x)
  case (Suc n)
  have "[1..<Suc (Suc n)] = 1 # map Suc [1..<Suc n]"
    by (simp add: upt_conv_Cons map_Suc_upt del: upt_Suc)
  with Suc [of "i + 1" "x + 1"] vehicle_counter_next [of x] vehicle_counter_next [of "x + 1"] show ?case
    by (auto simp: Let_def case_prod_beta' comp_def simp del: upt_Suc split: if_splits)
qed simp

section \<open>Properties\<close>

text \<open>
  The client mocker is understood in every run: whatever it receives in between, its datagrams
  carry the numbers 1, 2, 3 and so on, and the client with the id 1 accepts every one of them that
  the network delivers, as long as these come in order.
\<close>

theorem mocker_run_accepted:
  assumes "documented L X" "representable X mocked_direction"
    "in_order (client_mocker_event make_address (encode_input L) get_status d0) es client_mocker_main = Done m"
    "length es < 2 ^ 64" "\<forall>n \<le> length es. length (encode_input L (mocked_input n)) < 2 ^ 32"
    "subseq ms (map snd (transmitted m))" "Id c = 1" "last_sequence c = 0"
  shows "map fst (accepted_inputs (\<lambda>bs. Some (view_input L bs)) d1 ms c) = ms"
proof -
  from transmitted_inputs [OF assms(3)] obtain k where
    sent: "map snd (transmitted m) = map (nth_input (encode_input L) d0) [1..<Suc k]" and "k \<le> length es"
    by (metis length_filter_le)
  from assms(6) sent obtain N where ms: "ms = map (nth_input (encode_input L) d0) (nths [1..<Suc k] N)"
    by (auto simp: subseq_conv_nths nths_map simp del: upt_Suc)
  have "\<forall>n \<in> set (nths [1..<Suc k] N). unat (last_sequence c) < n \<and> n < 2 ^ 64 \<and>
      length (encode_input L (mocked_input n)) < 2 ^ 32"
    using assms(4,5,8) \<open>k \<le> length es\<close> by (auto dest!: in_set_nthsD simp del: upt_Suc)
  moreover have "sorted_wrt (<) (nths [1..<Suc k] N)"
    by (simp add: strict_sorted_iff sorted_nths del: upt_Suc)
  ultimately show ?thesis
    unfolding ms using mocked_input_viewed [OF assms(1,2)] assms(7) by (intro increasing_inputs_accepted) auto
qed

text \<open>
  The server mocker writes a list of five and five players once per connection, and over all
  connections its players have the vehicles 1, 2, 0, 1, 2, 0 and so on, in each team.
\<close>

theorem server_mocker_serves:
  assumes "in_order (server_mocker_step encode d0) es server_mocker_main = Done m"
  shows "served m = map (\<lambda>j. mocked_bytes (fst (MockPlayerListDatagram encode d0 5 5
      (vehicle_counter (5 * j), vehicle_counter (5 * j))))) [0..<length (served m)] \<and>
    vehicles m = (vehicle_counter (5 * length (served m)), vehicle_counter (5 * length (served m))) \<and>
    map wc_vehicle (fst (mock_team colour id0 port0 0 5 (vehicle_counter (5 * j)))) =
      map (\<lambda>k. word_of_nat ((5 * j + k) mod 3)) [1..<6]"
  using assms
proof (induction es arbitrary: m rule: rev_induct)
  case Nil
  then show ?case
    using mock_team_vehicles [of colour id0 port0 0 5 "5 * j"]
    by (auto simp: server_mocker_main_def vehicle_counter_def)
next
  case (snoc e es)
  from snoc.prems obtain m' where m': "in_order (server_mocker_step encode d0) es server_mocker_main = Done m'"
    and e: "server_mocker_step encode d0 e m' = Done m"
    by (cases "in_order (server_mocker_step encode d0) es server_mocker_main")
      (auto simp: in_order_append elim: and_then.elims)
  have "snd (MockPlayerListDatagram encode d0 5 5 (vehicle_counter x, vehicle_counter x)) =
      (vehicle_counter (x + 5), vehicle_counter (x + 5))" for x
    using mock_team_vehicles [of _ _ _ _ 5 x] by (simp add: MockPlayerListDatagram_def Let_def case_prod_beta')
  with snoc.IH [OF m'] e show ?case
    by (auto simp: server_mocker_step_def Let_def case_prod_beta' add.commute
        split: server_mocker_pc.splits if_splits)
qed

text \<open>
  The two test peers do not fit together: to the ten clients of the server mocker, which have the
  address of the client mocker but not its id, its datagrams mean nothing.
\<close>

theorem mocked_peers_do_not_meet:
  assumes "documented L X" "representable X mocked_direction" "length (encode_input L (mocked_input n)) < 2 ^ 32"
    "map Id (clients cc) = map (\<lambda>k. word_of_nat (1000 + k)) [0..<5] @ map (\<lambda>k. word_of_nat (2000 + k)) [0..<5]"
    "\<not> clients_locked cc"
  shows "receive_handler to_string (\<lambda>bs. Some (view_input L bs)) d1 remote (nth_input (encode_input L) d0 n)
    (length (nth_input (encode_input L) d0 n)) cc gl = Done (cc, gl)"
proof -
  let ?step = "receive_for to_string (\<lambda>bs. Some (view_input L bs)) d1 (logic_assigned cc) remote
    (nth_input (encode_input L) d0 n) (length (nth_input (encode_input L) d0 n))"
  from nth_input_loaded [of "encode_input L", OF assms(3), of d0 d1] mocked_input_viewed [OF assms(1,2), of n] obtain d where
    d: "Load (nth_input (encode_input L) d0 n) (length (nth_input (encode_input L) d0 n)) d1 = (Loaded, d)"
      "Version d = 101" "view_input L (Payload d) = mocked_input n" by auto
  have "Id ` set (clients cc) = set (map Id (clients cc))" by simp
  moreover have "1 \<notin> set (map (\<lambda>k. word_of_nat (1000 + k)) [0..<5] @ map (\<lambda>k. word_of_nat (2000 + k)) [0..<5] :: u32 list)"
    by code_simp
  ultimately have "1 \<notin> Id ` set (clients cc)" unfolding assms(4) by simp
  then have "receive_clients ?step cs gl = Some (cs, gl)" if "set cs \<subseteq> set (clients cc)" for cs
    using that d by (induction cs) (auto simp: receive_for_def DecodeDatagram_def mocked_input_def)
  from this [OF subset_refl] assms(5) show ?thesis
    by (simp add: receive_handler_def)
qed

end
