(* ===== verification/Game_Geometry.thy ===== *)
theory Game_Geometry
  imports Game_Rules
begin

text \<open>
  The geometry of game_logic/game.cpp on finite coordinates: \<open>PointBoxDistance\<close> is the distance
  from a point to a segment in the plane of the two conversions to metres, and a movement covers
  the distance that the vehicle makes in the time of a tick. Then what a direction that is not
  a number does to a player.
\<close>

section \<open>The nearest point of a segment\<close>

definition nearest :: "real \<Rightarrow> real \<Rightarrow> real \<Rightarrow> real \<Rightarrow> real" where
  "nearest A B C D =
     (let len_sq = C * C + D * D; param = (A * C + B * D) / len_sq
      in if len_sq = 0 \<or> param < 0 then 0 else if 1 < param then 1 else param)"

lemma nearest_bounds: "0 \<le> nearest A B C D" "nearest A B C D \<le> 1"
  by (simp_all add: nearest_def Let_def)

lemma nearest_minimal:
  assumes t: "0 \<le> t" "t \<le> 1"
  shows "(A - nearest A B C D * C)\<^sup>2 + (B - nearest A B C D * D)\<^sup>2 \<le> (A - t * C)\<^sup>2 + (B - t * D)\<^sup>2"
proof (cases "C * C + D * D = 0")
  case True
  then have "C = 0" "D = 0" by (auto simp: sum_squares_eq_zero_iff)
  then show ?thesis by simp
next
  case False
  let ?L = "C * C + D * D" and ?q = "nearest A B C D"
  define p where "p = (A * C + B * D) / ?L"
  have L: "0 < ?L" using False by (simp add: sum_squares_gt_zero_iff)
  have dot: "A * C + B * D = p * ?L" using False by (simp add: p_def)
  have "(A - t * C)\<^sup>2 + (B - t * D)\<^sup>2 - ((A - ?q * C)\<^sup>2 + (B - ?q * D)\<^sup>2) =
      (t - ?q) * ((t + ?q) * ?L - 2 * (A * C + B * D))"
    by (simp add: power2_eq_square algebra_simps)
  also have "\<dots> = ?L * ((t - ?q) * (t + ?q - 2 * p))"
    by (simp add: dot algebra_simps)
  also have "0 \<le> \<dots>"
  proof -
    have "?q = (if p < 0 then 0 else if 1 < p then 1 else p)"
      unfolding nearest_def p_def Let_def using False by (simp only: if_False simp_thms)
    then consider "p < 0" "?q = 0" | "1 < p" "?q = 1" | "?q = p"
      by (auto split: if_splits)
    then have "0 \<le> (t - ?q) * (t + ?q - 2 * p)"
    proof cases
      case 1
      then show ?thesis using t by simp
    next
      case 2
      then have "0 \<le> (1 - t) * (2 * p - 1 - t)" using t by simp
      then show ?thesis using 2 by (simp add: algebra_simps)
    next
      case 3
      then have "(t - ?q) * (t + ?q - 2 * p) = (t - p) * (t - p)" by simp
      then show ?thesis by simp
    qed
    then show ?thesis using L by (simp add: zero_le_mult_iff)
  qed
  finally show ?thesis by simp
qed

section \<open>The distance to a box\<close>

text \<open>The plane that the conversions map finite coordinates to.\<close>

definition meters_x :: "real \<Rightarrow> real \<Rightarrow> real" where
  "meters_x long lat = 40075000 * cos lat / 360 * long"

definition meters_y :: "real \<Rightarrow> real" where
  "meters_y lat = lat * 111320"

definition place :: "real \<Rightarrow> real \<Rightarrow> Coordinates" where
  "place long lat = \<lparr>longitude = Fin long, latitude = Fin lat\<rparr>"

lemma place_simps [simp]: "longitude (place a b) = Fin a" "latitude (place a b) = Fin b"
  by (simp_all add: place_def)

lemma to_meters [simp]:
  "LongitudeToMeters (Fin a) (Fin b) = Fin (meters_x a b)"
  "LatitudeToMeters (Fin b) = Fin (meters_y b)"
  by (simp_all add: LongitudeToMeters_def LatitudeToMeters_def EARTH_CIRCUMFERENCE_def
      meters_x_def meters_y_def)

definition along :: "real \<Rightarrow> real \<Rightarrow> real \<Rightarrow> real \<Rightarrow> real \<Rightarrow> real \<Rightarrow> real \<Rightarrow> real" where
  "along x y x1 y1 x2 y2 t = sqrt ((x - (x1 + t * (x2 - x1)))\<^sup>2 + (y - (y1 + t * (y2 - y1)))\<^sup>2)"

lemma fsqrt_squares: "fsqrt (Fin (u * u + v * v)) = Fin (sqrt (u\<^sup>2 + v\<^sup>2))"
proof -
  have "0 \<le> u * u + v * v" by simp
  then show ?thesis by (simp add: power2_eq_square not_less [symmetric])
qed

lemma PointBoxDistance_place:
  "PointBoxDistance (place a b) (place a1 b1) (place a2 b2) =
     Fin (along (meters_x a b) (meters_y b) (meters_x a1 b1) (meters_y b1)
       (meters_x a2 b2) (meters_y b2)
       (nearest (meters_x a b - meters_x a1 b1) (meters_y b - meters_y b1)
         (meters_x a2 b2 - meters_x a1 b1) (meters_y b2 - meters_y b1)))"
proof -
  let ?A = "meters_x a b - meters_x a1 b1" and ?B = "meters_y b - meters_y b1"
  let ?C = "meters_x a2 b2 - meters_x a1 b1" and ?D = "meters_y b2 - meters_y b1"
  define len where "len = ?C * ?C + ?D * ?D"
  define p where "p = (?A * ?C + ?B * ?D) / len"
  have q: "nearest ?A ?B ?C ?D = (if len = 0 \<or> p < 0 then 0 else if 1 < p then 1 else p)"
    by (simp only: nearest_def len_def p_def Let_def)
  have "PointBoxDistance (place a b) (place a1 b1) (place a2 b2) =
    (let (xx, yy) = (if len = 0 \<or> p < 0 then (Fin (meters_x a1 b1), Fin (meters_y b1))
                     else if 1 < p then (Fin (meters_x a2 b2), Fin (meters_y b2))
                     else (Fin (meters_x a1 b1 + p * ?C), Fin (meters_y b1 + p * ?D)));
         dx = Fin (meters_x a b) - xx; dy = Fin (meters_y b) - yy
     in fsqrt (dx * dx + dy * dy))"
    unfolding PointBoxDistance_def
    by (simp add: Let_def len_def [symmetric] p_def [symmetric])
  then show ?thesis
    unfolding q along_def by (simp add: fsqrt_squares del: fsqrt.simps)
qed

lemma along_nearest:
  assumes "0 \<le> t" "t \<le> 1"
  shows "along x y x1 y1 x2 y2 (nearest (x - x1) (y - y1) (x2 - x1) (y2 - y1)) \<le>
    along x y x1 y1 x2 y2 t"
  using nearest_minimal [OF assms, of "x - x1" "y - y1" "x2 - x1" "y2 - y1"]
  by (simp add: along_def diff_diff_eq)

section \<open>Movement\<close>

lemma VehicleSpeed_real: obtains v where "VehicleSpeed t = Fin v" "0 < v"
  using VehicleSpeed_Fin by blast

lemma displaced_place:
  assumes "cos (b * pi / 180) \<noteq> 0"
  shows "displaced (place a b) (Fin dx) (Fin dy) =
    place (a + dx / 6371000 * (180 / pi) / cos (b * pi / 180)) (b + dy / 6371000 * (180 / pi))"
  using assms by (simp add: displaced_def place_def EARTH_RADIUS_def M_PI_def)

section \<open>A direction that is no number\<close>

text \<open>A player is lost when the latitude is not a number: no later movement finds a box.\<close>

definition lost :: "player \<Rightarrow> bool" where
  "lost p \<longleftrightarrow> latitude (position p) = NaN"

lemma to_meters_NaN [simp]: "LongitudeToMeters a NaN = NaN" "LatitudeToMeters NaN = NaN"
  by (simp_all add: LongitudeToMeters_def LatitudeToMeters_def)

lemma fsqrt_plus_NaN [simp]: "fsqrt NaN = NaN" "fcos NaN = NaN" "fsin NaN = NaN"
  by simp_all

lemma equals_NaN [simp]: "equals NaN y \<longleftrightarrow> False" "NaN < y \<longleftrightarrow> False" "y < NaN \<longleftrightarrow> False"
  by simp_all

lemma PointBoxDistance_NaN:
  "latitude old = NaN \<or> latitude new = NaN \<Longrightarrow> PointBoxDistance b old new = NaN"
  by (auto simp: PointBoxDistance_def Let_def)

lemma displaced_NaN: "latitude p = NaN \<or> dy = NaN \<Longrightarrow> latitude (displaced p dx dy) = NaN"
  by (auto simp: displaced_def)

lemma in_reach_NaN: "latitude old = NaN \<or> latitude new = NaN \<Longrightarrow> \<not> in_reach old new b"
  using PointBoxDistance_NaN by (simp add: in_reach_def)

lemma movement_lost:
  assumes "lost p \<or> move (player_input p) \<and> direction (player_input p) = NaN"
  shows "lost (fst (CalculatePlayerMovement dt p bs))"
    "points (fst (CalculatePlayerMovement dt p bs)) = points p"
    "snd (CalculatePlayerMovement dt p bs) = bs"
proof -
  have new: "latitude (moved_to dt p) = NaN"
    using assms by (auto simp: moved_to_def lost_def Let_def intro: displaced_NaN)
  then show "lost (fst (CalculatePlayerMovement dt p bs))"
    by (simp add: CalculatePlayerMovement_eq lost_def player_ops)
  from new have "filter (in_reach (position p) (moved_to dt p)) bs = []"
    "filter (\<lambda>b. \<not> in_reach (position p) (moved_to dt p) b) bs = bs"
    by (simp_all add: in_reach_NaN)
  then show "points (fst (CalculatePlayerMovement dt p bs)) = points p"
    "snd (CalculatePlayerMovement dt p bs) = bs"
    by (simp_all add: CalculatePlayerMovement_eq player_ops)
qed

text \<open>A player through a sequence of inputs and ticks; the boxes on the map are those of each tick.\<close>

fun ticks :: "double \<Rightarrow> (PlayerInput \<times> PointBox list) list \<Rightarrow> player \<Rightarrow> player" where
  "ticks dt [] p = p"
| "ticks dt ((i, bs) # ts) p = ticks dt ts (fst (CalculatePlayerMovement dt (SetInput i p) bs))"

lemma ticks_lost: "lost p \<Longrightarrow> lost (ticks dt ts p) \<and> points (ticks dt ts p) = points p"
proof (induction ts arbitrary: p)
  case (Cons t ts)
  obtain i bs where t: "t = (i, bs)" by (rule prod.exhaust)
  have l: "lost (SetInput i p)" using Cons.prems by (simp add: lost_def player_ops)
  show ?case
    using Cons.IH movement_lost(1,2) [OF disjI1 [OF l], of dt bs] t by (simp add: player_ops)
qed simp

section \<open>Properties\<close>




definition example_player :: player where
  "example_player = (Player ''ann'' 5 CYCLIST)\<lparr>
     player_input := \<lparr>input_id = 5, move = True, direction = Fin 0\<rparr>\<rparr>"


text \<open>
  C36. The direction of an input is not checked: one tick of moving in a direction that is not a
  number makes the latitude of the player not a number, and from then on no input and no tick
  gives the player a point again, whatever boxes are on the map.
\<close>

theorem nan_direction_loses_player:
  assumes "direction i = NaN" "move i"
  shows "points (ticks dt ((i, boxes) # later) p) = points p \<and>
    latitude (position (ticks dt ((i, boxes) # later) p)) = NaN"
proof -
  have "lost (SetInput i p) \<or> move (player_input (SetInput i p)) \<and>
      direction (player_input (SetInput i p)) = NaN"
    using assms by (simp add: player_ops)
  from movement_lost(1,2) [OF this, of dt boxes] show ?thesis
    using ticks_lost [of "fst (CalculatePlayerMovement dt (SetInput i p) boxes)" dt later]
    by (simp add: player_ops lost_def)
qed

theorem nan_direction_loses_player_witness:
  "points (ticks (Fin 0.05) [(\<lparr>input_id = 5, move = True, direction = NaN\<rparr>, []),
      (default_input, [\<lparr>box_position = place 0 0, box_value = 100\<rparr>])] example_player) = 0"
  using nan_direction_loses_player [of "\<lparr>input_id = 5, move = True, direction = NaN\<rparr>" "Fin 0.05" "[]"
      "[(default_input, [\<lparr>box_position = place 0 0, box_value = 100\<rparr>])]" example_player]
  by (simp add: example_player_def Player_def)

text \<open>
  \<open>LongitudeToMeters\<close> is given a latitude in degrees and takes its cosine as if it were in
  radians: two degrees north of the equator a degree of longitude is a negative distance.
\<close>

theorem longitude_conversion_takes_degrees_for_radians:
  "LongitudeToMeters (Fin 1) (Fin 2) < 0 \<and> 0 < fcos (Fin 2 * M_PI / Fin 180)"
proof -
  have "cos (2 :: real) < 0" by (rule cos_two_less_zero)
  moreover have "0 < cos (2 * pi / 180)"
    by (rule cos_gt_zero_pi) (use pi_gt_zero in \<open>simp_all add: field_simps\<close>)
  ultimately show ?thesis
    by (simp add: meters_x_def M_PI_def)
qed

end
