(* ===== verification/Crc_Catalogue.thy ===== *)
theory Crc_Catalogue
  imports Crc
begin

text \<open>
  The remaining parameter sets that UPZP-GameProcess/inc/CRC.h names, in the order of the
  file (\<open>CRC_16_ARC\<close> and \<open>CRC_32\<close> are in \<open>Crc\<close>), their well-formedness and their
  documented check values: the CRC of the ASCII digits 1 to 9.
\<close>

section \<open>The parameter sets\<close>

definition CRC_4_ITU :: "u8 parameters" where
  "CRC_4_ITU = \<lparr>polynomial = 0x3, initialValue = 0x0, finalXOR = 0x0,
     reflectInput = True, reflectOutput = True\<rparr>"

definition CRC_5_EPC :: "u8 parameters" where
  "CRC_5_EPC = \<lparr>polynomial = 0x09, initialValue = 0x09, finalXOR = 0x00,
     reflectInput = False, reflectOutput = False\<rparr>"

definition CRC_5_ITU :: "u8 parameters" where
  "CRC_5_ITU = \<lparr>polynomial = 0x15, initialValue = 0x00, finalXOR = 0x00,
     reflectInput = True, reflectOutput = True\<rparr>"

definition CRC_5_USB :: "u8 parameters" where
  "CRC_5_USB = \<lparr>polynomial = 0x05, initialValue = 0x1F, finalXOR = 0x1F,
     reflectInput = True, reflectOutput = True\<rparr>"

definition CRC_6_CDMA2000A :: "u8 parameters" where
  "CRC_6_CDMA2000A = \<lparr>polynomial = 0x27, initialValue = 0x3F, finalXOR = 0x00,
     reflectInput = False, reflectOutput = False\<rparr>"

definition CRC_6_CDMA2000B :: "u8 parameters" where
  "CRC_6_CDMA2000B = \<lparr>polynomial = 0x07, initialValue = 0x3F, finalXOR = 0x00,
     reflectInput = False, reflectOutput = False\<rparr>"

definition CRC_6_ITU :: "u8 parameters" where
  "CRC_6_ITU = \<lparr>polynomial = 0x03, initialValue = 0x00, finalXOR = 0x00,
     reflectInput = True, reflectOutput = True\<rparr>"

definition CRC_7 :: "u8 parameters" where
  "CRC_7 = \<lparr>polynomial = 0x09, initialValue = 0x00, finalXOR = 0x00,
     reflectInput = False, reflectOutput = False\<rparr>"

definition CRC_8 :: "u8 parameters" where
  "CRC_8 = \<lparr>polynomial = 0x07, initialValue = 0x00, finalXOR = 0x00,
     reflectInput = False, reflectOutput = False\<rparr>"

definition CRC_8_EBU :: "u8 parameters" where
  "CRC_8_EBU = \<lparr>polynomial = 0x1D, initialValue = 0xFF, finalXOR = 0x00,
     reflectInput = True, reflectOutput = True\<rparr>"

definition CRC_8_MAXIM :: "u8 parameters" where
  "CRC_8_MAXIM = \<lparr>polynomial = 0x31, initialValue = 0x00, finalXOR = 0x00,
     reflectInput = True, reflectOutput = True\<rparr>"

definition CRC_8_WCDMA :: "u8 parameters" where
  "CRC_8_WCDMA = \<lparr>polynomial = 0x9B, initialValue = 0x00, finalXOR = 0x00,
     reflectInput = True, reflectOutput = True\<rparr>"

definition CRC_10 :: "u16 parameters" where
  "CRC_10 = \<lparr>polynomial = 0x233, initialValue = 0x000, finalXOR = 0x000,
     reflectInput = False, reflectOutput = False\<rparr>"

definition CRC_10_CDMA2000 :: "u16 parameters" where
  "CRC_10_CDMA2000 = \<lparr>polynomial = 0x3D9, initialValue = 0x3FF, finalXOR = 0x000,
     reflectInput = False, reflectOutput = False\<rparr>"

definition CRC_11 :: "u16 parameters" where
  "CRC_11 = \<lparr>polynomial = 0x385, initialValue = 0x01A, finalXOR = 0x000,
     reflectInput = False, reflectOutput = False\<rparr>"

definition CRC_12_CDMA2000 :: "u16 parameters" where
  "CRC_12_CDMA2000 = \<lparr>polynomial = 0xF13, initialValue = 0xFFF, finalXOR = 0x000,
     reflectInput = False, reflectOutput = False\<rparr>"

definition CRC_12_DECT :: "u16 parameters" where
  "CRC_12_DECT = \<lparr>polynomial = 0x80F, initialValue = 0x000, finalXOR = 0x000,
     reflectInput = False, reflectOutput = False\<rparr>"

definition CRC_12_UMTS :: "u16 parameters" where
  "CRC_12_UMTS = \<lparr>polynomial = 0x80F, initialValue = 0x000, finalXOR = 0x000,
     reflectInput = False, reflectOutput = True\<rparr>"

definition CRC_13_BBC :: "u16 parameters" where
  "CRC_13_BBC = \<lparr>polynomial = 0x1CF5, initialValue = 0x0000, finalXOR = 0x0000,
     reflectInput = False, reflectOutput = False\<rparr>"

definition CRC_15 :: "u16 parameters" where
  "CRC_15 = \<lparr>polynomial = 0x4599, initialValue = 0x0000, finalXOR = 0x0000,
     reflectInput = False, reflectOutput = False\<rparr>"

definition CRC_15_MPT1327 :: "u16 parameters" where
  "CRC_15_MPT1327 = \<lparr>polynomial = 0x6815, initialValue = 0x0000, finalXOR = 0x0001,
     reflectInput = False, reflectOutput = False\<rparr>"

definition CRC_16_BUYPASS :: "u16 parameters" where
  "CRC_16_BUYPASS = \<lparr>polynomial = 0x8005, initialValue = 0x0000, finalXOR = 0x0000,
     reflectInput = False, reflectOutput = False\<rparr>"

definition CRC_16_CCITTFALSE :: "u16 parameters" where
  "CRC_16_CCITTFALSE = \<lparr>polynomial = 0x1021, initialValue = 0xFFFF, finalXOR = 0x0000,
     reflectInput = False, reflectOutput = False\<rparr>"

definition CRC_16_CDMA2000 :: "u16 parameters" where
  "CRC_16_CDMA2000 = \<lparr>polynomial = 0xC867, initialValue = 0xFFFF, finalXOR = 0x0000,
     reflectInput = False, reflectOutput = False\<rparr>"

definition CRC_16_CMS :: "u16 parameters" where
  "CRC_16_CMS = \<lparr>polynomial = 0x8005, initialValue = 0xFFFF, finalXOR = 0x0000,
     reflectInput = False, reflectOutput = False\<rparr>"

definition CRC_16_DECTR :: "u16 parameters" where
  "CRC_16_DECTR = \<lparr>polynomial = 0x0589, initialValue = 0x0000, finalXOR = 0x0001,
     reflectInput = False, reflectOutput = False\<rparr>"

definition CRC_16_DECTX :: "u16 parameters" where
  "CRC_16_DECTX = \<lparr>polynomial = 0x0589, initialValue = 0x0000, finalXOR = 0x0000,
     reflectInput = False, reflectOutput = False\<rparr>"

definition CRC_16_DNP :: "u16 parameters" where
  "CRC_16_DNP = \<lparr>polynomial = 0x3D65, initialValue = 0x0000, finalXOR = 0xFFFF,
     reflectInput = True, reflectOutput = True\<rparr>"

definition CRC_16_GENIBUS :: "u16 parameters" where
  "CRC_16_GENIBUS = \<lparr>polynomial = 0x1021, initialValue = 0xFFFF, finalXOR = 0xFFFF,
     reflectInput = False, reflectOutput = False\<rparr>"

definition CRC_16_KERMIT :: "u16 parameters" where
  "CRC_16_KERMIT = \<lparr>polynomial = 0x1021, initialValue = 0x0000, finalXOR = 0x0000,
     reflectInput = True, reflectOutput = True\<rparr>"

definition CRC_16_MAXIM :: "u16 parameters" where
  "CRC_16_MAXIM = \<lparr>polynomial = 0x8005, initialValue = 0x0000, finalXOR = 0xFFFF,
     reflectInput = True, reflectOutput = True\<rparr>"

definition CRC_16_MODBUS :: "u16 parameters" where
  "CRC_16_MODBUS = \<lparr>polynomial = 0x8005, initialValue = 0xFFFF, finalXOR = 0x0000,
     reflectInput = True, reflectOutput = True\<rparr>"

definition CRC_16_T10DIF :: "u16 parameters" where
  "CRC_16_T10DIF = \<lparr>polynomial = 0x8BB7, initialValue = 0x0000, finalXOR = 0x0000,
     reflectInput = False, reflectOutput = False\<rparr>"

definition CRC_16_USB :: "u16 parameters" where
  "CRC_16_USB = \<lparr>polynomial = 0x8005, initialValue = 0xFFFF, finalXOR = 0xFFFF,
     reflectInput = True, reflectOutput = True\<rparr>"

definition CRC_16_X25 :: "u16 parameters" where
  "CRC_16_X25 = \<lparr>polynomial = 0x1021, initialValue = 0xFFFF, finalXOR = 0xFFFF,
     reflectInput = True, reflectOutput = True\<rparr>"

definition CRC_16_XMODEM :: "u16 parameters" where
  "CRC_16_XMODEM = \<lparr>polynomial = 0x1021, initialValue = 0x0000, finalXOR = 0x0000,
     reflectInput = False, reflectOutput = False\<rparr>"

definition CRC_17_CAN :: "u32 parameters" where
  "CRC_17_CAN = \<lparr>polynomial = 0x1685B, initialValue = 0x00000, finalXOR = 0x00000,
     reflectInput = False, reflectOutput = False\<rparr>"

definition CRC_21_CAN :: "u32 parameters" where
  "CRC_21_CAN = \<lparr>polynomial = 0x102899, initialValue = 0x000000, finalXOR = 0x000000,
     reflectInput = False, reflectOutput = False\<rparr>"

definition CRC_24 :: "u32 parameters" where
  "CRC_24 = \<lparr>polynomial = 0x864CFB, initialValue = 0xB704CE, finalXOR = 0x000000,
     reflectInput = False, reflectOutput = False\<rparr>"

definition CRC_24_FLEXRAYA :: "u32 parameters" where
  "CRC_24_FLEXRAYA = \<lparr>polynomial = 0x5D6DCB, initialValue = 0xFEDCBA, finalXOR = 0x000000,
     reflectInput = False, reflectOutput = False\<rparr>"

definition CRC_24_FLEXRAYB :: "u32 parameters" where
  "CRC_24_FLEXRAYB = \<lparr>polynomial = 0x5D6DCB, initialValue = 0xABCDEF, finalXOR = 0x000000,
     reflectInput = False, reflectOutput = False\<rparr>"

definition CRC_30 :: "u32 parameters" where
  "CRC_30 = \<lparr>polynomial = 0x2030B9C7, initialValue = 0x3FFFFFFF, finalXOR = 0x00000000,
     reflectInput = False, reflectOutput = False\<rparr>"

definition CRC_32_BZIP2 :: "u32 parameters" where
  "CRC_32_BZIP2 = \<lparr>polynomial = 0x04C11DB7, initialValue = 0xFFFFFFFF, finalXOR = 0xFFFFFFFF,
     reflectInput = False, reflectOutput = False\<rparr>"

definition CRC_32_C :: "u32 parameters" where
  "CRC_32_C = \<lparr>polynomial = 0x1EDC6F41, initialValue = 0xFFFFFFFF, finalXOR = 0xFFFFFFFF,
     reflectInput = True, reflectOutput = True\<rparr>"

definition CRC_32_MPEG2 :: "u32 parameters" where
  "CRC_32_MPEG2 = \<lparr>polynomial = 0x04C11DB7, initialValue = 0xFFFFFFFF, finalXOR = 0x00000000,
     reflectInput = False, reflectOutput = False\<rparr>"

definition CRC_32_POSIX :: "u32 parameters" where
  "CRC_32_POSIX = \<lparr>polynomial = 0x04C11DB7, initialValue = 0x00000000, finalXOR = 0xFFFFFFFF,
     reflectInput = False, reflectOutput = False\<rparr>"

definition CRC_32_Q :: "u32 parameters" where
  "CRC_32_Q = \<lparr>polynomial = 0x814141AB, initialValue = 0x00000000, finalXOR = 0x00000000,
     reflectInput = False, reflectOutput = False\<rparr>"

definition CRC_40_GSM :: "u64 parameters" where
  "CRC_40_GSM = \<lparr>polynomial = 0x0004820009, initialValue = 0x0000000000, finalXOR = 0xFFFFFFFFFF,
     reflectInput = False, reflectOutput = False\<rparr>"

definition CRC_64 :: "u64 parameters" where
  "CRC_64 = \<lparr>polynomial = 0x42F0E1EBA9EA3693, initialValue = 0x0000000000000000, finalXOR = 0x0000000000000000,
     reflectInput = False, reflectOutput = False\<rparr>"

section \<open>Well-formedness and check values\<close>

definition check_digits :: "u8 list" where
  "check_digits = [0x31, 0x32, 0x33, 0x34, 0x35, 0x36, 0x37, 0x38, 0x39]"

declare check_digits_def [crc_eval]

lemma check_CRC_4_ITU:
  "wf_parameters 4 CRC_4_ITU" "Calculate 4 check_digits CRC_4_ITU = 0x7"
  by (simp_all add: wf_parameters_def CRC_4_ITU_def crc_eval)

lemma check_CRC_5_EPC:
  "wf_parameters 5 CRC_5_EPC" "Calculate 5 check_digits CRC_5_EPC = 0x0"
  by (simp_all add: wf_parameters_def CRC_5_EPC_def crc_eval)

lemma check_CRC_5_ITU:
  "wf_parameters 5 CRC_5_ITU" "Calculate 5 check_digits CRC_5_ITU = 0x7"
  by (simp_all add: wf_parameters_def CRC_5_ITU_def crc_eval)

lemma check_CRC_5_USB:
  "wf_parameters 5 CRC_5_USB" "Calculate 5 check_digits CRC_5_USB = 0x19"
  by (simp_all add: wf_parameters_def CRC_5_USB_def crc_eval)

lemma check_CRC_6_CDMA2000A:
  "wf_parameters 6 CRC_6_CDMA2000A" "Calculate 6 check_digits CRC_6_CDMA2000A = 0xD"
  by (simp_all add: wf_parameters_def CRC_6_CDMA2000A_def crc_eval)

lemma check_CRC_6_CDMA2000B:
  "wf_parameters 6 CRC_6_CDMA2000B" "Calculate 6 check_digits CRC_6_CDMA2000B = 0x3B"
  by (simp_all add: wf_parameters_def CRC_6_CDMA2000B_def crc_eval)

lemma check_CRC_6_ITU:
  "wf_parameters 6 CRC_6_ITU" "Calculate 6 check_digits CRC_6_ITU = 0x6"
  by (simp_all add: wf_parameters_def CRC_6_ITU_def crc_eval)

lemma check_CRC_7:
  "wf_parameters 7 CRC_7" "Calculate 7 check_digits CRC_7 = 0x75"
  by (simp_all add: wf_parameters_def CRC_7_def crc_eval)

lemma check_CRC_8:
  "wf_parameters 8 CRC_8" "Calculate 8 check_digits CRC_8 = 0xF4"
  by (simp_all add: wf_parameters_def CRC_8_def crc_eval)

lemma check_CRC_8_EBU:
  "wf_parameters 8 CRC_8_EBU" "Calculate 8 check_digits CRC_8_EBU = 0x97"
  by (simp_all add: wf_parameters_def CRC_8_EBU_def crc_eval)

lemma check_CRC_8_MAXIM:
  "wf_parameters 8 CRC_8_MAXIM" "Calculate 8 check_digits CRC_8_MAXIM = 0xA1"
  by (simp_all add: wf_parameters_def CRC_8_MAXIM_def crc_eval)

lemma check_CRC_8_WCDMA:
  "wf_parameters 8 CRC_8_WCDMA" "Calculate 8 check_digits CRC_8_WCDMA = 0x25"
  by (simp_all add: wf_parameters_def CRC_8_WCDMA_def crc_eval)

lemma check_CRC_10:
  "wf_parameters 10 CRC_10" "Calculate 10 check_digits CRC_10 = 0x199"
  by (simp_all add: wf_parameters_def CRC_10_def crc_eval)

lemma check_CRC_10_CDMA2000:
  "wf_parameters 10 CRC_10_CDMA2000" "Calculate 10 check_digits CRC_10_CDMA2000 = 0x233"
  by (simp_all add: wf_parameters_def CRC_10_CDMA2000_def crc_eval)

lemma check_CRC_11:
  "wf_parameters 11 CRC_11" "Calculate 11 check_digits CRC_11 = 0x5A3"
  by (simp_all add: wf_parameters_def CRC_11_def crc_eval)

lemma check_CRC_12_CDMA2000:
  "wf_parameters 12 CRC_12_CDMA2000" "Calculate 12 check_digits CRC_12_CDMA2000 = 0xD4D"
  by (simp_all add: wf_parameters_def CRC_12_CDMA2000_def crc_eval)

lemma check_CRC_12_DECT:
  "wf_parameters 12 CRC_12_DECT" "Calculate 12 check_digits CRC_12_DECT = 0xF5B"
  by (simp_all add: wf_parameters_def CRC_12_DECT_def crc_eval)

lemma check_CRC_12_UMTS:
  "wf_parameters 12 CRC_12_UMTS" "Calculate 12 check_digits CRC_12_UMTS = 0xDAF"
  by (simp_all add: wf_parameters_def CRC_12_UMTS_def crc_eval)

lemma check_CRC_13_BBC:
  "wf_parameters 13 CRC_13_BBC" "Calculate 13 check_digits CRC_13_BBC = 0x4FA"
  by (simp_all add: wf_parameters_def CRC_13_BBC_def crc_eval)

lemma check_CRC_15:
  "wf_parameters 15 CRC_15" "Calculate 15 check_digits CRC_15 = 0x59E"
  by (simp_all add: wf_parameters_def CRC_15_def crc_eval)

lemma check_CRC_15_MPT1327:
  "wf_parameters 15 CRC_15_MPT1327" "Calculate 15 check_digits CRC_15_MPT1327 = 0x2566"
  by (simp_all add: wf_parameters_def CRC_15_MPT1327_def crc_eval)

lemma check_CRC_16_ARC:
  "wf_parameters 16 CRC_16_ARC" "Calculate 16 check_digits CRC_16_ARC = 0xBB3D"
  by (simp_all add: wf_parameters_def CRC_16_ARC_def crc_eval)

lemma check_CRC_16_BUYPASS:
  "wf_parameters 16 CRC_16_BUYPASS" "Calculate 16 check_digits CRC_16_BUYPASS = 0xFEE8"
  by (simp_all add: wf_parameters_def CRC_16_BUYPASS_def crc_eval)

lemma check_CRC_16_CCITTFALSE:
  "wf_parameters 16 CRC_16_CCITTFALSE" "Calculate 16 check_digits CRC_16_CCITTFALSE = 0x29B1"
  by (simp_all add: wf_parameters_def CRC_16_CCITTFALSE_def crc_eval)

lemma check_CRC_16_CDMA2000:
  "wf_parameters 16 CRC_16_CDMA2000" "Calculate 16 check_digits CRC_16_CDMA2000 = 0x4C06"
  by (simp_all add: wf_parameters_def CRC_16_CDMA2000_def crc_eval)

lemma check_CRC_16_CMS:
  "wf_parameters 16 CRC_16_CMS" "Calculate 16 check_digits CRC_16_CMS = 0xAEE7"
  by (simp_all add: wf_parameters_def CRC_16_CMS_def crc_eval)

lemma check_CRC_16_DECTR:
  "wf_parameters 16 CRC_16_DECTR" "Calculate 16 check_digits CRC_16_DECTR = 0x7E"
  by (simp_all add: wf_parameters_def CRC_16_DECTR_def crc_eval)

lemma check_CRC_16_DECTX:
  "wf_parameters 16 CRC_16_DECTX" "Calculate 16 check_digits CRC_16_DECTX = 0x7F"
  by (simp_all add: wf_parameters_def CRC_16_DECTX_def crc_eval)

lemma check_CRC_16_DNP:
  "wf_parameters 16 CRC_16_DNP" "Calculate 16 check_digits CRC_16_DNP = 0xEA82"
  by (simp_all add: wf_parameters_def CRC_16_DNP_def crc_eval)

lemma check_CRC_16_GENIBUS:
  "wf_parameters 16 CRC_16_GENIBUS" "Calculate 16 check_digits CRC_16_GENIBUS = 0xD64E"
  by (simp_all add: wf_parameters_def CRC_16_GENIBUS_def crc_eval)

lemma check_CRC_16_KERMIT:
  "wf_parameters 16 CRC_16_KERMIT" "Calculate 16 check_digits CRC_16_KERMIT = 0x2189"
  by (simp_all add: wf_parameters_def CRC_16_KERMIT_def crc_eval)

lemma check_CRC_16_MAXIM:
  "wf_parameters 16 CRC_16_MAXIM" "Calculate 16 check_digits CRC_16_MAXIM = 0x44C2"
  by (simp_all add: wf_parameters_def CRC_16_MAXIM_def crc_eval)

lemma check_CRC_16_MODBUS:
  "wf_parameters 16 CRC_16_MODBUS" "Calculate 16 check_digits CRC_16_MODBUS = 0x4B37"
  by (simp_all add: wf_parameters_def CRC_16_MODBUS_def crc_eval)

lemma check_CRC_16_T10DIF:
  "wf_parameters 16 CRC_16_T10DIF" "Calculate 16 check_digits CRC_16_T10DIF = 0xD0DB"
  by (simp_all add: wf_parameters_def CRC_16_T10DIF_def crc_eval)

lemma check_CRC_16_USB:
  "wf_parameters 16 CRC_16_USB" "Calculate 16 check_digits CRC_16_USB = 0xB4C8"
  by (simp_all add: wf_parameters_def CRC_16_USB_def crc_eval)

lemma check_CRC_16_X25:
  "wf_parameters 16 CRC_16_X25" "Calculate 16 check_digits CRC_16_X25 = 0x906E"
  by (simp_all add: wf_parameters_def CRC_16_X25_def crc_eval)

lemma check_CRC_16_XMODEM:
  "wf_parameters 16 CRC_16_XMODEM" "Calculate 16 check_digits CRC_16_XMODEM = 0x31C3"
  by (simp_all add: wf_parameters_def CRC_16_XMODEM_def crc_eval)

lemma check_CRC_17_CAN:
  "wf_parameters 17 CRC_17_CAN" "Calculate 17 check_digits CRC_17_CAN = 0x4F03"
  by (simp_all add: wf_parameters_def CRC_17_CAN_def crc_eval)

lemma check_CRC_21_CAN:
  "wf_parameters 21 CRC_21_CAN" "Calculate 21 check_digits CRC_21_CAN = 0xED841"
  by (simp_all add: wf_parameters_def CRC_21_CAN_def crc_eval)

lemma check_CRC_24:
  "wf_parameters 24 CRC_24" "Calculate 24 check_digits CRC_24 = 0x21CF02"
  by (simp_all add: wf_parameters_def CRC_24_def crc_eval)

lemma check_CRC_24_FLEXRAYA:
  "wf_parameters 24 CRC_24_FLEXRAYA" "Calculate 24 check_digits CRC_24_FLEXRAYA = 0x7979BD"
  by (simp_all add: wf_parameters_def CRC_24_FLEXRAYA_def crc_eval)

lemma check_CRC_24_FLEXRAYB:
  "wf_parameters 24 CRC_24_FLEXRAYB" "Calculate 24 check_digits CRC_24_FLEXRAYB = 0x1F23B8"
  by (simp_all add: wf_parameters_def CRC_24_FLEXRAYB_def crc_eval)

lemma check_CRC_30:
  "wf_parameters 30 CRC_30" "Calculate 30 check_digits CRC_30 = 0x3B3CB540"
  by (simp_all add: wf_parameters_def CRC_30_def crc_eval)

lemma check_CRC_32:
  "wf_parameters 32 CRC_32" "Calculate 32 check_digits CRC_32 = 0xCBF43926"
  by (simp_all add: wf_parameters_def CRC_32_def crc_eval)

lemma check_CRC_32_BZIP2:
  "wf_parameters 32 CRC_32_BZIP2" "Calculate 32 check_digits CRC_32_BZIP2 = 0xFC891918"
  by (simp_all add: wf_parameters_def CRC_32_BZIP2_def crc_eval)

lemma check_CRC_32_C:
  "wf_parameters 32 CRC_32_C" "Calculate 32 check_digits CRC_32_C = 0xE3069283"
  by (simp_all add: wf_parameters_def CRC_32_C_def crc_eval)

lemma check_CRC_32_MPEG2:
  "wf_parameters 32 CRC_32_MPEG2" "Calculate 32 check_digits CRC_32_MPEG2 = 0x376E6E7"
  by (simp_all add: wf_parameters_def CRC_32_MPEG2_def crc_eval)

lemma check_CRC_32_POSIX:
  "wf_parameters 32 CRC_32_POSIX" "Calculate 32 check_digits CRC_32_POSIX = 0x765E7680"
  by (simp_all add: wf_parameters_def CRC_32_POSIX_def crc_eval)

lemma check_CRC_32_Q:
  "wf_parameters 32 CRC_32_Q" "Calculate 32 check_digits CRC_32_Q = 0x3010BF7F"
  by (simp_all add: wf_parameters_def CRC_32_Q_def crc_eval)

lemma check_CRC_40_GSM:
  "wf_parameters 40 CRC_40_GSM" "Calculate 40 check_digits CRC_40_GSM = 0xD4164FC646"
  by (simp_all add: wf_parameters_def CRC_40_GSM_def crc_eval)

lemma check_CRC_64:
  "wf_parameters 64 CRC_64" "Calculate 64 check_digits CRC_64 = 0x6C40DF5F0B497347"
  by (simp_all add: wf_parameters_def CRC_64_def crc_eval)

section \<open>Properties\<close>


text \<open>
  Every parameter set of the library is well-formed: the general theorems on
  multi-part and table-driven computation apply to each of them.
\<close>

theorem catalogue_well_formed:
  "wf_parameters 4 CRC_4_ITU \<and>
   wf_parameters 5 CRC_5_EPC \<and>
   wf_parameters 5 CRC_5_ITU \<and>
   wf_parameters 5 CRC_5_USB \<and>
   wf_parameters 6 CRC_6_CDMA2000A \<and>
   wf_parameters 6 CRC_6_CDMA2000B \<and>
   wf_parameters 6 CRC_6_ITU \<and>
   wf_parameters 7 CRC_7 \<and>
   wf_parameters 8 CRC_8 \<and>
   wf_parameters 8 CRC_8_EBU \<and>
   wf_parameters 8 CRC_8_MAXIM \<and>
   wf_parameters 8 CRC_8_WCDMA \<and>
   wf_parameters 10 CRC_10 \<and>
   wf_parameters 10 CRC_10_CDMA2000 \<and>
   wf_parameters 11 CRC_11 \<and>
   wf_parameters 12 CRC_12_CDMA2000 \<and>
   wf_parameters 12 CRC_12_DECT \<and>
   wf_parameters 12 CRC_12_UMTS \<and>
   wf_parameters 13 CRC_13_BBC \<and>
   wf_parameters 15 CRC_15 \<and>
   wf_parameters 15 CRC_15_MPT1327 \<and>
   wf_parameters 16 CRC_16_ARC \<and>
   wf_parameters 16 CRC_16_BUYPASS \<and>
   wf_parameters 16 CRC_16_CCITTFALSE \<and>
   wf_parameters 16 CRC_16_CDMA2000 \<and>
   wf_parameters 16 CRC_16_CMS \<and>
   wf_parameters 16 CRC_16_DECTR \<and>
   wf_parameters 16 CRC_16_DECTX \<and>
   wf_parameters 16 CRC_16_DNP \<and>
   wf_parameters 16 CRC_16_GENIBUS \<and>
   wf_parameters 16 CRC_16_KERMIT \<and>
   wf_parameters 16 CRC_16_MAXIM \<and>
   wf_parameters 16 CRC_16_MODBUS \<and>
   wf_parameters 16 CRC_16_T10DIF \<and>
   wf_parameters 16 CRC_16_USB \<and>
   wf_parameters 16 CRC_16_X25 \<and>
   wf_parameters 16 CRC_16_XMODEM \<and>
   wf_parameters 17 CRC_17_CAN \<and>
   wf_parameters 21 CRC_21_CAN \<and>
   wf_parameters 24 CRC_24 \<and>
   wf_parameters 24 CRC_24_FLEXRAYA \<and>
   wf_parameters 24 CRC_24_FLEXRAYB \<and>
   wf_parameters 30 CRC_30 \<and>
   wf_parameters 32 CRC_32 \<and>
   wf_parameters 32 CRC_32_BZIP2 \<and>
   wf_parameters 32 CRC_32_C \<and>
   wf_parameters 32 CRC_32_MPEG2 \<and>
   wf_parameters 32 CRC_32_POSIX \<and>
   wf_parameters 32 CRC_32_Q \<and>
   wf_parameters 40 CRC_40_GSM \<and>
   wf_parameters 64 CRC_64"
  by (simp only: check_CRC_4_ITU(1)
    check_CRC_5_EPC(1)
    check_CRC_5_ITU(1)
    check_CRC_5_USB(1)
    check_CRC_6_CDMA2000A(1)
    check_CRC_6_CDMA2000B(1)
    check_CRC_6_ITU(1)
    check_CRC_7(1)
    check_CRC_8(1)
    check_CRC_8_EBU(1)
    check_CRC_8_MAXIM(1)
    check_CRC_8_WCDMA(1)
    check_CRC_10(1)
    check_CRC_10_CDMA2000(1)
    check_CRC_11(1)
    check_CRC_12_CDMA2000(1)
    check_CRC_12_DECT(1)
    check_CRC_12_UMTS(1)
    check_CRC_13_BBC(1)
    check_CRC_15(1)
    check_CRC_15_MPT1327(1)
    check_CRC_16_ARC(1)
    check_CRC_16_BUYPASS(1)
    check_CRC_16_CCITTFALSE(1)
    check_CRC_16_CDMA2000(1)
    check_CRC_16_CMS(1)
    check_CRC_16_DECTR(1)
    check_CRC_16_DECTX(1)
    check_CRC_16_DNP(1)
    check_CRC_16_GENIBUS(1)
    check_CRC_16_KERMIT(1)
    check_CRC_16_MAXIM(1)
    check_CRC_16_MODBUS(1)
    check_CRC_16_T10DIF(1)
    check_CRC_16_USB(1)
    check_CRC_16_X25(1)
    check_CRC_16_XMODEM(1)
    check_CRC_17_CAN(1)
    check_CRC_21_CAN(1)
    check_CRC_24(1)
    check_CRC_24_FLEXRAYA(1)
    check_CRC_24_FLEXRAYB(1)
    check_CRC_30(1)
    check_CRC_32(1)
    check_CRC_32_BZIP2(1)
    check_CRC_32_C(1)
    check_CRC_32_MPEG2(1)
    check_CRC_32_POSIX(1)
    check_CRC_32_Q(1)
    check_CRC_40_GSM(1)
    check_CRC_64(1) simp_thms)

end
