(* ===== verification/Logic_Runs.thy ===== *)
theory Logic_Runs
  imports Game_Logic
begin

text \<open>
  Runs of game_logic/game_logic.cpp: the game thread interleaved, step by step, with the calls
  that the communication threads and \<open>main\<close> make. The invariant ties \<open>game_started_\<close> to the
  thread and the end of the loop to its reasons.
\<close>

section \<open>Steps\<close>

inductive logic_step :: "game_logic \<Rightarrow> game_logic \<Rightarrow> bool" where
  thread: "thread_step now distance angle gl = Some gl' \<Longrightarrow> logic_step gl gl'"
| player: "logic_step gl (Logic_AddPlayer distance angle c red gl)"
| movement: "logic_step gl (SetPlayerMovement i gl)"
| start: "StartGame now gl = Some gl' \<Longrightarrow> logic_step gl gl'"
| stop: "logic_step gl (StopGame_request gl)"
| join: "StopGame_join gl = Some gl' \<Longrightarrow> logic_step gl gl'"

inductive reachable :: "game_logic \<Rightarrow> game_logic \<Rightarrow> bool" for gl0 where
  initial: "reachable gl0 gl0"
| later: "reachable gl0 gl \<Longrightarrow> logic_step gl gl' \<Longrightarrow> reachable gl0 gl'"

inductive_cases logic_stepE: "logic_step gl gl'"

section \<open>One step\<close>

lemma Tick_eq: "game gl = Some g \<Longrightarrow> Tick now distance angle gl =
    (let spawn = point_box_spawn_period gl < now - last_point_box_spawn gl
     in Some (gl\<lparr>game := Some (play ((if spawn then [Op_Box distance angle] else []) @ [Op_Move tick_seconds]) g),
          last_point_box_spawn := (if spawn then now else last_point_box_spawn gl),
          serialization_seq_num := serialization_seq_num gl + 1\<rparr>))"
  by (simp add: Tick_def Let_def)

lemma Tick_Some: "game gl = Some g \<Longrightarrow> \<exists>ops last. Tick now distance angle gl =
    Some (gl\<lparr>game := Some (play ops g), last_point_box_spawn := last,
      serialization_seq_num := serialization_seq_num gl + 1\<rparr>)"
  unfolding Tick_eq Let_def by blast

text \<open>The parts of the state that a step other than one of the thread leaves.\<close>

definition control :: "game_logic \<Rightarrow> thread \<times> bool \<times> u64" where
  "control gl = (game_thread gl, game_started gl, serialization_seq_num gl)"

lemma calls_keep_control [simp]:
  "control (Logic_AddPlayer distance angle c red gl) = control gl"
  "control (SetPlayerMovement i gl) = control gl"
  "control (StopGame_request gl) = control gl"
  "terminate (Logic_AddPlayer distance angle c red gl) = terminate gl"
  "terminate (SetPlayerMovement i gl) = terminate gl"
  by (simp_all add: control_def Logic_AddPlayer_def SetPlayerMovement_def StopGame_request_def
      split: option.splits)

definition won :: "game \<Rightarrow> bool" where
  "won g \<longleftrightarrow> RedTeamWon g \<or> BlueTeamWon g"

lemma won_play: "game_inv g \<Longrightarrow> won g \<Longrightarrow> won (play ops g)"
  using scores_play [of g ops] by (auto simp: won_def RedTeamWon_def BlueTeamWon_def)

lemma step_plays:
  assumes "logic_step gl gl'" "game gl = Some g"
  shows "\<exists>ops. game gl' = Some (play ops g)"
  using assms(1)
proof cases
  case (thread now distance angle)
  then show ?thesis
    using assms(2) Tick_Some [OF assms(2), of now distance angle]
    by (auto simp: thread_step_def split: thread.splits pc.splits intro: exI [of _ "[]"])
next
  case (player distance angle c red)
  with assms(2) show ?thesis
    by (auto simp: Logic_AddPlayer_def
        intro: exI [of _ "[Op_Player distance angle (Name c) (Id c) (Vehicle c) red]"])
next
  case (movement i)
  with assms(2) show ?thesis
    by (auto simp: SetPlayerMovement_def intro: exI [of _ "[Op_Input i]"])
qed (use assms(2) in \<open>auto simp: StartGame_def StopGame_request_def StopGame_join_def Let_def
      split: if_splits thread.splits pc.splits intro: exI [of _ "[]"]\<close>)

section \<open>The invariant\<close>

definition active :: "thread \<Rightarrow> bool" where
  "active t \<longleftrightarrow> (\<exists>p. t = Joinable p \<and> p \<noteq> Ended)"

definition logic_inv :: "game_logic \<Rightarrow> bool" where
  "logic_inv gl \<longleftrightarrow> (\<exists>g. game gl = Some g \<and> game_inv g \<and>
     (game_started gl \<longleftrightarrow> active (game_thread gl)) \<and>
     (game_thread gl = Joinable After_Loop \<longrightarrow> terminate gl \<or> won g) \<and>
     (game_thread gl = Joinable At_Finish_Point \<or> game_thread gl = Joinable At_Statistics \<longrightarrow> won g))"

lemma logic_inv_NewGame: "logic_inv (NewGame start radius name n win period (GameLogic now))"
  by (simp add: logic_inv_def NewGame_def GameLogic_def Game_inv active_def)

lemma logic_inv_play:
  assumes "logic_inv gl" "control gl' = control gl" "terminate gl \<longrightarrow> terminate gl'"
    "\<And>g. game gl = Some g \<Longrightarrow> \<exists>ops. game gl' = Some (play ops g)"
  shows "logic_inv gl'"
  using assms by (force simp: logic_inv_def control_def intro: play_inv won_play)

lemma thread_step_inv:
  assumes inv: "logic_inv gl" and step: "thread_step now distance angle gl = Some gl'"
  shows "logic_inv gl'"
proof -
  from inv obtain g where g: "game gl = Some g" "game_inv g" by (auto simp: logic_inv_def)
  from step obtain p where p: "game_thread gl = Joinable p"
    by (auto simp: thread_step_def split: thread.splits)
  show ?thesis
  proof (cases p)
    case At_Tick
    from Tick_Some [OF g(1)] obtain ops last where
      "Tick now distance angle gl = Some (gl\<lparr>game := Some (play ops g), last_point_box_spawn := last,
         serialization_seq_num := serialization_seq_num gl + 1\<rparr>)" by blast
    with At_Tick p step inv g show ?thesis
      by (auto simp: thread_step_def logic_inv_def active_def play_inv)
  next
    case At_Game_Finished
    with p step inv g show ?thesis
      by (auto simp: thread_step_def logic_inv_def active_def GameFinished_def won_def)
  qed (use p step inv g in \<open>auto simp: thread_step_def logic_inv_def active_def split: if_splits\<close>)
qed

lemma logic_step_inv:
  assumes inv: "logic_inv gl" and step: "logic_step gl gl'"
  shows "logic_inv gl'"
  using step
proof cases
  case (thread now distance angle)
  then show ?thesis using thread_step_inv [OF inv] by simp
next
  case (player distance angle c red)
  then show ?thesis using logic_inv_play [OF inv] step_plays [OF step] by simp
next
  case (movement i)
  then show ?thesis using logic_inv_play [OF inv] step_plays [OF step] by simp
next
  case stop
  then show ?thesis
    using logic_inv_play [OF inv] step_plays [OF step] by (simp add: StopGame_request_def control_def)
qed (use inv in \<open>auto simp: logic_inv_def StartGame_def StopGame_join_def active_def Let_def
      split: if_splits thread.splits pc.splits\<close>)

lemma reachable_inv: "reachable gl0 gl \<Longrightarrow> logic_inv gl0 \<Longrightarrow> logic_inv gl"
  by (induction rule: reachable.induct) (auto intro: logic_step_inv)

section \<open>The thread alone\<close>

text \<open>Up to one step for each triple of a time and two samples; the thread stops when it has ended.\<close>

fun run_thread :: "(int \<times> double \<times> double) list \<Rightarrow> game_logic \<Rightarrow> game_logic option" where
  "run_thread [] gl = Some gl"
| "run_thread ((now, distance, angle) # envs) gl =
     (if game_thread gl = Joinable Ended then Some gl
      else case thread_step now distance angle gl of
          None \<Rightarrow> None
        | Some gl' \<Rightarrow> run_thread envs gl')"

lemma run_thread_ended: "game_thread gl = Joinable Ended \<Longrightarrow> run_thread envs gl = Some gl"
  by (cases envs) auto

text \<open>How many steps are left once a stop has been requested.\<close>

fun steps_left :: "pc \<Rightarrow> nat" where
  "steps_left At_Tick = 4"
| "steps_left At_Game_Finished = 3"
| "steps_left At_Terminate = 2"
| "steps_left After_Loop = 1"
| "steps_left At_Finish_Point = 2"
| "steps_left At_Statistics = 1"
| "steps_left Ended = 0"

lemma thread_step_terminating:
  assumes "game gl \<noteq> None" "terminate gl" "game_thread gl = Joinable p" "p \<noteq> Ended"
  shows "\<exists>gl' p'. thread_step now distance angle gl = Some gl' \<and> game gl' \<noteq> None \<and> terminate gl' \<and>
    game_thread gl' = Joinable p' \<and> steps_left p' < steps_left p"
proof -
  from assms(1) obtain g where g: "game gl = Some g" by blast
  show ?thesis
  proof (cases p)
    case At_Tick
    with Tick_Some [OF g, of now distance angle] assms show ?thesis
      by (auto simp: thread_step_def)
  qed (use assms g in \<open>auto simp: thread_step_def GameFinished_def split: if_splits\<close>)
qed

lemma run_thread_terminates:
  assumes "game gl \<noteq> None" "terminate gl" "game_thread gl = Joinable p" "steps_left p \<le> length envs"
  shows "\<exists>gl'. run_thread envs gl = Some gl' \<and> game_thread gl' = Joinable Ended"
  using assms
proof (induction envs arbitrary: gl p)
  case Nil
  then show ?case by (cases p) auto
next
  case (Cons env envs)
  obtain now distance angle where env: "env = (now, distance, angle)" by (cases env) auto
  show ?case
  proof (cases "p = Ended")
    case True
    with Cons.prems env show ?thesis by simp
  next
    case False
    from thread_step_terminating [OF Cons.prems(1-3) False, of now distance angle] obtain gl' p' where
      s: "thread_step now distance angle gl = Some gl'" "game gl' \<noteq> None" "terminate gl'"
        "game_thread gl' = Joinable p'" "steps_left p' < steps_left p" by blast
    with Cons.IH [OF s(2-4)] Cons.prems(3,4) env False show ?thesis by simp
  qed
qed

text \<open>The same where a team has won: it has still won after a tick, and the loop ends.\<close>

fun steps_to_end :: "pc \<Rightarrow> nat" where
  "steps_to_end At_Terminate = 6"
| "steps_to_end At_Tick = 5"
| "steps_to_end At_Game_Finished = 4"
| "steps_to_end After_Loop = 3"
| "steps_to_end At_Finish_Point = 2"
| "steps_to_end At_Statistics = 1"
| "steps_to_end Ended = 0"

lemma thread_step_decided:
  assumes "game gl = Some g" "game_inv g" "won g" "game_thread gl = Joinable p" "p \<noteq> Ended"
  shows "\<exists>gl' g' p'. thread_step now distance angle gl = Some gl' \<and> game gl' = Some g' \<and> game_inv g' \<and>
    won g' \<and> game_thread gl' = Joinable p' \<and> steps_to_end p' < steps_to_end p \<and>
    (p' = Ended \<longrightarrow> \<not> Running gl')"
proof (cases p)
  case At_Tick
  from Tick_Some [OF assms(1), of now distance angle] obtain ops last where
    "Tick now distance angle gl = Some (gl\<lparr>game := Some (play ops g), last_point_box_spawn := last,
       serialization_seq_num := serialization_seq_num gl + 1\<rparr>)" by blast
  with At_Tick assms show ?thesis by (simp add: thread_step_def play_inv won_play)
qed (use assms in \<open>auto simp: thread_step_def GameFinished_def won_def Running_def\<close>)

lemma run_thread_decided:
  assumes "game gl = Some g" "game_inv g" "won g" "game_thread gl = Joinable p" "p \<noteq> Ended"
    "steps_to_end p \<le> length envs"
  shows "\<exists>gl'. run_thread envs gl = Some gl' \<and> game_thread gl' = Joinable Ended \<and> \<not> Running gl'"
  using assms
proof (induction envs arbitrary: gl g p)
  case Nil
  then show ?case by (cases p) auto
next
  case (Cons env envs)
  obtain now distance angle where env: "env = (now, distance, angle)" by (cases env) auto
  from thread_step_decided [OF Cons.prems(1-5), of now distance angle] obtain gl' g' p' where
    s: "thread_step now distance angle gl = Some gl'" "game gl' = Some g'" "game_inv g'" "won g'"
      "game_thread gl' = Joinable p'" "steps_to_end p' < steps_to_end p" "p' = Ended \<longrightarrow> \<not> Running gl'"
    by blast
  show ?case
  proof (cases "p' = Ended")
    case True
    with s Cons.prems(4,5) env show ?thesis by (simp add: run_thread_ended)
  next
    case False
    with Cons.IH [OF s(2-5)] s(1,6) Cons.prems(4-6) env show ?thesis by simp
  qed
qed

section \<open>Ticks in a row\<close>

fun run_ticks :: "(int \<times> double \<times> double) list \<Rightarrow> game_logic \<Rightarrow> game_logic option" where
  "run_ticks [] gl = Some gl"
| "run_ticks ((now, distance, angle) # envs) gl =
     (case Tick now distance angle gl of None \<Rightarrow> None | Some gl' \<Rightarrow> run_ticks envs gl')"

lemma run_ticks_spawns:
  assumes "game gl = Some g" "run_ticks envs gl = Some gl'" "0 \<le> point_box_spawn_period gl"
  shows "\<exists>ops. game gl' = Some (play ops g) \<and>
    int (length (filter is_box ops)) * point_box_spawn_period gl \<le>
      last_point_box_spawn gl' - last_point_box_spawn gl \<and>
    serialization_seq_num gl' = serialization_seq_num gl + word_of_nat (length envs)"
  using assms
proof (induction envs arbitrary: gl g)
  case Nil
  then show ?case by (auto intro: exI [of _ "[]"])
next
  case (Cons env envs)
  obtain now distance angle where env: "env = (now, distance, angle)" by (cases env) auto
  let ?spawn = "point_box_spawn_period gl < now - last_point_box_spawn gl"
  let ?tick = "(if ?spawn then [Op_Box distance angle] else []) @ [Op_Move tick_seconds]"
  let ?gl = "gl\<lparr>game := Some (play ?tick g),
    last_point_box_spawn := (if ?spawn then now else last_point_box_spawn gl),
    serialization_seq_num := serialization_seq_num gl + 1\<rparr>"
  have tick: "Tick now distance angle gl = Some ?gl"
    using Tick_eq [OF Cons.prems(1)] by (simp add: Let_def)
  have "game ?gl = Some (play ?tick g)" "run_ticks envs ?gl = Some gl'"
    "0 \<le> point_box_spawn_period ?gl"
    using Cons.prems env tick by simp_all
  from Cons.IH [OF this] obtain ops where
    "game gl' = Some (play ops (play ?tick g))"
    "int (length (filter is_box ops)) * point_box_spawn_period gl \<le>
       last_point_box_spawn gl' - (if ?spawn then now else last_point_box_spawn gl)"
    "serialization_seq_num gl' = serialization_seq_num gl + 1 + word_of_nat (length envs)"
    by auto
  then show ?case
    by (intro exI [of _ "?tick @ ops"]) (auto simp: algebra_simps)
qed

section \<open>Properties\<close>

definition example_logic :: game_logic where
  "example_logic = NewGame origin (Fin 1000) ''WROCLAW'' 7 100 10 (GameLogic 0)"

definition started_logic :: game_logic where
  "started_logic = example_logic\<lparr>start_point := 5, game_started := True, terminate := False,
     game_thread := Joinable At_Tick\<rparr>"

lemma start_example: "StartGame 5 example_logic = Some started_logic"
  by (simp add: StartGame_def example_logic_def started_logic_def NewGame_def GameLogic_def)

definition count :: "db_call list \<Rightarrow> (db_call \<Rightarrow> bool) \<Rightarrow> nat" where
  "count calls P = length (filter P calls)"

lemma statistics_counts:
  "count (statistics_calls trunc date gl g) ((=) Execute) = 1 + length (players (red_team g))"
  "count (statistics_calls trunc date gl g) ((=) Delete_Statement) =
     1 + length (players (red_team g)) + length (players (blue_team g))"
  "count (statistics_calls trunc date gl g) (\<lambda>c. \<exists>text. c = Prepare text) =
     1 + length (players (red_team g)) + length (players (blue_team g))"
proof -
  have "length (filter P (concat (map f ps))) = (\<Sum>p\<leftarrow>ps. length (filter P (f p)))" for P and f :: "player \<Rightarrow> db_call list" and ps
    by (induction ps) simp_all
  then show "count (statistics_calls trunc date gl g) ((=) Execute) = 1 + length (players (red_team g))"
    "count (statistics_calls trunc date gl g) ((=) Delete_Statement) =
     1 + length (players (red_team g)) + length (players (blue_team g))"
    "count (statistics_calls trunc date gl g) (\<lambda>c. \<exists>text. c = Prepare text) =
     1 + length (players (red_team g)) + length (players (blue_team g))"
    by (simp_all add: count_def statistics_calls_def SendPlayersStatisticsToDatabase_def bind_player_def sum_list_triv)
qed

text \<open>A game with no points to win, which the first tick decides.\<close>

definition decided_logic :: game_logic where
  "decided_logic = NewGame origin (Fin 1000) ''WROCLAW'' 7 0 10 (GameLogic 0)"

lemma run_thread_reachable: "reachable gl0 gl1 \<Longrightarrow> run_thread envs gl1 = Some gl2 \<Longrightarrow> reachable gl0 gl2"
proof (induction envs arbitrary: gl1)
  case (Cons env envs)
  obtain now d a where env: "env = (now, d, a)" by (cases env) auto
  show ?case
  proof (cases "thread_step now d a gl1")
    case (Some gl')
    have "reachable gl0 gl'"
      by (rule reachable.later [OF Cons.prems(1)]) (rule logic_step.thread [OF Some])
    with Cons env Some show ?thesis by (auto split: if_splits)
  qed (use Cons.prems env in \<open>auto split: if_splits\<close>)
qed simp

lemma decided_at_statistics: "\<exists>gl. reachable decided_logic gl \<and> game_thread gl = Joinable At_Statistics"
proof -
  let ?start = "decided_logic\<lparr>start_point := 5, game_started := True, terminate := False, game_thread := Joinable At_Tick\<rparr>"
  have "StartGame 5 decided_logic = Some ?start"
    by (simp add: StartGame_def decided_logic_def NewGame_def GameLogic_def)
  then have "reachable decided_logic ?start"
    by (rule reachable.later [OF reachable.initial logic_step.start])
  moreover have "\<exists>gl. run_thread (replicate 4 (6, Fin 0, Fin 0)) ?start = Some gl \<and> game_thread gl = Joinable At_Statistics"
    by (simp add: numeral_eq_Suc thread_step_def decided_logic_def NewGame_def GameLogic_def Tick_def second_def Game_def
        GeneratePointBox_def CalculateMovement_def GameFinished_def BlueTeamWon_def Score_def)
  ultimately show ?thesis using run_thread_reachable by blast
qed



text \<open>
  C32. \<open>StopGame\<close> does not wait for ever: once the flag is set the game thread ends within four of
  its own steps, wherever it stands, and with it the join returns.
\<close>

theorem stop_ends_the_thread:
  assumes "game gl \<noteq> None" "game_thread gl = Joinable p" "4 \<le> length envs"
  shows "\<exists>gl'. run_thread envs (StopGame_request gl) = Some gl' \<and>
    StopGame_join gl' = Some (gl'\<lparr>game_thread := Not_Joinable\<rparr>)"
proof -
  have "steps_left p \<le> length envs" using assms(3) by (cases p) auto
  with run_thread_terminates [of "StopGame_request gl" p envs] assms(1,2)
  obtain gl' where "run_thread envs (StopGame_request gl) = Some gl'"
      "game_thread gl' = Joinable Ended"
    by (auto simp: StopGame_request_def)
  then show ?thesis by (simp add: StopGame_join_def)
qed

theorem stop_ends_the_thread_witness:
  "\<exists>gl'. run_thread (replicate 4 (6, Fin 0, Fin 0)) (StopGame_request started_logic) = Some gl' \<and>
     StopGame_join gl' = Some (gl'\<lparr>game_thread := Not_Joinable\<rparr>)"
  by (rule stop_ends_the_thread [where p = At_Tick])
    (simp_all add: started_logic_def example_logic_def NewGame_def)

text \<open>
  C33. Ticks and boxes: any number of ticks, at whatever times, generates boxes at a rate of at most
  one in a spawn period, adds nothing else to the points in the game, and counts the sequence
  number of the status up by one each.
\<close>

theorem ticks_spawn_at_most_one_box_per_period:
  assumes "game gl = Some g" "run_ticks envs gl = Some gl'" "0 \<le> point_box_spawn_period gl"
  shows "\<exists>g' k. game gl' = Some g' \<and> total g' = total g + 100 * int k \<and>
    int k * point_box_spawn_period gl \<le> last_point_box_spawn gl' - last_point_box_spawn gl \<and>
    serialization_seq_num gl' = serialization_seq_num gl + word_of_nat (length envs)"
  using run_ticks_spawns [OF assms] total_play by blast

lemma example_ticks: "\<exists>gl'. run_ticks [(6, Fin 0, Fin 0), (12000000000, Fin 0, Fin 0)] example_logic = Some gl'"
  by (simp add: example_logic_def NewGame_def Tick_def Let_def)

theorem ticks_spawn_at_most_one_box_per_period_witness:
  "\<exists>gl'. run_ticks [(6, Fin 0, Fin 0), (12000000000, Fin 0, Fin 0)] example_logic = Some gl' \<and>
     serialization_seq_num gl' = 2"
proof -
  obtain gl' where r: "run_ticks [(6, Fin 0, Fin 0), (12000000000, Fin 0, Fin 0)] example_logic = Some gl'"
    using example_ticks by blast
  have "game example_logic = Some (Game 100 origin (Fin 1000))"
    by (simp add: example_logic_def NewGame_def)
  from ticks_spawn_at_most_one_box_per_period [OF this r] show ?thesis
    using r by (auto simp: example_logic_def NewGame_def GameLogic_def second_def)
qed

text \<open>
  Starting again after a game has ended by itself ends the process: \<open>game_started_\<close> is false
  again but the old thread has not been joined, and assigning to a joinable \<open>std::thread\<close> calls
  \<open>std::terminate\<close>. \<open>StopGame\<close> has to come between.
\<close>

theorem restart_without_stop_terminates:
  assumes "reachable (NewGame start radius name n win period (GameLogic now)) gl"
    "game_thread gl = Joinable Ended"
  shows "StartGame later gl = None \<and>
    (\<exists>gl'. StopGame_join gl = Some gl' \<and> StartGame later gl' \<noteq> None)"
  using reachable_inv [OF assms(1) logic_inv_NewGame] assms(2)
  by (auto simp: logic_inv_def active_def StartGame_def StopGame_join_def)

lemma stopped_example: "\<exists>gl. reachable example_logic gl \<and> game_thread gl = Joinable Ended"
proof -
  let ?stop = "StopGame_request started_logic"
  have start: "reachable example_logic ?stop"
    by (rule reachable.later [OF reachable.later [OF reachable.initial]])
      (rule logic_step.start [OF start_example], rule logic_step.stop)
  have "\<exists>gl'. run_thread (replicate 4 (6, Fin 0, Fin 0)) ?stop = Some gl' \<and> game_thread gl' = Joinable Ended"
    by (rule run_thread_terminates [where p = At_Tick])
      (simp_all add: StopGame_request_def started_logic_def example_logic_def NewGame_def)
  with run_thread_reachable [OF start] show ?thesis by blast
qed

theorem restart_without_stop_terminates_witness: "\<exists>gl. StartGame 9 gl = None"
proof -
  from stopped_example obtain gl where "reachable example_logic gl" "game_thread gl = Joinable Ended"
    by blast
  from restart_without_stop_terminates [OF this [unfolded example_logic_def]] show ?thesis by blast
qed

end
