(* ===== verification/Settings.thy ===== *)
theory Settings
  imports Double "HOL-Library.Word"
begin

text \<open>
  sub_process_settings.cpp: the program arguments. \<open>stoi\<close> of the standard library is written out
  for the C locale and an \<open>int\<close> of 32 bits; \<open>stod\<close>, a conversion to floating point, is a parameter.
  Both are None where they throw, which the code reports and otherwise ignores.
\<close>

section \<open>std::stoi\<close>

definition is_space :: "char \<Rightarrow> bool" where
  "is_space c \<longleftrightarrow> c \<in> {CHR '' '', CHR 0x09, CHR 0x0A, CHR 0x0B, CHR 0x0C, CHR 0x0D}"

definition is_digit :: "char \<Rightarrow> bool" where
  "is_digit c \<longleftrightarrow> 48 \<le> (of_char c :: nat) \<and> (of_char c :: nat) \<le> 57"

definition digits_value :: "string \<Rightarrow> int" where
  "digits_value ds = foldl (\<lambda>n c. n * 10 + (of_char c - 48)) 0 ds"

text \<open>White space, a sign, digits; what follows is ignored. No digit and no \<open>int\<close> are exceptions.\<close>

definition stoi :: "string \<Rightarrow> int option" where
  "stoi s =
     (let s = dropWhile is_space s;
          (sign, s) = (case s of
              c # cs \<Rightarrow> if c = CHR ''-'' then (- 1, cs) else if c = CHR ''+'' then (1, cs) else (1, s)
            | [] \<Rightarrow> (1, s));
          ds = takeWhile is_digit s;
          n = sign * digits_value ds
      in if ds = [] then None
         else if n < - (2 ^ 31) \<or> 2 ^ 31 \<le> n then None
         else Some n)"

section \<open>The settings\<close>

record settings =
  udp_port :: u16
  tcp_port :: u16
  start_point_latitude :: double
  start_point_longitude :: double
  settings_radius :: double
  settings_map_name :: string
  settings_game_id :: u32
  settings_points_to_win :: int
  settings_spawn_period :: u16

definition SubProcessSettings :: settings where
  "SubProcessSettings =
     \<lparr>udp_port = 8850, tcp_port = 8860, start_point_latitude = Fin 17.034299,
      start_point_longitude = Fin 51.109385, settings_radius = Fin 1000,
      settings_map_name = ''WROCLAW'', settings_game_id = 0, settings_points_to_win = 1000,
      settings_spawn_period = 10\<rparr>"

text \<open>\<open>x = stoi(...)\<close> in a \<open>try\<close> block: the exception leaves the member.\<close>

definition assign :: "'v option \<Rightarrow> ('v \<Rightarrow> settings \<Rightarrow> settings) \<Rightarrow> settings \<Rightarrow> settings" where
  "assign v update s = (case v of None \<Rightarrow> s | Some x \<Rightarrow> update x s)"

definition load_option :: "(string \<Rightarrow> double option) \<Rightarrow> string \<Rightarrow> string \<Rightarrow> settings \<Rightarrow> settings" where
  "load_option stod arg next s =
     (if arg = ''--udp'' then assign (stoi next) (\<lambda>n s. s\<lparr>udp_port := word_of_int n\<rparr>) s
      else if arg = ''--tcp'' then assign (stoi next) (\<lambda>n s. s\<lparr>tcp_port := word_of_int n\<rparr>) s
      else if arg = ''--lat_start'' then assign (stod next) (\<lambda>x s. s\<lparr>start_point_latitude := x\<rparr>) s
      else if arg = ''--long_start'' then assign (stod next) (\<lambda>x s. s\<lparr>start_point_longitude := x\<rparr>) s
      else if arg = ''--radius'' then assign (stod next) (\<lambda>x s. s\<lparr>settings_radius := x\<rparr>) s
      else if arg = ''--map'' then s\<lparr>settings_map_name := next\<rparr>
      else if arg = ''--id'' then assign (stoi next) (\<lambda>n s. s\<lparr>settings_game_id := word_of_int n\<rparr>) s
      else if arg = ''--win_points'' then assign (stoi next) (\<lambda>n s. s\<lparr>settings_points_to_win := n\<rparr>) s
      else if arg = ''--spawn_period'' then assign (stoi next) (\<lambda>n s. s\<lparr>settings_spawn_period := word_of_int n\<rparr>) s
      else s)"

text \<open>The index goes up by one in each round, over the value of an option as well.\<close>

fun Load_settings :: "(string \<Rightarrow> double option) \<Rightarrow> string list \<Rightarrow> settings \<Rightarrow> settings" where
  "Load_settings stod (arg # next # args) s =
     Load_settings stod (next # args) (load_option stod arg next s)"
| "Load_settings stod _ s = s"

section \<open>Library\<close>

lemma Load_settings_append:
  "Load_settings stod (pre @ a # post) s =
     Load_settings stod (a # post) (Load_settings stod (pre @ [a]) s)"
proof (induction pre arbitrary: s)
  case (Cons b pre)
  then show ?case by (cases pre) simp_all
qed simp

text \<open>A member that only one option sets has the value that the last such option gives it.\<close>

lemma Load_settings_other:
  assumes "\<And>arg next s. arg \<noteq> opt \<Longrightarrow> sel (load_option stod arg next s) = sel s"
    "opt \<notin> set (butlast args)"
  shows "sel (Load_settings stod args s) = sel s"
  using assms(2)
proof (induction args arbitrary: s)
  case (Cons a args)
  then show ?case by (cases args) (auto simp: assms(1))
qed simp

lemma Load_settings_last:
  assumes "\<And>arg next s. arg \<noteq> opt \<Longrightarrow> sel (load_option stod arg next s) = sel s"
    "opt \<notin> set (butlast (v # post))"
  shows "sel (Load_settings stod (pre @ [opt, v] @ post) s) =
    sel (load_option stod opt v (Load_settings stod (pre @ [opt]) s))"
  using Load_settings_other [of opt sel stod, OF assms]
  by (simp add: Load_settings_append [of stod pre opt "v # post"])

lemma stoi_range: "stoi s = Some n \<Longrightarrow> - (2 ^ 31) \<le> n \<and> n < 2 ^ 31"
  by (auto simp: stoi_def Let_def split: prod.splits if_splits)

section \<open>Properties\<close>

text \<open>
  C40. Every member of the settings has the value of the last of its options that is followed by a
  number, for the map by anything, integers being reduced to the width of the member; where
  that value is no number the member keeps what the arguments before have made of it.
\<close>

theorem last_option_wins:
  assumes "opt \<notin> set (butlast (v # post))"
  shows "let before = Load_settings stod (pre @ [opt]) s; after = Load_settings stod (pre @ [opt, v] @ post) s in
    (opt = ''--udp'' \<longrightarrow> udp_port after = (case stoi v of None \<Rightarrow> udp_port before | Some n \<Rightarrow> word_of_int n)) \<and>
    (opt = ''--tcp'' \<longrightarrow> tcp_port after = (case stoi v of None \<Rightarrow> tcp_port before | Some n \<Rightarrow> word_of_int n)) \<and>
    (opt = ''--lat_start'' \<longrightarrow>
      start_point_latitude after = (case stod v of None \<Rightarrow> start_point_latitude before | Some x \<Rightarrow> x)) \<and>
    (opt = ''--long_start'' \<longrightarrow>
      start_point_longitude after = (case stod v of None \<Rightarrow> start_point_longitude before | Some x \<Rightarrow> x)) \<and>
    (opt = ''--radius'' \<longrightarrow> settings_radius after = (case stod v of None \<Rightarrow> settings_radius before | Some x \<Rightarrow> x)) \<and>
    (opt = ''--map'' \<longrightarrow> settings_map_name after = v) \<and>
    (opt = ''--id'' \<longrightarrow>
      settings_game_id after = (case stoi v of None \<Rightarrow> settings_game_id before | Some n \<Rightarrow> word_of_int n)) \<and>
    (opt = ''--win_points'' \<longrightarrow>
      settings_points_to_win after = (case stoi v of None \<Rightarrow> settings_points_to_win before | Some n \<Rightarrow> n)) \<and>
    (opt = ''--spawn_period'' \<longrightarrow>
      settings_spawn_period after = (case stoi v of None \<Rightarrow> settings_spawn_period before | Some n \<Rightarrow> word_of_int n))"
  unfolding Let_def
  using Load_settings_last [of opt udp_port, OF _ assms] Load_settings_last [of opt tcp_port, OF _ assms]
    Load_settings_last [of opt start_point_latitude, OF _ assms] Load_settings_last [of opt start_point_longitude, OF _ assms]
    Load_settings_last [of opt settings_radius, OF _ assms] Load_settings_last [of opt settings_map_name, OF _ assms]
    Load_settings_last [of opt settings_game_id, OF _ assms] Load_settings_last [of opt settings_points_to_win, OF _ assms]
    Load_settings_last [of opt settings_spawn_period, OF _ assms]
  by (intro conjI impI) (simp_all add: load_option_def assign_def split: option.splits)

theorem last_option_wins_witness:
  "udp_port (Load_settings (\<lambda>x. None) [''game'', ''--udp'', ''1'', ''--udp'', ''9000''] SubProcessSettings) = 9000"
  using last_option_wins [of "''--udp''" "''9000''" "[]" "\<lambda>x. None" "[''game'', ''--udp'', ''1'']" SubProcessSettings]
  by (simp add: stoi_def is_space_def is_digit_def digits_value_def)

text \<open>
  The loop steps over the values too: a value that looks like an option is taken for one, and
  a port above 65535 is silently reduced.
\<close>

theorem value_taken_for_option:
  "udp_port (Load_settings stod [''game'', ''--map'', ''--udp'', ''70000''] SubProcessSettings) = 4464 \<and>
   settings_map_name (Load_settings stod [''game'', ''--map'', ''--udp'', ''70000''] SubProcessSettings) = ''--udp''"
  by (simp add: load_option_def assign_def stoi_def is_space_def is_digit_def digits_value_def)

end
