(* ===== verification/Game_Process.thy ===== *)
theory Game_Process
  imports Main_Process_Comm Logic_Runs Settings
begin

text \<open>
  The process that main.cpp puts together: the game thread, the thread of the UDP side, the thread
  of the TCP side and \<open>main\<close>, whose steps interleave. What a thread does under one mutex is one
  step, or, where it works through all clients, a step for each of them between locking and
  unlocking. A step that would be undefined, and one that waits for a mutex, is not possible.
\<close>

section \<open>The state\<close>

text \<open>
  Where the threads stand. The TCP side: before its connection, waiting for data, with players of a
  datagram still to be added, between the two halves of adding one, or at its end.
\<close>

datatype tcp_pc =
    Tcp_Connecting
  | Tcp_Waiting
  | Tcp_Handling "(bool \<times> wire_client) list"
  | Tcp_Playing bool wire_client "(bool \<times> wire_client) list"
  | Tcp_Ended

text \<open>
  The UDP side: waiting for an event, in the receive handler before its lock and, under it, at one
  of the clients, or in the handler of the timer before its lock.
\<close>

datatype 'a udp_pc =
    Udp_Waiting
  | Udp_Locking "'a endpoint" "u8 list" nat
  | Udp_Receiving "'a endpoint" "u8 list" nat nat
  | Udp_Sending
  | Udp_Ended

text \<open>
  \<open>main\<close>: in its loop, after \<open>SendGameFinished\<close>, between the two calls of \<open>Stop\<close> and at its end.
\<close>

datatype main_pc = Waiting_Loop | Sent_Finished | Joined_Main | Returned

record 'a process =
  process_comm :: "'a client_comm"
  process_logic :: game_logic
  samples :: nat
  main_stream :: stream
  main_game_id :: u32
  socket_connected :: bool
  tcp_at :: tcp_pc
  udp_at :: "'a udp_pc"
  main_at :: main_pc
  to_main :: "u8 list list"
  to_clients :: "('a endpoint \<times> u8 list) list"

text \<open>What the environment provides: asio, FlatBuffers and the generator of random positions.\<close>

record 'a environment =
  env_make_address :: "string \<Rightarrow> 'a option"
  env_to_string :: "'a \<Rightarrow> string"
  env_get_input :: "u8 list \<Rightarrow> wire_input option"
  env_get_game :: "u8 list \<Rightarrow> wire_client list list option"
  env_encode :: "wire_game \<Rightarrow> u8 list"
  env_encode_id :: "u32 \<Rightarrow> u8 list"
  env_encode_end :: "bool \<Rightarrow> u8 list"
  env_rnd :: "nat \<Rightarrow> double \<times> double"

section \<open>The start\<close>

definition main_logic :: "settings \<Rightarrow> int \<Rightarrow> game_logic" where
  "main_logic st now =
     NewGame \<lparr>longitude = start_point_longitude st, latitude = start_point_latitude st\<rparr>
       (settings_radius st) (settings_map_name st) (settings_game_id st)
       (word_of_int (settings_points_to_win st)) (settings_spawn_period st) (GameLogic now)"

text \<open>
  The game thread and the threads of both sides run, and nothing has been sent. \<open>d0\<close> stands for
  the objects that a default constructor leaves indeterminate.
\<close>

definition main_start :: "'a environment \<Rightarrow> settings \<Rightarrow> datagram \<Rightarrow> int \<Rightarrow> 'a process option" where
  "main_start env st d0 now =
     map_option (\<lambda>gl.
       \<lparr>process_comm = AssignGameLogic ClientCommunication, process_logic = gl, samples = 0,
        main_stream = new_stream d0, main_game_id = settings_game_id st, socket_connected = False,
        tcp_at = Tcp_Connecting, udp_at = Udp_Waiting, main_at = Waiting_Loop,
        to_main = [], to_clients = []\<rparr>)
       (StartGame now (main_logic st now))"

section \<open>Steps\<close>

text \<open>The players that the handler adds for a datagram, each with whether to the red team.\<close>

definition players_of :: "'a environment \<Rightarrow> datagram \<Rightarrow> (bool \<times> wire_client) list option" where
  "players_of env d =
     (if \<not> PayloadCorrectness d \<or> Version d \<noteq> GAME_CLIENTS_VERSION then Some []
      else case env_get_game env (Payload d) of
          None \<Rightarrow> None
        | Some teams \<Rightarrow>
            Some (if length teams < 2 then []
                  else map (Pair True) (teams ! 0) @ map (Pair False) (teams ! 1)))"

definition after_flush :: "'a environment \<Rightarrow> bool \<Rightarrow> stream \<Rightarrow> tcp_pc option" where
  "after_flush env r s = (if r then map_option Tcp_Handling (players_of env (base s)) else Some Tcp_Waiting)"

text \<open>
  The thread of the TCP side connects, which may fail and end it, sends the game id and receives
  until the connection ends. What \<open>main\<close> writes to a socket that is not connected is lost.
\<close>

inductive process_step :: "'a environment \<Rightarrow> datagram \<Rightarrow> 'a process \<Rightarrow> 'a process \<Rightarrow> bool" for env d0 where
  game_thread: "thread_step now distance angle (process_logic p) = Some gl' \<Longrightarrow>
    process_step env d0 p (p\<lparr>process_logic := gl'\<rparr>)"
| tcp_connect: "tcp_at p = Tcp_Connecting \<Longrightarrow>
    process_step env d0 p (p\<lparr>tcp_at := Tcp_Waiting, socket_connected := True,
      to_main := to_main p @ [TransmitGameId (env_encode_id env) d0 (main_game_id p)]\<rparr>)"
| tcp_ends: "tcp_at p = Tcp_Connecting \<or> tcp_at p = Tcp_Waiting \<Longrightarrow>
    process_step env d0 p (p\<lparr>tcp_at := Tcp_Ended\<rparr>)"
| tcp_data: "tcp_at p = Tcp_Waiting \<Longrightarrow> AddData (main_stream p) data = Some (r, s') \<Longrightarrow>
    after_flush env r s' = Some q \<Longrightarrow>
    process_step env d0 p (p\<lparr>main_stream := s', tcp_at := q\<rparr>)"
| tcp_flush: "tcp_at p = Tcp_Handling [] \<Longrightarrow> FlushData (main_stream p) = Some (r, s') \<Longrightarrow>
    after_flush env r s' = Some q \<Longrightarrow>
    process_step env d0 p (p\<lparr>main_stream := s', tcp_at := q\<rparr>)"
| tcp_client: "tcp_at p = Tcp_Handling ((red, w) # ws) \<Longrightarrow>
    AddClient (env_make_address env) (client_of w) (process_comm p) = Done cc' \<Longrightarrow>
    process_step env d0 p (p\<lparr>process_comm := cc', tcp_at := Tcp_Playing red w ws\<rparr>)"
| tcp_exception: "tcp_at p = Tcp_Handling ((red, w) # ws) \<Longrightarrow>
    AddClient (env_make_address env) (client_of w) (process_comm p) = Threw cc' \<Longrightarrow>
    process_step env d0 p (p\<lparr>process_comm := cc', tcp_at := Tcp_Ended\<rparr>)"
| tcp_player: "tcp_at p = Tcp_Playing red w ws \<Longrightarrow>
    process_step env d0 p (p\<lparr>process_logic := Logic_AddPlayer (fst (env_rnd env (samples p)))
        (snd (env_rnd env (samples p))) (client_of w) red (process_logic p),
      samples := samples p + 1, tcp_at := Tcp_Handling ws\<rparr>)"
| udp_datagram: "udp_at p = Udp_Waiting \<Longrightarrow>
    process_step env d0 p (p\<lparr>udp_at := Udp_Locking remote received len\<rparr>)"
| udp_lock: "udp_at p = Udp_Locking remote received len \<Longrightarrow> \<not> clients_locked (process_comm p) \<Longrightarrow>
    process_step env d0 p (p\<lparr>process_comm := (process_comm p)\<lparr>clients_locked := True\<rparr>,
      udp_at := Udp_Receiving remote received len 0\<rparr>)"
| udp_client: "udp_at p = Udp_Receiving remote received len i \<Longrightarrow> i < length (clients (process_comm p)) \<Longrightarrow>
    receive_for (env_to_string env) (env_get_input env) d0 (logic_assigned (process_comm p))
      remote received len (clients (process_comm p) ! i) (process_logic p) = Some (c', gl') \<Longrightarrow>
    process_step env d0 p (p\<lparr>process_comm := (process_comm p)\<lparr>clients := (clients (process_comm p))[i := c']\<rparr>,
      process_logic := gl', udp_at := Udp_Receiving remote received len (i + 1)\<rparr>)"
| udp_unlock: "udp_at p = Udp_Receiving remote received len (length (clients (process_comm p))) \<Longrightarrow>
    process_step env d0 p (p\<lparr>process_comm := (process_comm p)\<lparr>clients_locked := False\<rparr>,
      udp_at := Udp_Waiting\<rparr>)"
| udp_timer: "udp_at p = Udp_Waiting \<Longrightarrow>
    GetGameStatusIntoTransmitBuffer (env_encode env) d0 (process_logic p) (process_comm p) = Some cc' \<Longrightarrow>
    process_step env d0 p (p\<lparr>process_comm := cc', udp_at := Udp_Sending\<rparr>)"
| udp_send: "udp_at p = Udp_Sending \<Longrightarrow> \<not> clients_locked (process_comm p) \<Longrightarrow>
    process_step env d0 p (p\<lparr>udp_at := Udp_Waiting, to_clients := to_clients p @
      map (\<lambda>c. (remote_endpoint c, transmit_buffer (process_comm p))) (clients (process_comm p))\<rparr>)"
| udp_ends: "udp_at p = Udp_Waiting \<Longrightarrow> main_at p = Joined_Main \<Longrightarrow>
    process_step env d0 p (p\<lparr>udp_at := Udp_Ended\<rparr>)"
| main_finished: "main_at p = Waiting_Loop \<Longrightarrow> \<not> Running (process_logic p) \<Longrightarrow>
    process_step env d0 p (p\<lparr>main_at := Sent_Finished, to_main := to_main p @
      (if socket_connected p then [SendGameFinished (env_encode_end env) d0] else [])\<rparr>)"
| main_joins_tcp: "main_at p = Sent_Finished \<Longrightarrow> tcp_at p = Tcp_Ended \<Longrightarrow>
    process_step env d0 p (p\<lparr>main_at := Joined_Main\<rparr>)"
| main_joins_udp: "main_at p = Joined_Main \<Longrightarrow> udp_at p = Udp_Ended \<Longrightarrow>
    process_step env d0 p (p\<lparr>main_at := Returned\<rparr>)"

inductive process_reachable :: "'a environment \<Rightarrow> datagram \<Rightarrow> 'a process \<Rightarrow> 'a process \<Rightarrow> bool" for env d0 p0 where
  start: "process_reachable env d0 p0 p0"
| step: "process_reachable env d0 p0 p \<Longrightarrow> process_step env d0 p p' \<Longrightarrow> process_reachable env d0 p0 p'"

inductive_cases process_stepE: "process_step env d0 p p'"

lemma process_reachable_trans:
  "process_reachable env d0 p q \<Longrightarrow> process_reachable env d0 p0 p \<Longrightarrow> process_reachable env d0 p0 q"
  by (induction rule: process_reachable.induct) (auto intro: process_reachable.step)

section \<open>What handlers do to the game logic\<close>

text \<open>
  Inputs and new players and nothing else of the state of the game logic. The handlers of both
  communications are of this kind.
\<close>

fun from_network :: "game_op \<Rightarrow> bool" where
  "from_network (Op_Input i) = True"
| "from_network (Op_Player distance angle name n v red) = True"
| "from_network _ = False"

lemma from_network_scores:
  "from_network op \<Longrightarrow> Score (red_team (apply_op op g)) = Score (red_team g) \<and>
     Score (blue_team (apply_op op g)) = Score (blue_team g) \<and>
     point_boxes (apply_op op g) = point_boxes g"
  by (cases op) (auto simp: SetPlayerInput_def AddPlayer_def Let_def)

lemma play_from_network_scores:
  "list_all from_network ops \<Longrightarrow> Score (red_team (play ops g)) = Score (red_team g) \<and>
     Score (blue_team (play ops g)) = Score (blue_team g) \<and> point_boxes (play ops g) = point_boxes g"
  by (induction ops arbitrary: g) (auto simp: from_network_scores)

definition plays :: "game_logic \<Rightarrow> game_logic \<Rightarrow> bool" where
  "plays gl gl' \<longleftrightarrow> (\<exists>ops. gl' = gl\<lparr>game := map_option (play ops) (game gl)\<rparr> \<and>
     list_all from_network ops)"

lemma play_comp: "play [] = id" "play (ops @ ops') = play ops' \<circ> play ops"
  by auto

lemma plays_refl: "plays gl gl"
  unfolding plays_def by (rule exI [of _ "[]"]) (simp add: play_comp option.map_id)

lemma plays_trans: "plays gl gl' \<Longrightarrow> plays gl' gl'' \<Longrightarrow> plays gl gl''"
proof -
  assume "plays gl gl'" "plays gl' gl''"
  then obtain ops ops' where
    "gl' = gl\<lparr>game := map_option (play ops) (game gl)\<rparr>" "list_all from_network ops"
    "gl'' = gl'\<lparr>game := map_option (play ops') (game gl')\<rparr>" "list_all from_network ops'"
    by (auto simp: plays_def)
  then show ?thesis
    unfolding plays_def by (intro exI [of _ "ops @ ops'"]) (auto simp: option.map_comp play_comp)
qed

lemma plays_SetPlayerMovement: "plays gl (SetPlayerMovement i gl)"
  unfolding plays_def
  by (intro exI [of _ "[Op_Input i]"]) (auto simp: SetPlayerMovement_def split: option.splits)

lemma plays_AddPlayer: "plays gl (Logic_AddPlayer distance angle c red gl)"
  unfolding plays_def
  by (intro exI [of _ "[Op_Player distance angle (Name c) (Id c) (Vehicle c) red]"])
    (auto simp: Logic_AddPlayer_def split: option.splits)

lemma plays_inv: "plays gl gl' \<Longrightarrow> logic_inv gl \<Longrightarrow> logic_inv gl'"
proof -
  assume "plays gl gl'" and inv: "logic_inv gl"
  then obtain ops where gl': "gl' = gl\<lparr>game := map_option (play ops) (game gl)\<rparr>"
    by (auto simp: plays_def)
  show ?thesis
    by (rule logic_inv_play [OF inv]) (auto simp: gl' control_def)
qed

section \<open>The invariant\<close>

text \<open>
  In four parts. The mutex of the clients is held by the receive handler, or else the TCP side has
  ended by an exception and left it locked; the clients are not touched meanwhile.
\<close>

definition clients_ok :: "'a client_comm \<Rightarrow> bool" where
  "clients_ok cc \<longleftrightarrow> logic_assigned cc \<and> list_all own_input (clients cc)"

definition lock_ok :: "'a process \<Rightarrow> bool" where
  "lock_ok p \<longleftrightarrow>
     (case udp_at p of
        Udp_Receiving remote received len i \<Rightarrow>
          clients_locked (process_comm p) \<and> i \<le> length (clients (process_comm p))
      | _ \<Rightarrow> clients_locked (process_comm p) \<longrightarrow> tcp_at p = Tcp_Ended)"

text \<open>\<open>g0\<close> is the game as \<open>main\<close> made it.\<close>

definition game_ok :: "game \<Rightarrow> game_logic \<Rightarrow> bool" where
  "game_ok g0 gl \<longleftrightarrow> logic_inv gl \<and> \<not> terminate gl \<and> game_thread gl \<noteq> Not_Joinable \<and>
     (\<exists>ops. game gl = Some (play ops g0) \<and> (game_thread gl = Joinable Ended \<longrightarrow> won (play ops g0)))"

definition process_inv :: "game \<Rightarrow> 'a process \<Rightarrow> bool" where
  "process_inv g0 p \<longleftrightarrow> stream_inv (main_stream p) \<and> clients_ok (process_comm p) \<and> lock_ok p \<and>
     game_ok g0 (process_logic p) \<and>
     (main_at p \<noteq> Waiting_Loop \<longrightarrow> game_thread (process_logic p) = Joinable Ended)"

lemma AddClient_Done:
  "AddClient make_address c cc = Done cc' \<Longrightarrow> \<not> clients_locked cc \<and>
     (\<exists>u. ClientUdp_of_client make_address c = Some u \<and> own_input u \<and>
       cc' = cc\<lparr>clients := clients cc @ [u], clients_locked := False\<rparr>)"
  by (auto simp: AddClient_def Let_def ClientUdp_of_client_def split: if_splits option.splits
      dest: ClientUdp_own_input)

lemma AddClient_Threw:
  "AddClient make_address c cc = Threw cc' \<Longrightarrow> \<not> clients_locked cc \<and>
     ClientUdp_of_client make_address c = None \<and> cc' = cc\<lparr>clients_locked := True\<rparr>"
  by (auto simp: AddClient_def Let_def split: if_splits option.splits)

lemma plays_game_ok:
  assumes "plays gl gl'" "game_ok g0 gl"
  shows "game_ok g0 gl' \<and> game_thread gl' = game_thread gl"
proof -
  from assms(1) obtain more where more: "gl' = gl\<lparr>game := map_option (play more) (game gl)\<rparr>"
    by (auto simp: plays_def)
  from assms(2) obtain ops where
    gl: "logic_inv gl" "\<not> terminate gl" "game gl = Some (play ops g0)" "game_thread gl \<noteq> Not_Joinable"
      "game_thread gl = Joinable Ended \<longrightarrow> won (play ops g0)"
    by (auto simp: game_ok_def)
  have "game_inv (play ops g0)" using gl(1,3) by (simp add: logic_inv_def)
  then have "won (play ops g0) \<Longrightarrow> won (play (ops @ more) g0)"
    using won_play [of "play ops g0" more] by simp
  then have "\<exists>ops. game gl' = Some (play ops g0) \<and> (game_thread gl' = Joinable Ended \<longrightarrow> won (play ops g0))"
    using gl more by (intro exI [of _ "ops @ more"]) auto
  with plays_inv [OF assms(1) gl(1)] gl more show ?thesis by (auto simp: game_ok_def)
qed

lemma thread_step_game_ok:
  assumes step: "thread_step now distance angle gl = Some gl'" and ok: "game_ok g0 gl"
  shows "game_ok g0 gl'"
proof -
  from ok obtain ops where gl: "logic_inv gl" "\<not> terminate gl" "game gl = Some (play ops g0)"
    by (auto simp: game_ok_def)
  obtain p where p: "game_thread gl = Joinable p"
    using step by (auto simp: thread_step_def split: thread.splits)
  have "\<exists>ops'. game gl' = Some (play ops' g0) \<and> \<not> terminate gl' \<and> game_thread gl' \<noteq> Not_Joinable \<and>
    (game_thread gl' = Joinable Ended \<longrightarrow> won (play ops' g0))"
  proof (cases "p = At_Tick")
    case True
    from Tick_Some [OF gl(3)] obtain more last where
      "Tick now distance angle gl = Some (gl\<lparr>game := Some (play more (play ops g0)),
         last_point_box_spawn := last, serialization_seq_num := serialization_seq_num gl + 1\<rparr>)" by blast
    with True p step gl show ?thesis
      by (intro exI [of _ "ops @ more"]) (auto simp: thread_step_def)
  next
    case False
    with p step gl show ?thesis
      by (intro exI [of _ ops])
        (auto simp: thread_step_def logic_inv_def GameFinished_def split: pc.splits if_splits)
  qed
  with thread_step_inv [OF gl(1) step] show ?thesis by (auto simp: game_ok_def)
qed

lemma thread_step_moves:
  "thread_step now distance angle gl = Some gl' \<Longrightarrow> game_thread gl' \<noteq> game_thread gl"
  by (auto simp: thread_step_def split: thread.splits pc.splits if_splits)

lemma receive_for_plays:
  assumes "receive_for to_string get_input d0 assigned remote received len c gl = Some (c', gl')" "own_input c"
  shows "own_input c' \<and> plays gl gl'"
  using assms(1,2)
  by (cases rule: receive_for_cases) (use assms(2) in \<open>auto intro: plays_refl plays_SetPlayerMovement\<close>)

text \<open>The effect of a step on the game logic: a step of the game thread, or inputs and players.\<close>

lemma process_step_logic:
  assumes step: "process_step env d0 p p'" and ok: "clients_ok (process_comm p)"
  obtains (thread) now distance angle where
      "thread_step now distance angle (process_logic p) = Some (process_logic p')" "main_at p' = main_at p"
    | (network) "plays (process_logic p) (process_logic p')"
      "main_at p = Waiting_Loop \<longrightarrow> main_at p' \<noteq> Waiting_Loop \<longrightarrow> \<not> Running (process_logic p)"
      "main_at p \<noteq> Waiting_Loop \<longrightarrow> main_at p' \<noteq> Waiting_Loop"
  using step
proof cases
  case (game_thread now distance angle gl')
  then show ?thesis by (intro thread) auto
next
  case (udp_client remote received len i c' gl')
  then have "own_input (clients (process_comm p) ! i)"
    using ok by (simp add: clients_ok_def list_all_length)
  from receive_for_plays [OF udp_client(4) this] udp_client show ?thesis by (intro network) auto
qed (auto intro!: network plays_refl plays_AddPlayer)

lemma process_step_game_ok:
  assumes step: "process_step env d0 p p'" and inv: "process_inv g0 p"
  shows "game_ok g0 (process_logic p') \<and>
    (main_at p' \<noteq> Waiting_Loop \<longrightarrow> game_thread (process_logic p') = Joinable Ended)"
proof -
  from inv have ok: "clients_ok (process_comm p)" "game_ok g0 (process_logic p)"
      "main_at p \<noteq> Waiting_Loop \<longrightarrow> game_thread (process_logic p) = Joinable Ended"
    by (auto simp: process_inv_def)
  from step ok(1) show ?thesis
  proof (cases rule: process_step_logic)
    case (thread now distance angle)
    then have "game_thread (process_logic p) \<noteq> Joinable Ended" by (auto simp: thread_step_def)
    with thread ok thread_step_game_ok [OF thread(1) ok(2)] show ?thesis by auto
  next
    case network
    have "\<not> Running (process_logic p) \<Longrightarrow> game_thread (process_logic p) = Joinable Ended"
      using ok(2) by (cases "game_thread (process_logic p)")
        (auto simp: game_ok_def logic_inv_def active_def Running_def)
    with plays_game_ok [OF network(1) ok(2)] network(2) ok(3) show ?thesis by auto
  qed
qed

lemma process_step_clients_ok:
  assumes "process_step env d0 p p'" "clients_ok (process_comm p)" "lock_ok p"
  shows "clients_ok (process_comm p') \<and> lock_ok p'"
  using assms(1)
proof cases
  case (tcp_client red w ws cc')
  with assms(2,3) show ?thesis
    by (auto dest!: AddClient_Done simp: clients_ok_def lock_ok_def split: udp_pc.splits)
next
  case (tcp_exception red w ws cc')
  with assms(2,3) show ?thesis
    by (auto dest!: AddClient_Threw simp: clients_ok_def lock_ok_def split: udp_pc.splits)
next
  case (udp_client remote received len i c' gl')
  then have "own_input (clients (process_comm p) ! i)"
    using assms(2) by (simp add: clients_ok_def list_all_length)
  from receive_for_plays [OF udp_client(4) this] udp_client assms(2,3) show ?thesis
    by (auto simp: clients_ok_def lock_ok_def list_all_length nth_list_update)
next
  case (udp_timer cc')
  then have "clients cc' = clients (process_comm p)" "logic_assigned cc' = logic_assigned (process_comm p)"
      "clients_locked cc' = clients_locked (process_comm p)"
    by (auto simp: GetGameStatusIntoTransmitBuffer_def Let_def split: option.splits if_splits)
  with udp_timer assms(2,3) show ?thesis by (auto simp: clients_ok_def lock_ok_def)
qed (use assms(2,3) in \<open>auto simp: clients_ok_def lock_ok_def split: udp_pc.splits\<close>)

lemma process_step_inv:
  assumes step: "process_step env d0 p p'" and inv: "process_inv g0 p"
  shows "process_inv g0 p'"
proof -
  from inv have "stream_inv (main_stream p)" by (simp add: process_inv_def)
  with step have "stream_inv (main_stream p')"
    by cases (auto simp: AddData_push intro: FlushData_inv push_inv)
  with process_step_game_ok [OF step inv] process_step_clients_ok [OF step] inv show ?thesis
    by (simp add: process_inv_def)
qed

lemma process_reachable_inv:
  "process_reachable env d0 p0 p \<Longrightarrow> process_inv g0 p0 \<Longrightarrow> process_inv g0 p"
  by (induction rule: process_reachable.induct) (auto intro: process_step_inv)

lemma main_start_inv:
  assumes "main_start env st d0 now = Some p"
  shows "process_inv (Game (sint (word_of_int (settings_points_to_win st) :: u64))
    \<lparr>longitude = start_point_longitude st, latitude = start_point_latitude st\<rparr> (settings_radius st)) p"
proof -
  let ?g = "Game (sint (word_of_int (settings_points_to_win st) :: u64))
    \<lparr>longitude = start_point_longitude st, latitude = start_point_latitude st\<rparr> (settings_radius st)"
  let ?gl = "(main_logic st now)\<lparr>start_point := now, game_started := True, terminate := False,
      game_thread := Joinable At_Tick\<rparr>"
  have start: "StartGame now (main_logic st now) = Some ?gl"
    by (simp add: StartGame_def main_logic_def NewGame_def GameLogic_def)
  have "logic_inv (main_logic st now)"
    unfolding main_logic_def by (rule logic_inv_NewGame)
  then have "logic_inv ?gl" by (rule logic_step_inv) (rule logic_step.start [OF start])
  moreover have "game ?gl = Some (play [] ?g)" by (simp add: main_logic_def NewGame_def)
  ultimately have "game_ok ?g ?gl" unfolding game_ok_def by (intro conjI exI [of _ "[]"]) auto
  moreover from assms start have "process_comm p = AssignGameLogic ClientCommunication"
      "process_logic p = ?gl" "main_stream p = new_stream d0" "main_at p = Waiting_Loop" "udp_at p = Udp_Waiting"
    unfolding main_start_def by auto
  ultimately show ?thesis
    by (simp add: process_inv_def new_stream_inv lock_ok_def clients_ok_def AssignGameLogic_def
        ClientCommunication_def)
qed

text \<open>Steps of the game thread alone.\<close>

lemma run_thread_process:
  assumes "run_thread envs (process_logic p) = Some gl'"
  shows "process_reachable env d0 p (p\<lparr>process_logic := gl'\<rparr>)"
  using assms
proof (induction envs "process_logic p" arbitrary: p rule: run_thread.induct)
  case 1
  then have same: "p\<lparr>process_logic := gl'\<rparr> = p" by simp
  show ?case unfolding same by (rule process_reachable.start)
next
  case (2 now distance angle envs)
  show ?case
  proof (cases "game_thread (process_logic p) = Joinable Ended")
    case True
    with 2(2) have same: "p\<lparr>process_logic := gl'\<rparr> = p" by simp
    show ?thesis unfolding same by (rule process_reachable.start)
  next
    case False
    with 2(2) obtain gl1 where s: "thread_step now distance angle (process_logic p) = Some gl1"
        "run_thread envs gl1 = Some gl'"
      by (auto split: option.splits)
    have "process_reachable env d0 p (p\<lparr>process_logic := gl1\<rparr>)"
      by (rule process_reachable.step [OF process_reachable.start process_step.game_thread [OF s(1)]])
    moreover have "process_reachable env d0 (p\<lparr>process_logic := gl1\<rparr>) (p\<lparr>process_logic := gl'\<rparr>)"
      using 2(1) [OF False, of "p\<lparr>process_logic := gl1\<rparr>"] s by simp
    ultimately show ?thesis by (rule process_reachable_trans [rotated])
  qed
qed

text \<open>After \<open>SendGameFinished\<close>, with both sides waiting, the calls of \<open>Stop\<close> join their threads.\<close>

lemma idle_process_returns:
  assumes "main_at p = Sent_Finished" "tcp_at p \<in> {Tcp_Connecting, Tcp_Waiting, Tcp_Ended}" "udp_at p = Udp_Waiting"
  shows "\<exists>p'. process_reachable env d0 p p' \<and> main_at p' = Returned"
proof -
  let ?a = "p\<lparr>tcp_at := Tcp_Ended\<rparr>"
  let ?b = "?a\<lparr>main_at := Joined_Main\<rparr>"
  let ?c = "?b\<lparr>udp_at := Udp_Ended\<rparr>"
  have "process_reachable env d0 p ?a"
  proof (cases "tcp_at p = Tcp_Ended")
    case True
    then have same: "?a = p" by simp
    show ?thesis unfolding same by (rule process_reachable.start)
  next
    case False
    with assms(2) show ?thesis
      by (intro process_reachable.step [OF process_reachable.start process_step.tcp_ends]) auto
  qed
  moreover have "process_step env d0 ?a ?b" by (rule process_step.main_joins_tcp) (use assms in auto)
  moreover have "process_step env d0 ?b ?c" by (rule process_step.udp_ends) (use assms in auto)
  moreover have "process_step env d0 ?c (?c\<lparr>main_at := Returned\<rparr>)"
    by (rule process_step.main_joins_udp) auto
  ultimately have "process_reachable env d0 p (?c\<lparr>main_at := Returned\<rparr>)"
    by (rule process_reachable.step [OF process_reachable.step [OF process_reachable.step]])
  then show ?thesis by fastforce
qed

section \<open>An example\<close>

definition example_env :: "nat environment" where
  "example_env = \<lparr>env_make_address = (\<lambda>ip. Some 1), env_to_string = example_to_string,
     env_get_input = example_view, env_get_game = (\<lambda>p. Some [[example_wire 5], []]), env_encode = (\<lambda>s. [1]),
     env_encode_id = (\<lambda>n. [2]), env_encode_end = (\<lambda>b. [3]), env_rnd = (\<lambda>n. (Fin 0, Fin 0))\<rparr>"

text \<open>Settings with which every team has won from the start.\<close>

definition example_settings :: settings where
  "example_settings = SubProcessSettings\<lparr>settings_points_to_win := 0\<rparr>"

lemma example_start:
  obtains p gl g where "main_start env example_settings zero_datagram 0 = Some p" "process_logic p = gl"
    "game gl = Some g" "game_inv g" "won g" "game_thread gl = Joinable At_Tick"
    "process_comm p = AssignGameLogic ClientCommunication" "main_stream p = new_stream zero_datagram"
    "tcp_at p = Tcp_Connecting" "udp_at p = Udp_Waiting" "main_at p = Waiting_Loop" "to_main p = []"
    "socket_connected p = False" "main_game_id p = 0"
proof -
  let ?g = "Game 0 \<lparr>longitude = Fin 51.109385, latitude = Fin 17.034299\<rparr> (Fin 1000)"
  have "won ?g" by (simp add: won_def RedTeamWon_def Game_def Score_def)
  then show ?thesis
    using Game_inv(1) [of 0 "\<lparr>longitude = Fin 51.109385, latitude = Fin 17.034299\<rparr>" "Fin 1000"]
    by (intro that)
      (auto simp: main_start_def StartGame_def main_logic_def NewGame_def GameLogic_def
        example_settings_def SubProcessSettings_def)
qed

end
