(* ===== verification/Process_Runs.thy ===== *)
theory Process_Runs
  imports Game_Process
begin

text \<open>
  How the steps of the interleaved process relate to the handlers taken as a whole: undisturbed,
  the steps of the TCP side from the arrival of data to the next wait do exactly what
  \<open>main_receive_handler\<close> does, and the steps of the UDP side between locking and unlocking do what
  \<open>receive_handler\<close> does, those from the expiry of the timer what \<open>transmit_handler\<close> does. What the
  handlers were shown to do, the process does.
\<close>

section \<open>The TCP side\<close>

definition shared_of :: "'a process \<Rightarrow> 'a shared" where
  "shared_of p = \<lparr>comm = Some (process_comm p), logic = Some (process_logic p), drawn = samples p\<rparr>"

text \<open>The objects that \<open>main\<close> makes known to the TCP side are those of the process.\<close>

lemma start_shared:
  assumes "main_start env st d0 now = Some p"
  shows "shared_of p = Main_AssignGameLogic (process_logic p)
    (AssignClientCommunication (AssignGameLogic ClientCommunication) MainProcessComm)"
  using assms by (auto simp: main_start_def shared_of_def Main_AssignGameLogic_def AssignClientCommunication_def
      MainProcessComm_def)

definition with_shared :: "'a shared \<Rightarrow> 'a process \<Rightarrow> 'a process" where
  "with_shared st p = p\<lparr>process_comm := the (comm st), process_logic := the (logic st), samples := drawn st\<rparr>"

definition handler :: "'a environment \<Rightarrow> datagram \<Rightarrow> 'a shared \<Rightarrow> 'a shared outcome" where
  "handler env = handle_datagram (env_make_address env) (env_rnd env) (env_get_game env)"

definition load_player :: "'a environment \<Rightarrow> bool \<times> wire_client \<Rightarrow> 'a shared \<Rightarrow> 'a shared outcome" where
  "load_player env rw = load_client (env_make_address env) (env_rnd env) (fst rw) (snd rw)"

lemma and_then_assoc: "and_then (and_then x f) g = and_then x (\<lambda>s. and_then (f s) g)"
  by (cases x) auto

lemma in_order_Nil: "in_order f [] = Done"
  by (rule ext) simp

lemma and_then_Done: "and_then x Done = x"
  by (cases x) auto

lemma in_order_single: "in_order f [x] = f x"
  by (rule ext) (simp add: in_order_Nil and_then_Done)

lemma in_order_map: "in_order f (map g xs) = in_order (\<lambda>x. f (g x)) xs"
proof
  show "in_order f (map g xs) s = in_order (\<lambda>x. f (g x)) xs s" for s
  proof (induction xs arbitrary: s)
    case (Cons x xs)
    then show ?case by (cases "f (g x) s") simp_all
  qed simp
qed

lemma handler_players:
  "handler env d st = (case players_of env d of None \<Rightarrow> Undefined_Behaviour
     | Some ws \<Rightarrow> in_order (load_player env) ws st)"
  by (auto simp: handler_def handle_datagram_def LoadClients_def players_of_def load_player_def
      in_order_append in_order_map in_order_single split: option.split)

lemma shared_of_with [simp]: "shared_of (with_shared st p) = \<lparr>comm = Some (the (comm st)),
    logic = Some (the (logic st)), drawn = drawn st\<rparr>"
  by (simp add: shared_of_def with_shared_def)

text \<open>One player: a step for the client and, unless that throws, one for the game.\<close>

lemma load_player_Done:
  assumes "tcp_at p = Tcp_Handling ((red, w) # ws)" "load_player env (red, w) (shared_of p) = Done st"
  shows "process_reachable env d0 p ((with_shared st p)\<lparr>tcp_at := Tcp_Handling ws\<rparr>) \<and>
    comm st \<noteq> None \<and> logic st \<noteq> None"
proof -
  from assms(2) obtain cc' where add: "AddClient (env_make_address env) (client_of w) (process_comm p) = Done cc'"
    and st: "st = \<lparr>comm = Some cc', logic = Some (Logic_AddPlayer (fst (env_rnd env (samples p)))
      (snd (env_rnd env (samples p))) (client_of w) red (process_logic p)), drawn = samples p + 1\<rparr>"
    by (cases "AddClient (env_make_address env) (client_of w) (process_comm p)")
      (auto simp: load_player_def load_client_def shared_of_def Let_def)
  let ?q = "p\<lparr>process_comm := cc', tcp_at := Tcp_Playing red w ws\<rparr>"
  have "process_step env d0 p ?q" by (rule process_step.tcp_client [OF assms(1) add])
  moreover have "process_step env d0 ?q ((with_shared st p)\<lparr>tcp_at := Tcp_Handling ws\<rparr>)"
    using process_step.tcp_player [of ?q red w ws env d0] by (simp add: st with_shared_def)
  ultimately show ?thesis
    by (auto simp: st intro: process_reachable.step [OF process_reachable.step [OF process_reachable.start]])
qed

lemma load_players_Done:
  assumes "tcp_at p = Tcp_Handling ws" "in_order (load_player env) ws (shared_of p) = Done st"
  shows "process_reachable env d0 p ((with_shared st p)\<lparr>tcp_at := Tcp_Handling []\<rparr>) \<and>
    comm st \<noteq> None \<and> logic st \<noteq> None"
  using assms
proof (induction ws arbitrary: p)
  case Nil
  then have "(with_shared st p)\<lparr>tcp_at := Tcp_Handling []\<rparr> = p"
    by (auto simp: with_shared_def shared_of_def)
  with Nil show ?case by (auto simp: shared_of_def intro: process_reachable.start)
next
  case (Cons rw ws)
  obtain red w where rw: "rw = (red, w)" by (rule prod.exhaust)
  from Cons.prems(2) rw obtain st1 where st1: "load_player env (red, w) (shared_of p) = Done st1"
      "in_order (load_player env) ws st1 = Done st"
    by (cases "load_player env (red, w) (shared_of p)") auto
  let ?q = "(with_shared st1 p)\<lparr>tcp_at := Tcp_Handling ws\<rparr>"
  from load_player_Done [OF _ st1(1), of ws d0] Cons.prems(1) rw have
    q: "process_reachable env d0 p ?q" "comm st1 \<noteq> None" "logic st1 \<noteq> None" by auto
  then have "shared_of ?q = st1" by (cases st1) (auto simp: shared_of_def with_shared_def)
  with Cons.IH [of ?q] st1(2) have
    r: "process_reachable env d0 ?q ((with_shared st ?q)\<lparr>tcp_at := Tcp_Handling []\<rparr>)"
      "comm st \<noteq> None" "logic st \<noteq> None" by auto
  moreover have "(with_shared st ?q)\<lparr>tcp_at := Tcp_Handling []\<rparr> =
      (with_shared st p)\<lparr>tcp_at := Tcp_Handling []\<rparr>"
    by (simp add: with_shared_def)
  ultimately show ?case using process_reachable_trans [OF r(1) q(1)] by simp
qed

text \<open>Handling a datagram that has been flushed, and then the loop over the rest.\<close>

lemma handle_flushed:
  assumes "handler env (base s') (shared_of p) = Done st" "tcp_at p \<noteq> Tcp_Ended"
  shows "\<exists>ws. after_flush env True s' = Some (Tcp_Handling ws) \<and>
    process_reachable env d0 (p\<lparr>main_stream := s', tcp_at := Tcp_Handling ws\<rparr>)
      ((with_shared st p)\<lparr>main_stream := s', tcp_at := Tcp_Handling []\<rparr>) \<and>
    comm st \<noteq> None \<and> logic st \<noteq> None"
proof -
  from assms(1) obtain ws where ws: "players_of env (base s') = Some ws"
      "in_order (load_player env) ws (shared_of p) = Done st"
    by (auto simp: handler_players split: option.splits)
  let ?p = "p\<lparr>main_stream := s', tcp_at := Tcp_Handling ws\<rparr>"
  have "shared_of ?p = shared_of p" by (simp add: shared_of_def)
  with load_players_Done [of ?p ws env st d0] ws(2) have
    "process_reachable env d0 ?p ((with_shared st ?p)\<lparr>tcp_at := Tcp_Handling []\<rparr>)"
    "comm st \<noteq> None" "logic st \<noteq> None" by auto
  moreover have "(with_shared st ?p)\<lparr>tcp_at := Tcp_Handling []\<rparr> =
      (with_shared st p)\<lparr>main_stream := s', tcp_at := Tcp_Handling []\<rparr>"
    by (cases p) (simp add: with_shared_def)
  ultimately show ?thesis using ws(1) by (auto simp: after_flush_def)
qed

lemma flush_loop_steps:
  assumes "flush_loop (handler env) s (shared_of p) = Done (s', st)" "main_stream p = s"
    "tcp_at p = Tcp_Handling []"
  shows "process_reachable env d0 p ((with_shared st p)\<lparr>main_stream := s', tcp_at := Tcp_Waiting\<rparr>)"
  using assms
proof (induction "handler env" s "shared_of p" arbitrary: p rule: flush_loop.induct)
  case (1 s)
  note unfold = flush_loop.simps [of "handler env" s "shared_of p"]
  from "1.prems"(1) unfold obtain r t where fl: "FlushData s = Some (r, t)"
    by (cases "FlushData s") auto
  show ?case
  proof (cases r)
    case False
    with "1.prems" unfold fl have st: "st = shared_of p" "s' = t" by auto
    have "process_step env d0 p (p\<lparr>main_stream := t, tcp_at := Tcp_Waiting\<rparr>)"
      by (rule process_step.tcp_flush [OF "1.prems"(3)])
        (use fl "1.prems"(2) False in \<open>auto simp: after_flush_def\<close>)
    moreover have "p\<lparr>main_stream := t, tcp_at := Tcp_Waiting\<rparr> =
        (with_shared st p)\<lparr>main_stream := s', tcp_at := Tcp_Waiting\<rparr>"
      by (cases p) (simp add: st with_shared_def shared_of_def)
    ultimately show ?thesis by (metis process_reachable.start process_reachable.step)
  next
    case True
    with "1.prems"(1) unfold fl obtain st1 where st1: "handler env (base t) (shared_of p) = Done st1"
        "flush_loop (handler env) t st1 = Done (s', st)"
      by (cases "handler env (base t) (shared_of p)") auto
    from handle_flushed [OF st1(1), of d0] "1.prems"(3) obtain ws where
      ws: "after_flush env True t = Some (Tcp_Handling ws)"
        "process_reachable env d0 (p\<lparr>main_stream := t, tcp_at := Tcp_Handling ws\<rparr>)
          ((with_shared st1 p)\<lparr>main_stream := t, tcp_at := Tcp_Handling []\<rparr>)"
        "comm st1 \<noteq> None" "logic st1 \<noteq> None" by auto
    let ?q = "(with_shared st1 p)\<lparr>main_stream := t, tcp_at := Tcp_Handling []\<rparr>"
    have q: "shared_of ?q = st1" using ws(3,4) by (cases st1) (auto simp: shared_of_def with_shared_def)
    have "process_step env d0 p (p\<lparr>main_stream := t, tcp_at := Tcp_Handling ws\<rparr>)"
      by (rule process_step.tcp_flush [OF "1.prems"(3)]) (use fl "1.prems"(2) True ws(1) in auto)
    from process_reachable_trans [OF ws(2) process_reachable.step [OF process_reachable.start this]]
    have "process_reachable env d0 p ?q" .
    moreover have "process_reachable env d0 ?q ((with_shared st ?q)\<lparr>main_stream := s', tcp_at := Tcp_Waiting\<rparr>)"
      using "1.hyps" [OF _ refl refl, of t ?q] q st1 fl True by simp
    moreover have "(with_shared st ?q)\<lparr>main_stream := s', tcp_at := Tcp_Waiting\<rparr> =
        (with_shared st p)\<lparr>main_stream := s', tcp_at := Tcp_Waiting\<rparr>"
      by (cases p) (simp add: with_shared_def)
    ultimately show ?thesis using process_reachable_trans by metis
  qed
qed

lemma data_steps:
  assumes "tcp_at p = Tcp_Waiting"
    "main_receive_handler (handler env) data (main_stream p) (shared_of p) = Done (s', st)"
  shows "process_reachable env d0 p ((with_shared st p)\<lparr>main_stream := s'\<rparr>)"
proof -
  from assms(2) obtain r t where fl: "AddData (main_stream p) data = Some (r, t)"
    by (cases "AddData (main_stream p) data") (auto simp: main_receive_handler_def)
  show ?thesis
  proof (cases r)
    case False
    with assms(2) fl have st: "st = shared_of p" "s' = t" by (auto simp: main_receive_handler_def)
    have "process_step env d0 p (p\<lparr>main_stream := t, tcp_at := Tcp_Waiting\<rparr>)"
      by (rule process_step.tcp_data [OF assms(1) fl]) (simp add: after_flush_def False)
    moreover have "p\<lparr>main_stream := t, tcp_at := Tcp_Waiting\<rparr> = (with_shared st p)\<lparr>main_stream := s'\<rparr>"
      using assms(1) by (cases p) (simp add: st with_shared_def shared_of_def)
    ultimately show ?thesis by (metis process_reachable.start process_reachable.step)
  next
    case True
    with assms(2) fl obtain st1 where st1: "handler env (base t) (shared_of p) = Done st1"
        "flush_loop (handler env) t st1 = Done (s', st)"
      by (cases "handler env (base t) (shared_of p)") (auto simp: main_receive_handler_def)
    from handle_flushed [OF st1(1), of d0] assms(1) obtain ws where
      ws: "after_flush env True t = Some (Tcp_Handling ws)"
        "process_reachable env d0 (p\<lparr>main_stream := t, tcp_at := Tcp_Handling ws\<rparr>)
          ((with_shared st1 p)\<lparr>main_stream := t, tcp_at := Tcp_Handling []\<rparr>)"
        "comm st1 \<noteq> None" "logic st1 \<noteq> None" by auto
    let ?q = "(with_shared st1 p)\<lparr>main_stream := t, tcp_at := Tcp_Handling []\<rparr>"
    have "shared_of ?q = st1" using ws(3,4) by (cases st1) (auto simp: shared_of_def with_shared_def)
    with flush_loop_steps [of env t ?q s' st d0] st1(2) have
      "process_reachable env d0 ?q ((with_shared st ?q)\<lparr>main_stream := s', tcp_at := Tcp_Waiting\<rparr>)" by simp
    moreover have "process_step env d0 p (p\<lparr>main_stream := t, tcp_at := Tcp_Handling ws\<rparr>)"
      by (rule process_step.tcp_data [OF assms(1) fl]) (simp add: True ws(1))
    moreover have "(with_shared st ?q)\<lparr>main_stream := s', tcp_at := Tcp_Waiting\<rparr> =
        (with_shared st p)\<lparr>main_stream := s'\<rparr>"
      using assms(1) by (cases p) (simp add: with_shared_def)
    ultimately show ?thesis
      using process_reachable_trans [OF ws(2)] process_reachable.step [OF process_reachable.start]
        process_reachable_trans by metis
  qed
qed

section \<open>The UDP side\<close>

lemma receive_clients_length: "receive_clients step cs gl = Some (cs', gl') \<Longrightarrow> length cs' = length cs"
  by (induction cs arbitrary: gl cs') (auto split: option.splits)

lemma receive_clients_steps:
  assumes "udp_at p = Udp_Receiving remote received len i" "i \<le> length (clients (process_comm p))"
    "receive_clients (receive_for (env_to_string env) (env_get_input env) d0 (logic_assigned (process_comm p))
       remote received len) (drop i (clients (process_comm p))) (process_logic p) = Some (cs, gl)"
  shows "process_reachable env d0 p (p\<lparr>process_comm := (process_comm p)\<lparr>clients := take i (clients (process_comm p)) @ cs\<rparr>,
    process_logic := gl, udp_at := Udp_Receiving remote received len (length (clients (process_comm p)))\<rparr>)"
  using assms
proof (induction "length (clients (process_comm p)) - i" arbitrary: i p cs)
  case 0
  then have "i = length (clients (process_comm p))" by simp
  with 0 have "p\<lparr>process_comm := (process_comm p)\<lparr>clients := take i (clients (process_comm p)) @ cs\<rparr>,
    process_logic := gl, udp_at := Udp_Receiving remote received len (length (clients (process_comm p)))\<rparr> = p"
    by (cases p; cases "process_comm p") auto
  then show ?case by (simp only: process_reachable.start)
next
  case (Suc n)
  let ?step = "receive_for (env_to_string env) (env_get_input env) d0 (logic_assigned (process_comm p)) remote received len"
  let ?cs = "clients (process_comm p)"
  from Suc.hyps(2) have i: "i < length ?cs" by simp
  then have "drop i ?cs = ?cs ! i # drop (Suc i) ?cs" by (simp add: Cons_nth_drop_Suc)
  with Suc.prems(3) obtain c' gl1 cs1 where
    c: "?step (?cs ! i) (process_logic p) = Some (c', gl1)" "cs = c' # cs1"
      "receive_clients ?step (drop (Suc i) ?cs) gl1 = Some (cs1, gl)"
    by (auto split: option.splits)
  let ?q = "p\<lparr>process_comm := (process_comm p)\<lparr>clients := ?cs[i := c']\<rparr>, process_logic := gl1,
    udp_at := Udp_Receiving remote received len (i + 1)\<rparr>"
  have "process_step env d0 p ?q" by (rule process_step.udp_client [OF Suc.prems(1) i c(1)])
  then have q: "process_reachable env d0 p ?q" by (rule process_reachable.step [OF process_reachable.start])
  have "process_reachable env d0 ?q (?q\<lparr>process_comm := (process_comm ?q)\<lparr>clients := take (i + 1) (clients (process_comm ?q)) @ cs1\<rparr>,
      process_logic := gl, udp_at := Udp_Receiving remote received len (length (clients (process_comm ?q)))\<rparr>)"
    by (rule Suc.hyps(1)) (use Suc.hyps(2) i c(3) in auto)
  moreover have "take (i + 1) (?cs[i := c']) @ cs1 = take i ?cs @ cs"
    using i c(2) by (simp add: take_Suc_conv_app_nth)
  ultimately have "process_reachable env d0 ?q (p\<lparr>process_comm := (process_comm p)\<lparr>clients := take i ?cs @ cs\<rparr>,
      process_logic := gl, udp_at := Udp_Receiving remote received len (length ?cs)\<rparr>)"
    by simp
  then show ?case using q by (rule process_reachable_trans)
qed

lemma receive_steps:
  assumes "udp_at p = Udp_Waiting"
    "receive_handler (env_to_string env) (env_get_input env) d0 remote received len
       (process_comm p) (process_logic p) = Done (cc', gl')"
  shows "process_reachable env d0 p (p\<lparr>process_comm := cc', process_logic := gl'\<rparr>) \<and> \<not> clients_locked cc'"
proof -
  from assms(2) obtain cs where free: "\<not> clients_locked (process_comm p)"
    and cs: "receive_clients (receive_for (env_to_string env) (env_get_input env) d0
        (logic_assigned (process_comm p)) remote received len) (clients (process_comm p)) (process_logic p) = Some (cs, gl')"
    and cc': "cc' = (process_comm p)\<lparr>clients := cs\<rparr>"
    by (auto simp: receive_handler_def split: if_splits option.splits)
  let ?a = "p\<lparr>udp_at := Udp_Locking remote received len\<rparr>"
  let ?b = "?a\<lparr>process_comm := (process_comm p)\<lparr>clients_locked := True\<rparr>, udp_at := Udp_Receiving remote received len 0\<rparr>"
  let ?c = "?b\<lparr>process_comm := (process_comm ?b)\<lparr>clients := cs\<rparr>, process_logic := gl',
      udp_at := Udp_Receiving remote received len (length (clients (process_comm p)))\<rparr>"
  have a: "process_step env d0 p ?a" by (rule process_step.udp_datagram [OF assms(1)])
  have b: "process_step env d0 ?a ?b"
    using process_step.udp_lock [of ?a remote received len env d0] free by simp
  have c: "process_reachable env d0 ?b ?c"
    using receive_clients_steps [of ?b remote received len 0 env d0 cs gl'] cs by simp
  have "length cs = length (clients (process_comm p))"
    using cs by (rule receive_clients_length)
  then have d: "process_step env d0 ?c (?c\<lparr>process_comm := (process_comm ?c)\<lparr>clients_locked := False\<rparr>, udp_at := Udp_Waiting\<rparr>)"
    by (intro process_step.udp_unlock) simp
  have "?c\<lparr>process_comm := (process_comm ?c)\<lparr>clients_locked := False\<rparr>, udp_at := Udp_Waiting\<rparr> =
      p\<lparr>process_comm := cc', process_logic := gl'\<rparr>"
    using assms(1) free by (cases p; cases "process_comm p") (simp add: cc')
  with process_reachable.step [OF process_reachable_trans [OF c process_reachable.step
      [OF process_reachable.step [OF process_reachable.start a] b]] d]
  have "process_reachable env d0 p (p\<lparr>process_comm := cc', process_logic := gl'\<rparr>)" by simp
  then show ?thesis using free cc' by simp
qed

text \<open>The two halves of the handler of the timer.\<close>

lemma transmit_steps:
  assumes "udp_at p = Udp_Waiting"
    "transmit_handler (env_encode env) d0 (process_logic p) (process_comm p) = Done (cc', messages, waits)"
  shows "process_reachable env d0 p (p\<lparr>process_comm := cc', to_clients := to_clients p @ messages\<rparr>)"
proof -
  from assms(2) have status: "GetGameStatusIntoTransmitBuffer (env_encode env) d0 (process_logic p) (process_comm p) = Some cc'"
    and m: "\<not> clients_locked cc'" "messages = map (\<lambda>c. (remote_endpoint c, transmit_buffer cc')) (clients cc')"
    by (auto simp: transmit_handler_def Let_def split: option.splits if_splits)
  let ?a = "p\<lparr>process_comm := cc', udp_at := Udp_Sending\<rparr>"
  have "process_step env d0 p ?a" by (rule process_step.udp_timer [OF assms(1) status])
  moreover have "process_step env d0 ?a (?a\<lparr>udp_at := Udp_Waiting, to_clients := to_clients ?a @
      map (\<lambda>c. (remote_endpoint c, transmit_buffer (process_comm ?a))) (clients (process_comm ?a))\<rparr>)"
    by (rule process_step.udp_send) (use m(1) in auto)
  moreover have "?a\<lparr>udp_at := Udp_Waiting, to_clients := to_clients ?a @
      map (\<lambda>c. (remote_endpoint c, transmit_buffer (process_comm ?a))) (clients (process_comm ?a))\<rparr> =
    p\<lparr>process_comm := cc', to_clients := to_clients p @ messages\<rparr>"
    using assms(1) by (cases p) (simp add: m(2))
  ultimately show ?thesis by (metis process_reachable.start process_reachable.step)
qed

section \<open>A leaked mutex\<close>

text \<open>\<open>main\<close> joins the threads one after the other.\<close>

lemma joins_in_order:
  assumes "main_start env st d0 now = Some p0" "process_reachable env d0 p0 p"
  shows "(main_at p = Joined_Main \<or> main_at p = Returned \<longrightarrow> tcp_at p = Tcp_Ended) \<and>
    (udp_at p = Udp_Ended \<longrightarrow> main_at p = Joined_Main \<or> main_at p = Returned)"
  using assms(2)
proof induction
  case start
  show ?case using assms(1) by (auto simp: main_start_def)
next
  case (step p p')
  from step.hyps(2) step.IH show ?case by (cases rule: process_step.cases) auto
qed

text \<open>\<open>p\<close> is the process as the exception leaves it, with the mutex locked by no handler.\<close>

definition stuck_since :: "'a process \<Rightarrow> 'a process \<Rightarrow> bool" where
  "stuck_since p p' \<longleftrightarrow> clients_locked (process_comm p') \<and> tcp_at p' = Tcp_Ended \<and>
     (\<forall>remote received len i. udp_at p' \<noteq> Udp_Receiving remote received len i) \<and>
     clients (process_comm p') = clients (process_comm p) \<and> to_clients p' = to_clients p \<and>
     (udp_at p \<noteq> Udp_Waiting \<longrightarrow> udp_at p' = udp_at p \<and> main_at p' \<noteq> Returned)"

lemma process_step_stuck:
  assumes "process_step env d0 p' p''" "stuck_since p p'" "udp_at p \<noteq> Udp_Ended"
  shows "stuck_since p p''"
  using assms(1)
proof cases
  case (udp_timer cc')
  then have "clients cc' = clients (process_comm p')" "clients_locked cc' = clients_locked (process_comm p')"
    by (auto simp: GetGameStatusIntoTransmitBuffer_def Let_def split: option.splits if_splits)
  with udp_timer assms(2) show ?thesis by (auto simp: stuck_since_def)
qed (use assms(2,3) in \<open>auto simp: stuck_since_def\<close>)

lemma reachable_stuck:
  "process_reachable env d0 p1 p2 \<Longrightarrow> stuck_since p p1 \<Longrightarrow> udp_at p \<noteq> Udp_Ended \<Longrightarrow> stuck_since p p2"
  by (induction rule: process_reachable.induct) (auto intro: process_step_stuck)

text \<open>A message with one player, after which nothing of the next has arrived but one byte.\<close>

definition example_players :: datagram where
  "example_players = zero_datagram\<lparr>version := 10, payload := [1]\<rparr>"

lemma example_players_arrive: "\<exists>t. AddData (new_stream zero_datagram) (Get example_players @ [7]) = Some (True, t) \<and>
    base t = loaded_from example_players zero_datagram \<and> state t = BEGIN_SEQ \<and> buffer t = [7]"
  using FlushData_frame [of "push (new_stream zero_datagram) (Get example_players @ [7])" "[]" example_players "[7]"]
  by (simp add: AddData_push new_stream_def push_def example_players_def zero_datagram_def)

lemma players_of_example: "players_of (example_env\<lparr>env_make_address := a\<rparr>) (loaded_from example_players zero_datagram) =
    Some [(True, example_wire 5)]"
  by (simp add: players_of_def example_env_def loaded_from_def example_players_def zero_datagram_def
      PayloadCorrectness_def Version_def GAME_CLIENTS_VERSION_def)

lemma example_handled:
  assumes "process_comm p = AssignGameLogic ClientCommunication" "main_stream p = new_stream zero_datagram"
  shows "\<exists>s' st. main_receive_handler (handler example_env) (Get example_players @ [7]) (main_stream p) (shared_of p) =
    Done (s', st) \<and>
    (\<exists>u. clients (the (comm st)) = [u] \<and> Id u = 5 \<and> Ip_v4 u = ''10.0.0.1'' \<and> last_sequence u = 0) \<and>
    logic st = Some (Logic_AddPlayer (Fin 0) (Fin 0) (client_of (example_wire 5)) True (process_logic p))"
proof -
  obtain t where t: "AddData (new_stream zero_datagram) (Get example_players @ [7]) = Some (True, t)"
    "base t = loaded_from example_players zero_datagram" "state t = BEGIN_SEQ" "buffer t = [7]"
    using example_players_arrive by blast
  have "players_of example_env (base t) = Some [(True, example_wire 5)]"
    using players_of_example [of "env_make_address example_env"] t(2) by simp
  then obtain st where "handler example_env (base t) (shared_of p) = Done st"
    "\<exists>u. clients (the (comm st)) = [u] \<and> Id u = 5 \<and> Ip_v4 u = ''10.0.0.1'' \<and> last_sequence u = 0"
    "logic st = Some (Logic_AddPlayer (Fin 0) (Fin 0) (client_of (example_wire 5)) True (process_logic p))"
    using assms(1)
    by (auto simp: handler_players load_player_def load_client_def shared_of_def Let_def AddClient_def
        ClientUdp_of_client_def ClientUdp_eq client_of_def example_env_def AssignGameLogic_def
        ClientCommunication_def example_wire_def Client_def)
  moreover have "FlushData t = Some (False, t\<lparr>buffer := [7]\<rparr>)"
    using FlushData_noise [of t] t(3,4) by (simp add: LOWER_def BEGIN_SEQUENCE_def)
  ultimately show ?thesis
    using t(1) assms(2) by (simp add: main_receive_handler_def flush_loop.simps [of _ t])
qed

section \<open>Properties\<close>

text \<open>
  C28. The interleaved process implements the handlers: where nothing comes between, the steps of the
  TCP side from the arrival of data to its next wait change stream, clients, game and samples exactly
  as \<open>main_receive_handler\<close> does, the steps of the UDP side from a datagram to its next wait change
  clients and game as \<open>receive_handler\<close> does and free the mutex, and those from the expiry of the timer
  send what \<open>transmit_handler\<close> sends.
\<close>

theorem steps_implement_handlers:
  "(tcp_at p = Tcp_Waiting \<and>
      main_receive_handler (handler env) data (main_stream p) (shared_of p) = Done (s', st) \<longrightarrow>
    process_reachable env d0 p ((with_shared st p)\<lparr>main_stream := s'\<rparr>)) \<and>
   (udp_at p = Udp_Waiting \<and>
      receive_handler (env_to_string env) (env_get_input env) d0 remote received len
        (process_comm p) (process_logic p) = Done (cc', gl') \<longrightarrow>
    process_reachable env d0 p (p\<lparr>process_comm := cc', process_logic := gl'\<rparr>) \<and> \<not> clients_locked cc') \<and>
   (udp_at p = Udp_Waiting \<and>
      transmit_handler (env_encode env) d0 (process_logic p) (process_comm p) = Done (cc', messages, waits) \<longrightarrow>
    process_reachable env d0 p (p\<lparr>process_comm := cc', to_clients := to_clients p @ messages\<rparr>))"
  by (intro conjI impI; (elim conjE)?) (rule data_steps receive_steps [THEN conjunct1] receive_steps [THEN conjunct2]
      transmit_steps; assumption)+

theorem steps_implement_handlers_witness:
  "(\<exists>p q. process_reachable example_env zero_datagram p q \<and> clients (process_comm p) = [] \<and>
     map Id (clients (process_comm q)) = [5]) \<and>
   (\<exists>p :: nat process. process_reachable example_env zero_datagram p
     (p\<lparr>process_comm := example_comm, process_logic := example_gl\<rparr>)) \<and>
   (\<exists>p q. process_reachable example_env zero_datagram p q \<and> to_clients p = [] \<and> map fst (to_clients q) = [\<lparr>address = 1, port = 9000\<rparr>])"
proof (intro conjI)
  obtain p0 where p0: "main_start example_env example_settings zero_datagram 0 = Some p0"
    "process_comm p0 = AssignGameLogic ClientCommunication" "main_stream p0 = new_stream zero_datagram"
    "udp_at p0 = Udp_Waiting"
    by (rule example_start)
  let ?p = "p0\<lparr>tcp_at := Tcp_Waiting\<rparr>"
  from example_handled [of ?p] p0(2,3) obtain s' st where
    h: "main_receive_handler (handler example_env) (Get example_players @ [7]) (main_stream ?p) (shared_of ?p) = Done (s', st)"
      "map Id (clients (the (comm st))) = [5]" by fastforce
  have "process_reachable example_env zero_datagram ?p ((with_shared st ?p)\<lparr>main_stream := s'\<rparr>)"
    by (rule steps_implement_handlers [THEN conjunct1, rule_format]) (use h(1) in simp)
  with h(2) p0(2) show "\<exists>p q. process_reachable example_env zero_datagram p q \<and> clients (process_comm p) = [] \<and>
     map Id (clients (process_comm q)) = [5]"
    by (intro exI [of _ ?p] exI [of _ "(with_shared st ?p)\<lparr>main_stream := s'\<rparr>"])
      (simp add: with_shared_def AssignGameLogic_def ClientCommunication_def)
  let ?q = "p0\<lparr>process_comm := example_comm, process_logic := example_gl\<rparr>"
  let ?remote = "\<lparr>address = 2, port = 4000\<rparr> :: nat endpoint"
  have "receive_handler (env_to_string example_env) (env_get_input example_env) zero_datagram ?remote [] 0
      (process_comm ?q) (process_logic ?q) = Done (example_comm, example_gl)"
    by (simp add: receive_handler_def example_comm_def example_env_def example_client_def
        receive_for_def DecodeDatagram_def Load_def)
  then have "process_reachable example_env zero_datagram ?q (?q\<lparr>process_comm := example_comm, process_logic := example_gl\<rparr>)"
    using p0(4) by (intro steps_implement_handlers [THEN conjunct2, THEN conjunct1, rule_format, THEN conjunct1]) simp
  then show "\<exists>p :: nat process. process_reachable example_env zero_datagram p
     (p\<lparr>process_comm := example_comm, process_logic := example_gl\<rparr>)" by blast
  let ?r = "?q\<lparr>to_clients := []\<rparr>"
  obtain cc' bytes where t: "transmit_handler (env_encode example_env) zero_datagram (process_logic ?r) (process_comm ?r) =
      Done (cc', [(\<lparr>address = 1, port = 9000\<rparr>, bytes)], 1)"
    by (auto simp: transmit_handler_def GetGameStatusIntoTransmitBuffer_def GetGameStatus_def Let_def example_comm_def
        example_client_def example_gl_def NewGame_def)
  have "process_reachable example_env zero_datagram ?r
      (?r\<lparr>process_comm := cc', to_clients := to_clients ?r @ [(\<lparr>address = 1, port = 9000\<rparr>, bytes)]\<rparr>)"
    by (rule steps_implement_handlers [THEN conjunct2, THEN conjunct2, rule_format]) (use t p0(4) in simp)
  then show "\<exists>p q. process_reachable example_env zero_datagram p q \<and> to_clients p = [] \<and>
      map fst (to_clients q) = [\<lparr>address = 1, port = 9000\<rparr>]"
    by (intro exI [of _ ?r] exI) (rule conjI, assumption, simp)
qed

text \<open>
  C37. A client with an address that asio does not parse stops the whole communication: the exception
  ends the TCP side and leaves the mutex of the clients locked, and from then on no client is
  added or changed by an input and nothing is sent to any of them. If the UDP side was handling
  something at that moment, \<open>main\<close> never returns, because \<open>Stop\<close> waits for it.
\<close>

theorem bad_address_disables_the_process:
  assumes "main_start env st d0 now = Some p0" "process_reachable env d0 p0 p"
    "tcp_at p = Tcp_Handling ((red, w) # ws)"
    "AddClient (env_make_address env) (client_of w) (process_comm p) = Threw cc'"
    "process_reachable env d0 (p\<lparr>process_comm := cc', tcp_at := Tcp_Ended\<rparr>) p'"
  shows "clients (process_comm p') = clients (process_comm p) \<and> to_clients p' = to_clients p \<and>
    clients_locked (process_comm p') \<and> tcp_at p' = Tcp_Ended \<and>
    (udp_at p \<noteq> Udp_Waiting \<longrightarrow> main_at p' \<noteq> Returned)"
proof -
  let ?p = "p\<lparr>process_comm := cc', tcp_at := Tcp_Ended\<rparr>"
  from AddClient_Threw [OF assms(4)] have
    cc': "\<not> clients_locked (process_comm p)" "cc' = (process_comm p)\<lparr>clients_locked := True\<rparr>" by auto
  have "lock_ok p"
    using process_reachable_inv [OF assms(2) main_start_inv [OF assms(1)]] by (simp add: process_inv_def)
  with cc' joins_in_order [OF assms(1,2)] assms(3) have "stuck_since ?p ?p" "udp_at ?p \<noteq> Udp_Ended"
    by (auto simp: stuck_since_def lock_ok_def)
  with reachable_stuck [OF assms(5)] cc'(2) show ?thesis by (auto simp: stuck_since_def)
qed

theorem bad_address_disables_the_process_witness:
  "\<exists>p :: nat process. clients_locked (process_comm p) \<and> tcp_at p = Tcp_Ended \<and> main_at p \<noteq> Returned"
proof -
  let ?env = "example_env\<lparr>env_make_address := (\<lambda>ip. None)\<rparr>"
  obtain p0 where p0: "main_start ?env example_settings zero_datagram 0 = Some p0"
    "process_comm p0 = AssignGameLogic ClientCommunication" "main_stream p0 = new_stream zero_datagram"
    "tcp_at p0 = Tcp_Connecting" "udp_at p0 = Udp_Waiting"
    by (rule example_start)
  obtain t where t: "AddData (new_stream zero_datagram) (Get example_players @ [7]) = Some (True, t)"
    "base t = loaded_from example_players zero_datagram"
    using example_players_arrive by blast
  let ?a = "p0\<lparr>tcp_at := Tcp_Waiting, socket_connected := True,
      to_main := to_main p0 @ [TransmitGameId (env_encode_id ?env) zero_datagram (main_game_id p0)]\<rparr>"
  let ?b = "?a\<lparr>main_stream := t, tcp_at := Tcp_Handling [(True, example_wire 5)]\<rparr>"
  let ?c = "?b\<lparr>udp_at := Udp_Locking \<lparr>address = 1, port = 1\<rparr> [] 0\<rparr>"
  let ?cc = "(AssignGameLogic ClientCommunication)\<lparr>clients_locked := True\<rparr> :: nat client_comm"
  have "process_step ?env zero_datagram p0 ?a" by (rule process_step.tcp_connect [OF p0(4)])
  moreover have "process_step ?env zero_datagram ?a ?b"
    by (rule process_step.tcp_data [where r = True])
      (use p0(3) t players_of_example [of "\<lambda>ip. None"] in \<open>auto simp: after_flush_def\<close>)
  moreover have "process_step ?env zero_datagram ?b ?c" by (rule process_step.udp_datagram) (simp add: p0(5))
  ultimately have c: "process_reachable ?env zero_datagram p0 ?c"
    by (rule process_reachable.step [OF process_reachable.step [OF process_reachable.step [OF process_reachable.start]]])
  have threw: "AddClient (env_make_address ?env) (client_of (example_wire 5)) (process_comm ?c) = Threw ?cc"
    using p0(2) by (simp add: AddClient_def ClientUdp_of_client_def ClientUdp_eq client_of_def
        AssignGameLogic_def ClientCommunication_def)
  have "tcp_at ?c = Tcp_Handling ((True, example_wire 5) # [])" by simp
  from bad_address_disables_the_process [OF p0(1) c this threw process_reachable.start]
  show ?thesis by (intro exI [of _ "?c\<lparr>process_comm := ?cc, tcp_at := Tcp_Ended\<rparr>"]) simp
qed

end
