(* ===== verification/Client_View.thy ===== *)
theory Client_View
  imports Message_Flow Process_Runs
begin

text \<open>
  What the clients see of a running process. All that the process ever sends them is a history of
  states of its game, each sent to all clients of that moment, and the history grows with the game: an
  abstract view of the process that every one of its steps refines.
\<close>

section \<open>The history\<close>

text \<open>The datagram of \<open>GetGameStatusIntoTransmitBuffer\<close>.\<close>

definition status_bytes :: "(wire_game \<Rightarrow> u8 list) \<Rightarrow> datagram \<Rightarrow> nat \<Rightarrow> game \<Rightarrow> u8 list" where
  "status_bytes encode d0 n g =
     (let p = encode (GenerateFlatbuffers g (word_of_nat n))
      in Get (SetPayloadChecksum True (SetPayload p (length p) (SetVersion 100 d0))))"

text \<open>An entry: the endpoints it went to, the number of ticks before it and the game.\<close>

type_synonym 'a entry = "'a endpoint list \<times> nat \<times> game"

definition sent_for :: "(wire_game \<Rightarrow> u8 list) \<Rightarrow> datagram \<Rightarrow> 'a entry \<Rightarrow> ('a endpoint \<times> u8 list) list" where
  "sent_for encode d0 = (\<lambda>(es, n, g). map (\<lambda>e. (e, status_bytes encode d0 n g)) es)"

text \<open>
  How a later entry relates to an earlier one: no client is left out, neither ticks nor scores go
  back, a decided game stays decided, and between two ticks scores and boxes are the same.
\<close>

fun grows :: "'a entry \<Rightarrow> 'a entry \<Rightarrow> bool" where
  "grows (es, m, h) (fs, n, g) \<longleftrightarrow> length es \<le> length fs \<and> m \<le> n \<and>
     Score (red_team h) \<le> Score (red_team g) \<and> Score (blue_team h) \<le> Score (blue_team g) \<and>
     points_to_win g = points_to_win h \<and>
     (m = n \<longrightarrow> Score (red_team g) = Score (red_team h) \<and> Score (blue_team g) = Score (blue_team h) \<and>
        point_boxes g = point_boxes h)"

lemma grows_refl: "grows a a"
  by (cases a rule: prod_cases3) simp

lemma grows_trans: "grows a b \<Longrightarrow> grows b c \<Longrightarrow> grows a c"
  by (cases a rule: prod_cases3; cases b rule: prod_cases3; cases c rule: prod_cases3) auto

lemma grows_won: "grows (es, m, h) (fs, n, g) \<Longrightarrow> won h \<Longrightarrow> won g"
  by (auto simp: won_def RedTeamWon_def BlueTeamWon_def)

text \<open>What the history is compared with: the entry that would be sent now.\<close>

definition current :: "'a process \<Rightarrow> nat \<Rightarrow> game \<Rightarrow> 'a entry" where
  "current p n g = (map remote_endpoint (clients (process_comm p)), n, g)"

definition ticked :: "game_logic \<Rightarrow> nat \<Rightarrow> game \<Rightarrow> bool" where
  "ticked gl n g \<longleftrightarrow> game gl = Some g \<and> serialization_seq_num gl = word_of_nat n \<and> game_inv g"

section \<open>Steps\<close>

text \<open>The game goes on.\<close>

lemma thread_step_grows:
  assumes "thread_step now distance angle gl = Some gl'" "ticked gl n g"
  shows "\<exists>n' g'. ticked gl' n' g' \<and> grows (es, n, g) (es, n', g')"
proof (cases "game_thread gl = Joinable At_Tick")
  case True
  from assms(2) have g: "game gl = Some g" "game_inv g" by (auto simp: ticked_def)
  from Tick_Some [OF g(1), of now distance angle] obtain ops last where
    tick: "Tick now distance angle gl = Some (gl\<lparr>game := Some (play ops g), last_point_box_spawn := last,
      serialization_seq_num := serialization_seq_num gl + 1\<rparr>)" by blast
  with True assms have "ticked gl' (Suc n) (play ops g)"
    by (auto simp: thread_step_def ticked_def play_inv add.commute)
  moreover have "grows (es, n, g) (es, Suc n, play ops g)"
    using scores_play [OF g(2), of ops] by simp
  ultimately show ?thesis by blast
next
  case False
  with assms have "ticked gl' n g"
    by (auto simp: thread_step_def ticked_def split: thread.splits pc.splits)
  then show ?thesis using grows_refl by blast
qed

lemma plays_grows:
  assumes "plays gl gl'" "ticked gl n g"
  shows "\<exists>g'. ticked gl' n g' \<and> grows (es, n, g) (es, n, g')"
proof -
  from assms obtain ops where ops: "gl' = gl\<lparr>game := Some (play ops g)\<rparr>" "list_all from_network ops"
    and g: "game_inv g"
    by (auto simp: plays_def ticked_def)
  then have "ticked gl' n (play ops g)" using assms(2) by (simp add: ticked_def play_inv)
  with play_from_network_scores [OF ops(2), of g] scores_play [OF g, of ops] show ?thesis
    by (intro exI [of _ "play ops g"]) auto
qed

lemma process_step_grows:
  assumes step: "process_step env d0 p p'" and ok: "clients_ok (process_comm p)"
    and t: "ticked (process_logic p) n g"
  shows "\<exists>n' g'. ticked (process_logic p') n' g' \<and> grows (es, n, g) (es, n', g')"
  using step ok
proof (cases rule: process_step_logic)
  case (thread now distance angle)
  then show ?thesis using thread_step_grows [OF thread(1) t] by blast
next
  case network
  then show ?thesis using plays_grows [OF network(1) t] by blast
qed

lemma process_step_clients:
  assumes "process_step env d0 p p'"
  shows "length (clients (process_comm p)) \<le> length (clients (process_comm p'))"
  using assms
proof cases
  case (udp_timer cc')
  then show ?thesis
    by (auto simp: GetGameStatusIntoTransmitBuffer_def Let_def split: option.splits if_splits)
qed (auto dest: AddClient_Done AddClient_Threw)

lemma current_grows:
  assumes "process_step env d0 p p'" "clients_ok (process_comm p)" "ticked (process_logic p) n g"
  obtains n' g' where "ticked (process_logic p') n' g'" "grows (current p n g) (current p' n' g')"
    "process_logic p' = process_logic p \<Longrightarrow> clients (process_comm p') = clients (process_comm p) \<Longrightarrow> (n', g') = (n, g)"
proof (cases "process_logic p' = process_logic p")
  case True
  with assms(3) process_step_clients [OF assms(1)] show ?thesis
    by (intro that [of n g]) (auto simp: current_def)
next
  case False
  from process_step_grows [OF assms, of "[]"] obtain n' g' where
    "ticked (process_logic p') n' g'" "grows ([], n, g) ([], n', g')" by blast
  with False process_step_clients [OF assms(1)] show ?thesis
    by (intro that [of n' g']) (auto simp: current_def)
qed

text \<open>
  The invariant: what was sent is a growing history that the current state continues, and what lies in
  the buffer between the two halves of the timer's handler is the next entry of it.
\<close>

definition logged :: "'a environment \<Rightarrow> datagram \<Rightarrow> 'a process \<Rightarrow> 'a entry list \<Rightarrow> nat \<Rightarrow> game \<Rightarrow> bool" where
  "logged env d0 p history n g \<longleftrightarrow> ticked (process_logic p) n g \<and>
     to_clients p = concat (map (sent_for (env_encode env) d0) history) \<and>
     sorted_wrt grows (history @ [current p n g]) \<and>
     (udp_at p = Udp_Sending \<longrightarrow> (\<exists>m h. transmit_buffer (process_comm p) = status_bytes (env_encode env) d0 m h \<and>
        (\<forall>a \<in> set history. grows a (current p m h)) \<and> grows (current p m h) (current p n g)))"

lemma logged_continues:
  assumes "logged env d0 p history n g" "ticked (process_logic p') n' g'" "grows (current p n g) (current p' n' g')"
    "to_clients p' = to_clients p"
    "udp_at p' = Udp_Sending \<Longrightarrow> udp_at p = Udp_Sending \<and>
       transmit_buffer (process_comm p') = transmit_buffer (process_comm p)"
    "length (clients (process_comm p)) \<le> length (clients (process_comm p'))"
  shows "logged env d0 p' history n' g'"
proof -
  have later: "grows a (current p' n' g')" if "grows a (current p n g)" for a
    using grows_trans [OF that assms(3)] .
  have wider: "grows (current p m h) (current p' n' g') \<Longrightarrow> grows (current p' m h) (current p' n' g')"
    "grows a (current p m h) \<Longrightarrow> grows a (current p' m h)" for a m h
    using assms(6) by (cases a rule: prod_cases3; auto simp: current_def)+
  from assms(1) have l: "to_clients p = concat (map (sent_for (env_encode env) d0) history)"
      "sorted_wrt grows history" "\<forall>a \<in> set history. grows a (current p n g)"
    by (auto simp: logged_def sorted_wrt_append)
  have "\<exists>m h. transmit_buffer (process_comm p') = status_bytes (env_encode env) d0 m h \<and>
      (\<forall>a \<in> set history. grows a (current p' m h)) \<and> grows (current p' m h) (current p' n' g')"
    if "udp_at p' = Udp_Sending"
  proof -
    from assms(1) assms(5) [OF that] obtain m h where
      "transmit_buffer (process_comm p') = status_bytes (env_encode env) d0 m h"
      "\<forall>a \<in> set history. grows a (current p m h)" "grows (current p m h) (current p n g)"
      by (auto simp: logged_def)
    then show ?thesis using later wider by blast
  qed
  with l assms(2,4) later show ?thesis by (simp add: logged_def sorted_wrt_append)
qed

lemma logged_step:
  assumes step: "process_step env d0 p p'" and ok: "clients_ok (process_comm p)"
    and l: "logged env d0 p history n g"
  shows "\<exists>history' n' g'. logged env d0 p' history' n' g'"
proof -
  from l have t: "ticked (process_logic p) n g" by (simp add: logged_def)
  note wider = process_step_clients [OF step]
  have others: ?thesis if same: "to_clients p' = to_clients p"
    and buf: "udp_at p' = Udp_Sending \<Longrightarrow> udp_at p = Udp_Sending \<and>
      transmit_buffer (process_comm p') = transmit_buffer (process_comm p)"
  proof (rule current_grows [OF step ok t])
    fix n' g'
    assume "ticked (process_logic p') n' g'" "grows (current p n g) (current p' n' g')"
    from logged_continues [OF l this same buf wider] show ?thesis by blast
  qed
  from step show ?thesis
  proof cases
    case (udp_timer cc')
    have assigned: "logic_assigned (process_comm p)" using ok by (simp add: clients_ok_def)
    from t have "GetGameStatus (process_logic p) = Some (GenerateFlatbuffers g (word_of_nat n))"
      by (simp add: GetGameStatus_def ticked_def)
    with udp_timer(3) assigned have
      cc': "cc' = (process_comm p)\<lparr>transmit_buffer := status_bytes (env_encode env) d0 n g\<rparr>"
      by (simp add: GetGameStatusIntoTransmitBuffer_def status_bytes_def Let_def)
    have "logged env d0 p' history n g"
      using l grows_refl unfolding logged_def sorted_wrt_append udp_timer(1) cc'
      by (auto simp: current_def intro!: exI [of _ n] exI [of _ g])
    then show ?thesis by blast
  next
    case udp_send
    from l udp_send(2) obtain m h where
      b: "transmit_buffer (process_comm p) = status_bytes (env_encode env) d0 m h"
        "\<forall>a \<in> set history. grows a (current p m h)" "grows (current p m h) (current p n g)"
      by (auto simp: logged_def)
    have "logged env d0 p' (history @ [current p m h]) n g"
      using l b unfolding logged_def sorted_wrt_append udp_send(1)
      by (auto simp: current_def sent_for_def comp_def)
    then show ?thesis by blast
  next
    case (tcp_client red w ws cc')
    then show ?thesis by (intro others) (auto dest!: AddClient_Done)
  next
    case (tcp_exception red w ws cc')
    then show ?thesis by (intro others) (auto dest!: AddClient_Threw)
  qed (intro others; auto)+
qed

lemma process_logged:
  assumes "process_reachable env d0 p0 p" "process_inv g0 p0" "logged env d0 p0 [] n g"
  shows "\<exists>history n g. logged env d0 p history n g"
  using assms(1)
proof induction
  case (step p p')
  have "clients_ok (process_comm p)"
    using process_reachable_inv [OF step.hyps(1) assms(2)] by (simp add: process_inv_def)
  with step.IH logged_step [OF step.hyps(2)] show ?case by blast
qed (use assms(3) in blast)

lemma start_logged:
  assumes "main_start env st d0 now = Some p0"
  shows "\<exists>g. logged env d0 p0 [] 0 g"
proof -
  let ?g = "Game (sint (word_of_int (settings_points_to_win st) :: u64))
    \<lparr>longitude = start_point_longitude st, latitude = start_point_latitude st\<rparr> (settings_radius st)"
  have "logged env d0 p0 [] 0 ?g"
    using assms by (auto simp: main_start_def logged_def ticked_def current_def StartGame_def main_logic_def
        NewGame_def GameLogic_def Game_inv Let_def)
  then show ?thesis by blast
qed

lemma status_bytes_load:
  assumes "length (encode (GenerateFlatbuffers g (word_of_nat n))) < 2 ^ 32"
  shows "\<exists>d. Load (status_bytes encode d0 n g) (length (status_bytes encode d0 n g)) d1 = (Loaded, d) \<and>
    Version d = 100 \<and> PayloadCorrectness d \<and> Payload d = encode (GenerateFlatbuffers g (word_of_nat n))"
proof -
  let ?p = "encode (GenerateFlatbuffers g (word_of_nat n))"
  let ?d = "SetPayloadChecksum True (SetPayload ?p (length ?p) (SetVersion 100 d0))"
  have d: "payload ?d = ?p" "version ?d = 100" "payload_checksum_included ?d"
    using assms by (simp_all add: SetPayloadChecksum_def SetPayload_def SetVersion_def)
  have "Load (Get ?d) (length (Get ?d)) d1 = (Loaded, loaded_from ?d d1)"
    using Load_Get [of ?d _ "[]" d1] d(1) assms by simp
  with d assms show ?thesis
    by (auto simp: status_bytes_def Let_def loaded_from_def Version_def PayloadCorrectness_def Payload_def unat_of_nat)
qed

section \<open>Properties\<close>

text \<open>
  C6. What the clients see of a game is one game that only grows, in every run of the process and
  whatever its threads do in between. All that is ever sent to them is a history of its states, each
  sent to every client of that moment: from one to the next and up to the present state, the
  sequence number and both scores do not fall, a decided game stays decided, no client is left out,
  and the scores and boxes change with the sequence number only. A client that loads such a datagram
  reads with the generated accessors the status that the history says.
\<close>

theorem clients_see_a_growing_game:
  assumes "documented L X" "env_encode env = encode_status L"
    "main_start env st d0 now = Some p0" "process_reachable env d0 p0 p"
  shows "\<exists>history n g. game (process_logic p) = Some g \<and> serialization_seq_num (process_logic p) = word_of_nat n \<and>
    to_clients p = concat (map (\<lambda>(es, n, g). map (\<lambda>e. (e, status_bytes (encode_status L) d0 n g)) es) history) \<and>
    sorted_wrt grows (history @ [(map remote_endpoint (clients (process_comm p)), n, g)]) \<and>
    (\<forall>(es, n, g) \<in> set history. let w = GenerateFlatbuffers g (word_of_nat n); bytes = status_bytes (encode_status L) d0 n g
      in representable_status (representable X) w \<longrightarrow> length (encode_status L w) < 2 ^ 32 \<longrightarrow>
        (\<exists>d. Load bytes (length bytes) d1 = (Loaded, d) \<and> Version d = 100 \<and> PayloadCorrectness d \<and>
          view_status L (Payload d) = Some w))"
proof -
  from start_logged [OF assms(3)] obtain g0 where "logged env d0 p0 [] 0 g0" by blast
  from process_logged [OF assms(4) main_start_inv [OF assms(3)] this] obtain history n g where
    "logged env d0 p history n g" by blast
  then have l: "game (process_logic p) = Some g" "serialization_seq_num (process_logic p) = word_of_nat n"
      "to_clients p = concat (map (sent_for (encode_status L) d0) history)"
      "sorted_wrt grows (history @ [current p n g])"
    by (auto simp: logged_def ticked_def assms(2))
  have "\<exists>d. Load (status_bytes (encode_status L) d0 n g) (length (status_bytes (encode_status L) d0 n g)) d1 = (Loaded, d) \<and>
      Version d = 100 \<and> PayloadCorrectness d \<and> view_status L (Payload d) = Some (GenerateFlatbuffers g (word_of_nat n))"
    if "representable_status (representable X) (GenerateFlatbuffers g (word_of_nat n))"
      "length (encode_status L (GenerateFlatbuffers g (word_of_nat n))) < 2 ^ 32" for n g
  proof (rule status_written [OF assms(1) that(1)])
    fix h x
    assume "message L X (encode_status L (GenerateFlatbuffers g (word_of_nat n))) h x"
      "status_object (GenerateFlatbuffers g (word_of_nat n)) h x"
    from view_status_object [OF this] status_bytes_load [where encode = "encode_status L", OF that(2), of d0 d1]
    show ?thesis by force
  qed
  with l show ?thesis
    unfolding sent_for_def current_def by (intro exI [of _ history] exI [of _ n] exI [of _ g]) (simp add: Let_def split_beta)
qed

text \<open>A run in which a player joins and is sent the status.\<close>

lemma example_sent:
  "\<exists>p0 p. main_start (example_env\<lparr>env_encode := encode\<rparr>) example_settings zero_datagram 0 = Some p0 \<and>
     process_reachable (example_env\<lparr>env_encode := encode\<rparr>) zero_datagram p0 p \<and> length (to_clients p) = 1"
proof -
  let ?env = "example_env\<lparr>env_encode := encode\<rparr>"
  obtain p0 g where p0: "main_start ?env example_settings zero_datagram 0 = Some p0" "game (process_logic p0) = Some g"
    "process_comm p0 = AssignGameLogic ClientCommunication" "main_stream p0 = new_stream zero_datagram"
    "tcp_at p0 = Tcp_Connecting" "udp_at p0 = Udp_Waiting"
    by (rule example_start) blast
  then have none: "to_clients p0 = []" by (auto simp: main_start_def)
  let ?p = "p0\<lparr>tcp_at := Tcp_Waiting, socket_connected := True,
    to_main := to_main p0 @ [TransmitGameId (env_encode_id ?env) zero_datagram (main_game_id p0)]\<rparr>"
  have p: "process_reachable ?env zero_datagram p0 ?p"
    by (rule process_reachable.step [OF process_reachable.start process_step.tcp_connect [OF p0(5)]])
  have "handler ?env = handler example_env" by (simp add: handler_def)
  with example_handled [of ?p] p0(3,4) obtain s' st u where
    h: "main_receive_handler (handler ?env) (Get example_players @ [7]) (main_stream ?p) (shared_of ?p) = Done (s', st)"
      "clients (the (comm st)) = [u]"
      "logic st = Some (Logic_AddPlayer (Fin 0) (Fin 0) (client_of (example_wire 5)) True (process_logic ?p))"
    by auto
  let ?q = "(with_shared st ?p)\<lparr>main_stream := s'\<rparr>"
  have "process_reachable ?env zero_datagram p0 ?q"
    by (rule process_reachable_trans [OF data_steps [OF _ h(1)] p]) simp
  then obtain q where q: "process_reachable ?env zero_datagram p0 q" "clients (process_comm q) = [u]"
    "tcp_at q = Tcp_Waiting" "udp_at q = Udp_Waiting" "to_clients q = []"
    using h(2) none p0(6) by (auto simp: with_shared_def)
  obtain g0 where "process_inv g0 q"
    using process_reachable_inv [OF q(1)] main_start_inv [OF p0(1)] by blast
  then obtain g where ready: "\<not> clients_locked (process_comm q)" "logic_assigned (process_comm q)" "game (process_logic q) = Some g"
    using q(3,4) by (auto simp: process_inv_def clients_ok_def lock_ok_def game_ok_def)
  then have "\<exists>cc'. transmit_handler encode zero_datagram (process_logic q) (process_comm q) =
      Done (cc', [(remote_endpoint u, transmit_buffer cc')], 1)"
    using q(2) by (auto simp: transmit_handler_def GetGameStatusIntoTransmitBuffer_def GetGameStatus_def Let_def)
  then obtain cc' where "transmit_handler encode zero_datagram (process_logic q) (process_comm q) =
      Done (cc', [(remote_endpoint u, transmit_buffer cc')], 1)" by blast
  with transmit_steps [OF q(4), of ?env zero_datagram] have "process_reachable ?env zero_datagram q
      (q\<lparr>process_comm := cc', to_clients := to_clients q @ [(remote_endpoint u, transmit_buffer cc')]\<rparr>)"
    by simp
  from process_reachable_trans [OF this q(1)] p0(1) q(5) show ?thesis
    by (intro exI [of _ p0] exI) (rule conjI, assumption, rule conjI, assumption, simp)
qed

theorem clients_see_a_growing_game_witness:
  "\<exists>(p :: nat process) e n g. to_clients p = [(e, status_bytes (encode_status small_library) zero_datagram n g)]"
proof -
  let ?env = "example_env\<lparr>env_encode := encode_status small_library\<rparr>"
  obtain p0 p where p: "main_start ?env example_settings zero_datagram 0 = Some p0"
    "process_reachable ?env zero_datagram p0 p" "length (to_clients p) = 1"
    using example_sent [of "encode_status small_library"] by blast
  then obtain e bytes where one: "to_clients p = [(e, bytes)]" by (cases "to_clients p") auto
  from clients_see_a_growing_game [OF small_documented _ p(1,2)] obtain history where
    "to_clients p = concat (map (\<lambda>(es, n, g). map (\<lambda>e. (e, status_bytes (encode_status small_library) zero_datagram n g)) es) history)"
    by fastforce
  moreover have "(e, bytes) \<in> set (to_clients p)" using one by simp
  ultimately obtain n g where "bytes = status_bytes (encode_status small_library) zero_datagram n g" by auto
  with one show ?thesis by blast
qed

end
