(* ===== verification/Schemas.thy ===== *)
theory Schemas
  imports Input_Message Notice_Messages Game_Message Status_Message
begin

text \<open>
  The schemas of src/flatbuffers as data, and what they say of a message: where a field of a table
  lies, how a table is checked, in which order its fields are added and which of them must be there.
  The code in inc/*_generated.h, which was translated by itself in the theories above, turns out to
  be exactly that, table by table and field by field.
\<close>

section \<open>The language of the schemas\<close>

datatype fbs_type =
    Fbs_ulong
  | Fbs_uint32
  | Fbs_int
  | Fbs_float
  | Fbs_bool
  | Fbs_byte_enum string
  | Fbs_string
  | Fbs_struct string
  | Fbs_table string
  | Fbs_vector string

datatype fbs_field = Field (field_name: string) (field_type: fbs_type) (field_required: bool)

type_synonym fbs_table = "string \<times> fbs_field list"

text \<open>All defaults are zero, and a truth value is a byte.\<close>

fun scalar_default :: "fbs_type \<Rightarrow> scalar option" where
  "scalar_default Fbs_ulong = Some (Uint64 0)"
| "scalar_default Fbs_uint32 = Some (Uint32 0)"
| "scalar_default Fbs_int = Some (Int32 0)"
| "scalar_default Fbs_float = Some (Float32 0)"
| "scalar_default Fbs_bool = Some (Uint8 0)"
| "scalar_default (Fbs_byte_enum n) = Some (Int8 0)"
| "scalar_default _ = None"

text \<open>The size in a table; what is not a scalar counts as an offset.\<close>

fun byte_size :: "fbs_type \<Rightarrow> nat" where
  "byte_size Fbs_ulong = 8"
| "byte_size Fbs_bool = 1"
| "byte_size (Fbs_byte_enum n) = 1"
| "byte_size _ = 4"

section \<open>The five schemas\<close>

definition input_schema :: "fbs_table list" where
  "input_schema =
     [(''Input'',
       [Field ''sequence'' Fbs_ulong False,
        Field ''id'' Fbs_uint32 False,
        Field ''disconnect'' Fbs_bool False,
        Field ''direction'' Fbs_float False,
        Field ''move'' Fbs_bool False])]"

definition game_id_schema :: "fbs_table list" where
  "game_id_schema = [(''FGameId'', [Field ''id'' Fbs_int False])]"

definition game_ended_schema :: "fbs_table list" where
  "game_ended_schema = [(''FGameEnded'', [Field ''ended'' Fbs_bool False])]"

definition game_schema :: "fbs_table list" where
  "game_schema =
     [(''FVehicle'', [Field ''vehicleType'' (Fbs_byte_enum ''FVehicleType'') False]),
      (''FClient'',
       [Field ''name'' Fbs_string False,
        Field ''id'' Fbs_uint32 False,
        Field ''ipAddress'' Fbs_string False,
        Field ''port'' Fbs_int False,
        Field ''vehicle'' (Fbs_table ''FVehicle'') False]),
      (''FTeam'', [Field ''clients'' (Fbs_vector ''FClient'') False]),
      (''FGame'',
       [Field ''id'' Fbs_int False,
        Field ''teams'' (Fbs_vector ''FTeam'') False])]"

definition status_schema :: "fbs_table list" where
  "status_schema =
     [(''Player'',
       [Field ''name'' Fbs_string True,
        Field ''id'' Fbs_uint32 False,
        Field ''points'' Fbs_int False,
        Field ''position'' (Fbs_struct ''Position'') True,
        Field ''vehicle'' (Fbs_byte_enum ''Vehicle'') False]),
      (''Team'',
       [Field ''points'' Fbs_int False,
        Field ''players'' (Fbs_vector ''Player'') True]),
      (''PointBox'',
       [Field ''position'' (Fbs_struct ''Position'') True,
        Field ''value'' Fbs_int False]),
      (''Game'',
       [Field ''sequence'' Fbs_ulong False,
        Field ''teams'' (Fbs_vector ''Team'') True,
        Field ''boxes'' (Fbs_vector ''PointBox'') False,
        Field ''finished'' Fbs_bool False])]"

lemmas schema_defs = input_schema_def game_id_schema_def game_ended_schema_def game_schema_def status_schema_def

section \<open>What a schema says\<close>

text \<open>The fields of a table have the slots of its vtable in the order of their declaration.\<close>

definition slot :: "nat \<Rightarrow> voffset" where
  "slot i = word_of_nat (4 + 2 * i)"

definition fields_of :: "fbs_table list \<Rightarrow> string \<Rightarrow> fbs_field list" where
  "fields_of s n = (case map_of s n of None \<Rightarrow> [] | Some fs \<Rightarrow> fs)"

text \<open>
  The check of a field, with the checks of the tables known so far. A struct is checked in place; the
  only one of the schemas is required wherever it is a field.
\<close>

definition check_field :: "('b, 'o, 'p, 'v) flatbuffers \<Rightarrow> (string \<Rightarrow> 'p \<Rightarrow> 'v check) \<Rightarrow> 'p \<Rightarrow>
    nat \<times> fbs_field \<Rightarrow> 'v check list" where
  "check_field L known p = (\<lambda>(i, f).
     case scalar_default (field_type f) of
       Some d \<Rightarrow> [fb_VerifyField L p d (slot i)]
     | None \<Rightarrow>
         let present = (if field_required f then fb_VerifyOffsetRequired L p (slot i) else fb_VerifyOffset L p (slot i));
             target = fb_GetPointer L p (slot i)
         in (case field_type f of
               Fbs_struct n \<Rightarrow> [fb_VerifyStructRequired L p (slot i)]
             | Fbs_string \<Rightarrow> [present, fb_VerifyString L target]
             | Fbs_table n \<Rightarrow> [present, fb_VerifyTable L (known n) target]
             | Fbs_vector n \<Rightarrow> [present, fb_VerifyVector L target, fb_VerifyVectorOfTables L (known n) target]
             | _ \<Rightarrow> []))"

definition check_table :: "('b, 'o, 'p, 'v) flatbuffers \<Rightarrow> (string \<Rightarrow> 'p \<Rightarrow> 'v check) \<Rightarrow> fbs_field list \<Rightarrow>
    'p \<Rightarrow> 'v check" where
  "check_table L known fs p = all_of
     (fb_VerifyTableStart L p # concat (map (check_field L known p) (enumerate 0 fs)) @ [fb_VerifyEndTable L])"

text \<open>A table is declared before it is used.\<close>

fun checks_from :: "('b, 'o, 'p, 'v) flatbuffers \<Rightarrow> fbs_table list \<Rightarrow> (string \<Rightarrow> 'p \<Rightarrow> 'v check) \<Rightarrow>
    string \<Rightarrow> 'p \<Rightarrow> 'v check" where
  "checks_from L [] known = known"
| "checks_from L ((n, fs) # ts) known = checks_from L ts (known(n := check_table L known fs))"

definition checks_of :: "('b, 'o, 'p, 'v) flatbuffers \<Rightarrow> fbs_table list \<Rightarrow> string \<Rightarrow> 'p \<Rightarrow> 'v check" where
  "checks_of L s = checks_from L s (\<lambda>n p v. (False, v))"

text \<open>An argument for each field of a new table. Where it does not fit the field there is no table.\<close>

datatype 'o argument = Number scalar | Offset 'o | Inline "Position option"

definition add_argument :: "('b, 'o, 'p, 'v) flatbuffers \<Rightarrow> (nat \<times> fbs_field) \<times> 'o argument \<Rightarrow> 'b \<Rightarrow> 'b option" where
  "add_argument L = (\<lambda>((i, f), a).
     case (scalar_default (field_type f), a) of
       (Some d, Number v) \<Rightarrow> fb_AddElement L (slot i) v d
     | (None, Offset x) \<Rightarrow> fb_AddOffset L (slot i) x
     | (None, Inline s) \<Rightarrow> fb_AddStruct L (slot i) s
     | _ \<Rightarrow> (\<lambda>b. None))"

fun run_all :: "('b \<Rightarrow> 'b option) list \<Rightarrow> 'b \<Rightarrow> 'b option" where
  "run_all [] b = Some b"
| "run_all (f # fs) b = do { b \<leftarrow> f b; run_all fs b }"

text \<open>Large fields are added before small ones, and among those of one size the last declared first.\<close>

definition by_size :: "((nat \<times> fbs_field) \<times> 'o argument) list \<Rightarrow> ((nat \<times> fbs_field) \<times> 'o argument) list" where
  "by_size xs = concat (map (\<lambda>n. rev (filter (\<lambda>((i, f), a). byte_size (field_type f) = n) xs)) [8, 4, 2, 1])"

definition create_table :: "('b, 'o, 'p, 'v) flatbuffers \<Rightarrow> fbs_field list \<Rightarrow> 'o argument list \<Rightarrow> ('b, 'o) build" where
  "create_table L fs args b = do {
     (start, b) \<leftarrow> fb_StartTable L b;
     b \<leftarrow> run_all (map (add_argument L) (by_size (zip (enumerate 0 fs) args))) b;
     (x, b) \<leftarrow> fb_EndTable L start b;
     b \<leftarrow> run_all (map (\<lambda>(i, f). fb_Required L x (slot i)) (filter (\<lambda>(i, f). field_required f) (enumerate 0 fs))) b;
     Some (x, b) }"

text \<open>The slot of a field that is given by its name.\<close>

definition slot_of :: "fbs_table list \<Rightarrow> string \<Rightarrow> string \<Rightarrow> voffset" where
  "slot_of s t n = slot (length (takeWhile (\<lambda>f. field_name f \<noteq> n) (fields_of s t)))"

section \<open>The generated code\<close>

lemma bind_id: "r \<bind> (\<lambda>(x, b). Some (x, b)) = r"
  by (cases r) auto

lemmas VT_defs = Input_VT FGameId_VT FGameEnded_VT FVehicle_VT FClient_VT FTeam_VT FGame_VT
  Player_VT Team_VT PointBox_VT Game_VT

lemmas accessor_defs = Player_name_def Team_players_def Game_teams_def Game_boxes_def
  FClient_name_def FClient_ipAddress_def FClient_vehicle_def FTeam_clients_def FGame_teams_def

lemmas table_defs = fields_of_def schema_defs check_table_def check_field_def slot_def VT_defs accessor_defs Let_def

lemma notice_tables:
  "check_table L known (fields_of input_schema ''Input'') = Input_Verify L"
  "check_table L known (fields_of game_id_schema ''FGameId'') = FGameId_Verify L"
  "check_table L known (fields_of game_ended_schema ''FGameEnded'') = FGameEnded_Verify L"
  by (rule ext; simp add: table_defs Input_Verify_def FGameId_Verify_def FGameEnded_Verify_def)+

lemma game_tables:
  "check_table L known (fields_of game_schema ''FVehicle'') = FVehicle_Verify L"
  "known ''FVehicle'' = FVehicle_Verify L \<Longrightarrow> check_table L known (fields_of game_schema ''FClient'') = FClient_Verify L"
  "known ''FClient'' = FClient_Verify L \<Longrightarrow> check_table L known (fields_of game_schema ''FTeam'') = FTeam_Verify L"
  "known ''FTeam'' = FTeam_Verify L \<Longrightarrow> check_table L known (fields_of game_schema ''FGame'') = FGame_Verify L"
  by (rule ext; simp add: table_defs FVehicle_Verify_def FClient_Verify_def FTeam_Verify_def FGame_Verify_def)+

lemma status_tables:
  "check_table L known (fields_of status_schema ''Player'') = Player_Verify L"
  "known ''Player'' = Player_Verify L \<Longrightarrow> check_table L known (fields_of status_schema ''Team'') = Team_Verify L"
  "check_table L known (fields_of status_schema ''PointBox'') = PointBox_Verify L"
  "known ''Team'' = Team_Verify L \<Longrightarrow> known ''PointBox'' = PointBox_Verify L \<Longrightarrow>
     check_table L known (fields_of status_schema ''Game'') = Game_Verify L"
  by (rule ext; simp add: table_defs Player_Verify_def Team_Verify_def PointBox_Verify_def Game_Verify_def)+

lemma checks_follow:
  "checks_of L input_schema ''Input'' = Input_Verify L"
  "checks_of L game_id_schema ''FGameId'' = FGameId_Verify L"
  "checks_of L game_ended_schema ''FGameEnded'' = FGameEnded_Verify L"
  "checks_of L game_schema ''FVehicle'' = FVehicle_Verify L"
  "checks_of L game_schema ''FClient'' = FClient_Verify L"
  "checks_of L game_schema ''FTeam'' = FTeam_Verify L"
  "checks_of L game_schema ''FGame'' = FGame_Verify L"
  "checks_of L status_schema ''Player'' = Player_Verify L"
  "checks_of L status_schema ''Team'' = Team_Verify L"
  "checks_of L status_schema ''PointBox'' = PointBox_Verify L"
  "checks_of L status_schema ''Game'' = Game_Verify L"
  using notice_tables [where L = L] game_tables [where L = L] status_tables [where L = L]
  by (simp_all add: checks_of_def fields_of_def schema_defs)

lemmas create_defs = create_table_def by_size_def add_argument_def slot_def VT_defs fields_of_def schema_defs

lemma creates_follow:
  "create_table L (fields_of input_schema ''Input'') [Number (Uint64 s), Number (Uint32 n), Number (Uint8 (of_bool d)),
     Number (Float32 x), Number (Uint8 (of_bool mv))] = CreateInput L s n d x mv"
  "create_table L (fields_of game_id_schema ''FGameId'') [Number (Int32 n)] = CreateFGameId L n"
  "create_table L (fields_of game_ended_schema ''FGameEnded'') [Number (Uint8 (of_bool d))] = CreateFGameEnded L d"
  by (rule ext; simp add: create_defs bind_id CreateInput_def CreateFGameId_def CreateFGameEnded_def InputBuilder_defs
      FGameIdBuilder_defs FGameEndedBuilder_defs case_prod_beta')+

lemma game_creates_follow:
  "create_table L (fields_of game_schema ''FVehicle'') [Number (Int8 v)] = CreateFVehicle L v"
  "create_table L (fields_of game_schema ''FClient'') [Offset name, Number (Uint32 n), Offset ip, Number (Int32 q), Offset w] =
     CreateFClient L name n ip q w"
  "create_table L (fields_of game_schema ''FTeam'') [Offset cs] = CreateFTeam L cs"
  "create_table L (fields_of game_schema ''FGame'') [Number (Int32 n), Offset ts] = CreateFGame L n ts"
  by (rule ext; simp add: create_defs bind_id CreateFVehicle_def CreateFClient_def CreateFTeam_def CreateFGame_def
      FVehicleBuilder_defs FClientBuilder_defs FTeamBuilder_defs FGameBuilder_defs)+

lemma status_creates_follow:
  "create_table L (fields_of status_schema ''Player'') [Offset name, Number (Uint32 n), Number (Int32 k), Inline pos,
     Number (Int8 v)] = CreatePlayer L name n k pos v"
  "create_table L (fields_of status_schema ''Team'') [Number (Int32 k), Offset ps] = CreateTeam L k ps"
  "create_table L (fields_of status_schema ''PointBox'') [Inline pos, Number (Int32 k)] = CreatePointBox L pos k"
  "create_table L (fields_of status_schema ''Game'') [Number (Uint64 s), Offset ts, Offset bs, Number (Uint8 (of_bool d))] =
     CreateGame L s ts bs d"
  by (rule ext; simp add: create_defs CreatePlayer_def CreateTeam_def CreatePointBox_def CreateGame_def
      PlayerBuilder_defs TeamBuilder_defs PointBoxBuilder_defs GameBuilder_defs)+

lemma slots_follow:
  "map (slot_of input_schema ''Input'') [''sequence'', ''id'', ''disconnect'', ''direction'', ''move''] =
     [Input_VT_SEQUENCE, Input_VT_ID, Input_VT_DISCONNECT, Input_VT_DIRECTION, Input_VT_MOVE]"
  "slot_of game_id_schema ''FGameId'' ''id'' = FGameId_VT_ID"
  "slot_of game_ended_schema ''FGameEnded'' ''ended'' = FGameEnded_VT_ENDED"
  "slot_of game_schema ''FVehicle'' ''vehicleType'' = FVehicle_VT_VEHICLETYPE"
  "map (slot_of game_schema ''FClient'') [''name'', ''id'', ''ipAddress'', ''port'', ''vehicle''] =
     [FClient_VT_NAME, FClient_VT_ID, FClient_VT_IPADDRESS, FClient_VT_PORT, FClient_VT_VEHICLE]"
  "slot_of game_schema ''FTeam'' ''clients'' = FTeam_VT_CLIENTS"
  "map (slot_of game_schema ''FGame'') [''id'', ''teams''] = [FGame_VT_ID, FGame_VT_TEAMS]"
  "map (slot_of status_schema ''Player'') [''name'', ''id'', ''points'', ''position'', ''vehicle''] =
     [Player_VT_NAME, Player_VT_ID, Player_VT_POINTS, Player_VT_POSITION, Player_VT_VEHICLE]"
  "map (slot_of status_schema ''Team'') [''points'', ''players''] = [Team_VT_POINTS, Team_VT_PLAYERS]"
  "map (slot_of status_schema ''PointBox'') [''position'', ''value''] = [PointBox_VT_POSITION, PointBox_VT_VALUE]"
  "map (slot_of status_schema ''Game'') [''sequence'', ''teams'', ''boxes'', ''finished''] =
     [Game_VT_SEQUENCE, Game_VT_TEAMS, Game_VT_BOXES, Game_VT_FINISHED]"
  by (simp_all add: slot_of_def slot_def fields_of_def schema_defs VT_defs)

section \<open>Properties\<close>

text \<open>
  C38. The generated code is what the schemas say. For every table of the five schemas the generated
  check is the one derived from the schema, through all tables that it refers to; the generated
  function that makes a new table adds the fields, and requires those that must be there, as derived
  from the schema; and every field has the slot that the order of declaration gives it.
\<close>

theorem generated_code_follows_schemas:
  "checks_of L input_schema ''Input'' = Input_Verify L \<and>
   checks_of L game_id_schema ''FGameId'' = FGameId_Verify L \<and>
   checks_of L game_ended_schema ''FGameEnded'' = FGameEnded_Verify L \<and>
   checks_of L game_schema ''FVehicle'' = FVehicle_Verify L \<and>
   checks_of L game_schema ''FClient'' = FClient_Verify L \<and>
   checks_of L game_schema ''FTeam'' = FTeam_Verify L \<and>
   checks_of L game_schema ''FGame'' = FGame_Verify L \<and>
   checks_of L status_schema ''Player'' = Player_Verify L \<and>
   checks_of L status_schema ''Team'' = Team_Verify L \<and>
   checks_of L status_schema ''PointBox'' = PointBox_Verify L \<and>
   checks_of L status_schema ''Game'' = Game_Verify L \<and>
   create_table L (fields_of input_schema ''Input'') [Number (Uint64 s), Number (Uint32 n), Number (Uint8 (of_bool d)),
     Number (Float32 x), Number (Uint8 (of_bool mv))] = CreateInput L s n d x mv \<and>
   create_table L (fields_of game_id_schema ''FGameId'') [Number (Int32 n)] = CreateFGameId L n \<and>
   create_table L (fields_of game_ended_schema ''FGameEnded'') [Number (Uint8 (of_bool d))] = CreateFGameEnded L d \<and>
   create_table L (fields_of game_schema ''FVehicle'') [Number (Int8 v)] = CreateFVehicle L v \<and>
   create_table L (fields_of game_schema ''FClient'') [Offset name, Number (Uint32 n), Offset ip, Number (Int32 q), Offset w] =
     CreateFClient L name n ip q w \<and>
   create_table L (fields_of game_schema ''FTeam'') [Offset cs] = CreateFTeam L cs \<and>
   create_table L (fields_of game_schema ''FGame'') [Number (Int32 n), Offset ts] = CreateFGame L n ts \<and>
   create_table L (fields_of status_schema ''Player'') [Offset name, Number (Uint32 n), Number (Int32 k), Inline pos,
     Number (Int8 v)] = CreatePlayer L name n k pos v \<and>
   create_table L (fields_of status_schema ''Team'') [Number (Int32 k), Offset ps] = CreateTeam L k ps \<and>
   create_table L (fields_of status_schema ''PointBox'') [Inline pos, Number (Int32 k)] = CreatePointBox L pos k \<and>
   create_table L (fields_of status_schema ''Game'') [Number (Uint64 s), Offset ts, Offset bs, Number (Uint8 (of_bool d))] =
     CreateGame L s ts bs d \<and>
   map (slot_of input_schema ''Input'') [''sequence'', ''id'', ''disconnect'', ''direction'', ''move''] =
     [Input_VT_SEQUENCE, Input_VT_ID, Input_VT_DISCONNECT, Input_VT_DIRECTION, Input_VT_MOVE] \<and>
   slot_of game_id_schema ''FGameId'' ''id'' = FGameId_VT_ID \<and>
   slot_of game_ended_schema ''FGameEnded'' ''ended'' = FGameEnded_VT_ENDED \<and>
   slot_of game_schema ''FVehicle'' ''vehicleType'' = FVehicle_VT_VEHICLETYPE \<and>
   map (slot_of game_schema ''FClient'') [''name'', ''id'', ''ipAddress'', ''port'', ''vehicle''] =
     [FClient_VT_NAME, FClient_VT_ID, FClient_VT_IPADDRESS, FClient_VT_PORT, FClient_VT_VEHICLE] \<and>
   slot_of game_schema ''FTeam'' ''clients'' = FTeam_VT_CLIENTS \<and>
   map (slot_of game_schema ''FGame'') [''id'', ''teams''] = [FGame_VT_ID, FGame_VT_TEAMS] \<and>
   map (slot_of status_schema ''Player'') [''name'', ''id'', ''points'', ''position'', ''vehicle''] =
     [Player_VT_NAME, Player_VT_ID, Player_VT_POINTS, Player_VT_POSITION, Player_VT_VEHICLE] \<and>
   map (slot_of status_schema ''Team'') [''points'', ''players''] = [Team_VT_POINTS, Team_VT_PLAYERS] \<and>
   map (slot_of status_schema ''PointBox'') [''position'', ''value''] = [PointBox_VT_POSITION, PointBox_VT_VALUE] \<and>
   map (slot_of status_schema ''Game'') [''sequence'', ''teams'', ''boxes'', ''finished''] =
     [Game_VT_SEQUENCE, Game_VT_TEAMS, Game_VT_BOXES, Game_VT_FINISHED]"
  by (intro conjI checks_follow creates_follow game_creates_follow status_creates_follow slots_follow)

end
