(* ===== verification/Communication_Threads.thy ===== *)
theory Communication_Threads
  imports Prelude
begin

text \<open>
  The life of the thread that both communications own: \<open>Start\<close> and \<open>Stop\<close> of
  client_communication/client_communication.cpp and main_process_comm/main_process_comm.cpp. The
  thread runs the handlers of an asio context; it ends when the context is stopped, when there is
  nothing left to wait for, or by an exception. What the handlers do is in the theories of the two
  components.
\<close>

section \<open>The state\<close>

datatype own_thread = No_Thread | Alive | Finished

record communication =
  running :: bool
  thread_of :: own_thread
  socket_open :: bool
  context_stopped :: bool

text \<open>The constructor of the UDP side opens its socket, that of the TCP side does not.\<close>

definition new_communication :: "bool \<Rightarrow> communication" where
  "new_communication opened =
     \<lparr>running = False, thread_of = No_Thread, socket_open = opened, context_stopped = False\<rparr>"

section \<open>Operations\<close>

text \<open>Assigning to a \<open>std::thread\<close> that is joinable ends the process: None.\<close>

definition Client_Start :: "communication \<Rightarrow> communication option" where
  "Client_Start c =
     (if \<not> running c
      then let c = c\<lparr>running := True\<rparr>
           in if thread_of c \<noteq> No_Thread then None else Some (c\<lparr>thread_of := Alive\<rparr>)
      else Some c)"

definition Main_Start :: "communication \<Rightarrow> communication option" where
  "Main_Start c =
     (if \<not> running c
      then let c = c\<lparr>running := True\<rparr>
           in if thread_of c \<noteq> No_Thread then None else Some (c\<lparr>thread_of := Alive\<rparr>)
      else Some c)"

text \<open>
  \<open>Connect\<close>, at the beginning of the thread of the TCP side: an address that is not parsed and a
  connection that is refused are exceptions. asio opens the socket before it tries to connect.
\<close>

definition Connect :: "(string \<Rightarrow> 'a option) \<Rightarrow> ('a \<Rightarrow> bool) \<Rightarrow> string \<Rightarrow> communication \<Rightarrow> bool \<times> communication" where
  "Connect make_address accepts ip c =
     (case make_address ip of
        None \<Rightarrow> (False, c)
      | Some a \<Rightarrow> (accepts a, c\<lparr>socket_open := True\<rparr>))"

text \<open>The end of the thread.\<close>

definition thread_ends :: "communication \<Rightarrow> communication option" where
  "thread_ends c =
     (if thread_of c = Alive then Some (c\<lparr>running := False, thread_of := Finished\<rparr>) else None)"

text \<open>\<open>Stop\<close> in two halves, before the join and the join, which waits (None) for a thread that is alive.\<close>

definition Client_Stop_request :: "communication \<Rightarrow> communication" where
  "Client_Stop_request c = (if running c then c\<lparr>socket_open := False, context_stopped := True\<rparr> else c)"

definition Main_Stop_request :: "communication \<Rightarrow> communication" where
  "Main_Stop_request c = (if running c then c\<lparr>socket_open := False, context_stopped := True\<rparr> else c)"

definition Stop_join :: "communication \<Rightarrow> communication option" where
  "Stop_join c =
     (case thread_of c of
        No_Thread \<Rightarrow> Some c
      | Finished \<Rightarrow> Some (c\<lparr>thread_of := No_Thread\<rparr>)
      | Alive \<Rightarrow> None)"

section \<open>Runs\<close>

inductive communication_step :: "communication \<Rightarrow> communication \<Rightarrow> bool" where
  client_start: "Client_Start c = Some c' \<Longrightarrow> communication_step c c'"
| main_start: "Main_Start c = Some c' \<Longrightarrow> communication_step c c'"
| connect: "thread_of c = Alive \<Longrightarrow> communication_step c (snd (Connect (make_address :: string \<Rightarrow> string option) accepts ip c))"
| ends: "thread_ends c = Some c' \<Longrightarrow> communication_step c c'"
| client_stop: "communication_step c (Client_Stop_request c)"
| main_stop: "communication_step c (Main_Stop_request c)"
| join: "Stop_join c = Some c' \<Longrightarrow> communication_step c c'"

inductive_cases communication_stepE: "communication_step c c'"

inductive communication_reachable :: "communication \<Rightarrow> communication \<Rightarrow> bool" for c0 where
  initial: "communication_reachable c0 c0"
| later: "communication_reachable c0 c \<Longrightarrow> communication_step c c' \<Longrightarrow> communication_reachable c0 c'"

lemma communication_step_running:
  "communication_step c c' \<Longrightarrow> (running c \<longleftrightarrow> thread_of c = Alive) \<Longrightarrow> (running c' \<longleftrightarrow> thread_of c' = Alive)"
  by (auto simp: Client_Start_def Main_Start_def Connect_def thread_ends_def Client_Stop_request_def
      Main_Stop_request_def Stop_join_def Let_def elim!: communication_stepE
      split: if_splits option.splits own_thread.splits)

lemma communication_step_stopped: "communication_step c c' \<Longrightarrow> context_stopped c \<Longrightarrow> context_stopped c'"
  by (auto simp: Client_Start_def Main_Start_def Connect_def thread_ends_def Client_Stop_request_def
      Main_Stop_request_def Stop_join_def Let_def elim!: communication_stepE
      split: if_splits option.splits own_thread.splits)

lemma reachable_running:
  "communication_reachable (new_communication opened) c \<Longrightarrow> running c \<longleftrightarrow> thread_of c = Alive"
  by (induction rule: communication_reachable.induct)
    (auto simp: new_communication_def dest: communication_step_running)

lemma reachable_stopped: "communication_reachable c c' \<Longrightarrow> context_stopped c \<Longrightarrow> context_stopped c'"
  by (induction rule: communication_reachable.induct) (auto dest: communication_step_stopped)

section \<open>Properties\<close>



end
