(* ===== verification/Spec2Isabelle.thy ===== *)
theory Spec2Isabelle
  imports Mocker_Runs Game_Geometry Crc_Catalogue Client_View Schemas Communication_Threads
begin

text \<open>
  A model of UPZP-GameProcess, the process that runs one game: it receives the players from the
  main process by TCP, their inputs by UDP, moves them over the map 20 times a second, collects
  point boxes for two teams, sends the status back and announces the end.

  The parts and their theories (paths below src/UPZP-GameProcess):

  \<^item> Prelude: bytes, little-endian numbers, lists. Shared by all.
  \<^item> Crc, Crc_Catalogue: inc/CRC.h, bit by bit and with a table, and its parameter sets.
    \<^verbatim>\<open>wf_parameters\<close> collects what the parameter sets have in common.
  \<^item> Datagram: datagram/datagram.cpp. \<^verbatim>\<open>Get\<close> serializes, \<^verbatim>\<open>Load\<close> parses; an exception is
    \<^verbatim>\<open>Thrown\<close> with the state it leaves, a read behind the buffer is \<^verbatim>\<open>Out_Of_Bounds\<close>.
  \<^item> Datagram_Stream, Stream_Delivery: datagram/datagram_stream.cpp and the loop that empties the
    stream. \<^verbatim>\<open>flush_pass\<close> is the body of the loop of \<^verbatim>\<open>FlushData\<close>, None is undefined behaviour.
    The locale \<^verbatim>\<open>chunked_decoder\<close> (Chunked_Decoder) states what the receiving side needs of a
    decoder; the stream is its interpretation.
  \<^item> Double: the type of double values, real numbers with infinities and not-a-number.
  \<^item> Client, Client_Udp: client.cpp, inc/client.h, inc/player_input.h, inc/vehicle_types.h,
    inc/maps.h and client_communication/client_udp.cpp. The locale \<^verbatim>\<open>sequence_filter\<close>
    (Sequence_Filter) is what a filter by sequence numbers promises; \<^verbatim>\<open>DecodeDatagram\<close> gives one.
  \<^item> Player, Game: game_logic/player.cpp, team.cpp and game.cpp. Point_Transfer holds the loop over
    players with the locale \<^verbatim>\<open>point_transfer\<close> (nothing is lost where something is passed on),
    interpreted in Game_Rules, which has the ledger of points and the decision of a game, and
    Game_Geometry has distances and movement.
  \<^item> Game_Logic, Logic_Runs: game_logic/game_logic.cpp. The game thread is a state machine over
    \<^verbatim>\<open>pc\<close>, the positions between its calls; \<^verbatim>\<open>logic_step\<close> interleaves it with the public operations.
  \<^item> Client_Communication, Main_Process_Comm: the two communications, each handler of asio one
    definition; Communication_Threads: their \<^verbatim>\<open>Start\<close> and \<^verbatim>\<open>Stop\<close>.
  \<^item> Flatbuffers: what the generated headers call of the FlatBuffers library, as a record of functions
    (\<^verbatim>\<open>flatbuffers\<close>), and what its documentation says of them (\<^verbatim>\<open>documented\<close>). Flatbuffers_Example:
    a small library that behaves as documented.
  \<^item> Input_Message, Notice_Messages, Game_Message, Status_Message: the generated headers
    inc/player_input_generated.h, game_id_generated.h and game_ended_generated.h, game_generated.h,
    and game_status_generated.h: accessors, \<^verbatim>\<open>Verify\<close>, builders, \<^verbatim>\<open>Create\<close> functions and the functions
    of the root of a message; then, per message, what the program writes and reads with them.
    Message_Flow: these messages on the way through the handlers.
  \<^item> Schemas: src/flatbuffers/*.fbs as data, and the check, the construction and the slots of a table
    that a schema determines, to which the generated code is compared.
  \<^item> Settings: sub_process_settings.cpp, with \<^verbatim>\<open>std::stoi\<close> written out.
  \<^item> Game_Process, Process_Runs: main.cpp, the process with its four threads. A step is what a
    thread does under one mutex; Process_Runs shows that undisturbed steps amount to the handlers.
    Client_View: all that a run sends to the clients, as a growing history of states of the game.
  \<^item> Mockers, Mocker_Runs: the two test peers beside the process (src/client_communication_mocker and
    src/main_process_communication_mocker), their messages and the loops of their main functions.
  \<^item> This theory: properties that span the parts.

  What the lemmas show. Checksums: table and bitwise computation agree, may be done in parts, find
  all short bursts of errors and give the documented check values. Datagrams: both round trips, what
  is rejected and what is not. The stream: whatever the chunks, exactly the datagrams sent are
  delivered, or the reception is undefined, and when. Inputs: accepted at most once and in order,
  from the sender's address only. The game: no points out of nothing, a decision is final, boxes
  are collected exactly within the distance, movement covers speed times time. The thread: it runs
  until a team has won or it is stopped, which it notices within four steps. The process:
  its invariant over all interleavings, what is announced and when, what ends it, what the
  network cannot do, and that the clients see one game that only grows. Statistics: complete but for
  the blue players, or cut off where the driver throws. The messages: what the builders write passes \<^verbatim>\<open>Verify\<close> and is read back by the
  accessors, from the peer's builder to the state of the handler, and the generated code is what the
  schemas say; a list of players with a
  missing vehicle makes the process read through a null pointer. The test peers: every input of the
  one is accepted by the client with its id, which no player of the other has.

  Idealizations. Arithmetic on doubles is that of the real numbers, without rounding or overflow;
  infinities and not-a-number are kept, since they arrive over the network. A float of a message is
  the double of the same value. Points are integers: 64 bits hold them as long as fewer than
  2 ^ 63 / 100 boxes are generated. Time is a number of nanoseconds that the environment chooses
  freely; sleeping is no step. \<^verbatim>\<open>char\<close> is signed and numbers are little-endian, as on the platforms
  of the build files. Threads interleave at the mutexes; \<^verbatim>\<open>terminate_\<close>, which the code reads and
  writes without one, changes in steps of its own. An indeterminate object of C++ is a parameter, \<^verbatim>\<open>d0\<close>.

  Loops are recursive functions with a termination proof; there is no fuel. \<^verbatim>\<open>run_thread\<close> takes as
  many steps as it is given environments, and the theorems about it say how many are enough: four
  after a request to stop and six after a decision.

  Not modelled. asio (sockets, endpoints, contexts) and the MySQL driver, which accepts a call or
  throws as the parameter \<^verbatim>\<open>accepts\<close> says: the handlers, the messages and the calls made are values, and the conversions of addresses are the parameters \<^verbatim>\<open>make_address\<close>
  and \<^verbatim>\<open>to_string\<close>. The FlatBuffers library,
  which is not in the repository: a parameter of the generated code. The hypothesis \<^verbatim>\<open>documented\<close>
  leaves out its limits, buffers below 2 GB and, for the verifier, a nesting of 64 and a million
  tables. The handlers take the bytes written and the view of a payload as parameters (\<^verbatim>\<open>encode\<close>,
  \<^verbatim>\<open>get_input\<close>, \<^verbatim>\<open>get_game\<close>, None where the view leaves the payload), which Message_Flow instantiates
  with the generated code; what the accessors read of a payload that no builder wrote is not
  determined by \<^verbatim>\<open>documented\<close>. Output to the console, \<^verbatim>\<open>std::stod\<close>, the calendar and the source of random numbers are
  parameters or left out. The cancelling of waits by a second wait of the same timer, which happens
  only to a client communication without game logic, is not followed further than the number of waits.
\<close>

section \<open>A client's input reaches its player\<close>

lemma receive_clients_others:
  "\<forall>c \<in> set cs. Ip_v4 c \<noteq> to_string (address remote) \<Longrightarrow>
     receive_clients (receive_for to_string get_input d0 assigned remote received len) cs gl = Some (cs, gl)"
  by (induction cs) (auto simp: receive_for_def)

lemma receive_clients_append:
  "receive_clients step (cs @ ds) gl =
     (case receive_clients step cs gl of
        None \<Rightarrow> None
      | Some (cs', gl') \<Rightarrow> map_option (\<lambda>(ds', gl''). (cs' @ ds', gl'')) (receive_clients step ds gl'))"
  by (induction cs arbitrary: gl)
    (auto simp: option.map_comp comp_def case_prod_beta' option.map_ident split: option.splits)

lemma receive_handler_input:
  assumes "clients cc = cs @ c # ds" "\<not> clients_locked cc" "logic_assigned cc" "own_input c"
    "Ip_v4 c = to_string (address remote)"
    "\<forall>e \<in> set (cs @ ds). Ip_v4 e \<noteq> to_string (address remote)"
    "version d AND 0x00FF = 101" "length (payload d) < 2 ^ 32" "get_input (payload d) = Some i"
    "wire_id i = Id c" "last_sequence c < sequence i" "game gl = Some g"
  shows "receive_handler to_string get_input d0 remote (Get d @ stale) (length (Get d)) cc gl =
    Done (cc\<lparr>clients := cs @ c\<lparr>input := \<lparr>input_id = Id c, move = wire_move i, direction = wire_direction i\<rparr>,
        last_sequence := sequence i, first_connection := False, remote_endpoint := remote\<rparr> # ds\<rparr>,
      gl\<lparr>game := Some (SetPlayerInput
        \<lparr>input_id = Id c, move = wire_move i, direction = wire_direction i\<rparr> g)\<rparr>)"
proof -
  let ?step = "receive_for to_string get_input d0 True remote (Get d @ stale) (length (Get d))"
  have load: "Load (Get d @ stale) (length (Get d)) d0 = (Loaded, loaded_from d d0)"
    using Load_Get [OF assms(8) order_refl] .
  have "Version (loaded_from d d0) = 101" "get_input (Payload (loaded_from d d0)) = Some i"
    using assms(7,9) by (simp_all add: Version_def Payload_def loaded_from_def)
  from DecodeDatagram_accepts [where get_input = get_input and i = i and c = c, OF load this assms(11,10)]
  have "?step c gl = Some (c\<lparr>input := \<lparr>input_id = Id c, move = wire_move i, direction = wire_direction i\<rparr>,
        last_sequence := sequence i, first_connection := False, remote_endpoint := remote\<rparr>,
      gl\<lparr>game := Some (SetPlayerInput
        \<lparr>input_id = Id c, move = wire_move i, direction = wire_direction i\<rparr> g)\<rparr>)"
    using assms(4,5,12)
    by (cases "input c") (auto simp: receive_for_def Let_def own_input_def Input_def SetPlayerMovement_def)
  with receive_clients_others [of cs to_string remote get_input d0 True "Get d @ stale" "length (Get d)" gl]
    receive_clients_others [of ds to_string remote get_input d0 True "Get d @ stale" "length (Get d)"] assms(6)
  have "receive_clients ?step (cs @ c # ds) gl = Some (cs @ c\<lparr>input := \<lparr>input_id = Id c, move = wire_move i,
        direction = wire_direction i\<rparr>, last_sequence := sequence i, first_connection := False,
        remote_endpoint := remote\<rparr> # ds,
      gl\<lparr>game := Some (SetPlayerInput
        \<lparr>input_id = Id c, move = wire_move i, direction = wire_direction i\<rparr> g)\<rparr>)"
    by (simp add: receive_clients_append)
  then show ?thesis using assms(1-3) by (simp add: receive_handler_def)
qed

text \<open>
  C9. From the socket to the rules: a serialized input of version 101 that arrives from the
  address of exactly one client, with that client's id and a fresh sequence number, makes the
  handler return with the client updated and its endpoint replaced by the sender's, and the game
  changed by exactly one operation, the input of that player. What an earlier, longer datagram
  left behind it in the receive buffer does not matter.
\<close>

theorem input_reaches_the_game:
  assumes "clients cc = cs @ c # ds" "\<not> clients_locked cc" "logic_assigned cc" "own_input c"
    "Ip_v4 c = to_string (address remote)"
    "\<forall>e \<in> set (cs @ ds). Ip_v4 e \<noteq> to_string (address remote)"
    "version d AND 0x00FF = 101" "length (payload d) < 2 ^ 32" "get_input (payload d) = Some i"
    "wire_id i = Id c" "last_sequence c < sequence i" "game gl = Some g"
  shows "receive_handler to_string get_input d0 remote (Get d @ stale) (length (Get d)) cc gl =
    Done (cc\<lparr>clients := cs @ c\<lparr>input := \<lparr>input_id = Id c, move = wire_move i, direction = wire_direction i\<rparr>,
        last_sequence := sequence i, first_connection := False, remote_endpoint := remote\<rparr> # ds\<rparr>,
      gl\<lparr>game := Some (SetPlayerInput
        \<lparr>input_id = Id c, move = wire_move i, direction = wire_direction i\<rparr> g)\<rparr>)"
  using assms by (rule receive_handler_input)

theorem input_reaches_the_game_witness:
  "\<exists>cc'. receive_handler example_to_string example_view zero_datagram \<lparr>address = 1, port = 4000\<rparr>
     (Get (zero_datagram\<lparr>version := 101, payload := [0x41]\<rparr>) @ [9, 9])
     (length (Get (zero_datagram\<lparr>version := 101, payload := [0x41]\<rparr>))) example_comm example_gl =
   Done (cc', example_gl\<lparr>game := Some (SetPlayerInput \<lparr>input_id = 5, move = True, direction = Fin 0\<rparr>
     (Game 100 origin (Fin 1000)))\<rparr>)"
  using input_reaches_the_game [where cs = "[]" and ds = "[]" and i = example_input
      and c = "example_client\<lparr>input := default_input\<lparr>input_id := 5\<rparr>\<rparr>" and cc = example_comm
      and to_string = example_to_string and remote = "\<lparr>address = 1, port = 4000\<rparr>"
      and d = "zero_datagram\<lparr>version := 101, payload := [0x41]\<rparr>" and get_input = example_view
      and gl = example_gl and g = "Game 100 origin (Fin 1000)" and d0 = zero_datagram and stale = "[9, 9]"]
  by (simp add: example_comm_def example_client_def own_input_def example_to_string_def
      zero_datagram_def example_view_def example_input_def example_gl_def NewGame_def)

section \<open>The running process\<close>

text \<open>What has been sent to the main process, and when.\<close>

definition message_of_id :: "'a environment \<Rightarrow> datagram \<Rightarrow> settings \<Rightarrow> u8 list" where
  "message_of_id env d0 st = TransmitGameId (env_encode_id env) d0 (settings_game_id st)"

definition message_of_end :: "'a environment \<Rightarrow> datagram \<Rightarrow> u8 list" where
  "message_of_end env d0 = SendGameFinished (env_encode_end env) d0"

lemma main_messages:
  assumes "main_start env st d0 now = Some p0" "process_reachable env d0 p0 p"
  shows "main_game_id p = settings_game_id st \<and> (socket_connected p \<longleftrightarrow> to_main p \<noteq> []) \<and>
    (tcp_at p = Tcp_Connecting \<longrightarrow> \<not> socket_connected p) \<and>
    to_main p \<in> {[], [message_of_id env d0 st], [message_of_id env d0 st, message_of_end env d0]} \<and>
    (1 < length (to_main p) \<longrightarrow> main_at p \<noteq> Waiting_Loop)"
  using assms(2)
proof induction
  case start
  show ?case using assms(1) by (auto simp: main_start_def)
next
  case (step p p')
  from step.hyps(2) step.IH show ?case
    by (cases rule: process_step.cases)
      (auto simp: message_of_id_def message_of_end_def after_flush_def split: if_splits)
qed



text \<open>
  C2. \<open>main\<close> announces the end only of a decided game: the main process is sent nothing, or the
  game id, or the game id and then, once, the end of the game. When \<open>main\<close> has left its loop, and so
  whenever the end has been sent, the game thread has ended, a team has reached the points to win,
  and \<open>StopGame\<close>, which the destructor of the game logic calls, returns at once.
\<close>

theorem main_announces_a_decided_game:
  assumes "main_start env st d0 now = Some p0" "process_reachable env d0 p0 p"
  shows "to_main p \<in> {[], [message_of_id env d0 st], [message_of_id env d0 st, message_of_end env d0]} \<and>
    (main_at p \<noteq> Waiting_Loop \<or> 1 < length (to_main p) \<longrightarrow>
      (\<exists>g. game (process_logic p) = Some g \<and> (RedTeamWon g \<or> BlueTeamWon g)) \<and>
      \<not> Running (process_logic p) \<and> StopGame_join (StopGame_request (process_logic p)) \<noteq> None)"
proof -
  have "(\<exists>g. game (process_logic p) = Some g \<and> (RedTeamWon g \<or> BlueTeamWon g)) \<and>
      \<not> Running (process_logic p) \<and> StopGame_join (StopGame_request (process_logic p)) \<noteq> None"
    if "main_at p \<noteq> Waiting_Loop"
    using process_reachable_inv [OF assms(2) main_start_inv [OF assms(1)]] that
    by (auto simp: process_inv_def game_ok_def logic_inv_def active_def Running_def won_def
        StopGame_join_def StopGame_request_def)
  then show ?thesis using main_messages [OF assms] by blast
qed

lemma example_end: "\<exists>p0 p. main_start example_env example_settings zero_datagram 0 = Some p0 \<and>
    process_reachable example_env zero_datagram p0 p \<and> main_at p = Sent_Finished \<and> length (to_main p) = 2"
proof -
  obtain p0 gl g where p0: "main_start example_env example_settings zero_datagram 0 = Some p0"
    "process_logic p0 = gl" "game gl = Some g" "game_inv g" "won g" "game_thread gl = Joinable At_Tick"
    "tcp_at p0 = Tcp_Connecting" "main_at p0 = Waiting_Loop" "to_main p0 = []"
    by (rule example_start)
  let ?p = "p0\<lparr>tcp_at := Tcp_Waiting, socket_connected := True, to_main := to_main p0 @
    [TransmitGameId (env_encode_id example_env) zero_datagram (main_game_id p0)]\<rparr>"
  obtain gl' where run: "run_thread (replicate 6 (1, Fin 0, Fin 0)) (process_logic ?p) = Some gl'" "\<not> Running gl'"
    using run_thread_decided [OF p0(3-6), of "replicate 6 (1, Fin 0, Fin 0)"] p0(2) by auto
  let ?q = "?p\<lparr>process_logic := gl'\<rparr>"
  have "process_reachable example_env zero_datagram p0 ?q"
    by (rule process_reachable_trans [OF run_thread_process [OF run(1)]
        process_reachable.step [OF process_reachable.start process_step.tcp_connect [OF p0(7)]]])
  moreover have "process_step example_env zero_datagram ?q (?q\<lparr>main_at := Sent_Finished, to_main := to_main ?q @
      (if socket_connected ?q then [SendGameFinished (env_encode_end example_env) zero_datagram] else [])\<rparr>)"
    by (rule process_step.main_finished) (use p0(8) run(2) in auto)
  ultimately have "process_reachable example_env zero_datagram p0 (?q\<lparr>main_at := Sent_Finished, to_main := to_main ?q @
      (if socket_connected ?q then [SendGameFinished (env_encode_end example_env) zero_datagram] else [])\<rparr>)"
    by (rule process_reachable.step)
  with p0(1,9) show ?thesis by fastforce
qed

theorem main_announces_a_decided_game_witness:
  "\<exists>p :: nat process. to_main p = [TransmitGameId (\<lambda>n. [2]) zero_datagram 0, SendGameFinished (\<lambda>b. [3]) zero_datagram] \<and>
     \<not> Running (process_logic p)"
proof -
  from example_end obtain p0 p where
    p: "main_start example_env example_settings zero_datagram 0 = Some p0"
      "process_reachable example_env zero_datagram p0 p" "main_at p = Sent_Finished" "length (to_main p) = 2"
    by blast
  from main_announces_a_decided_game [OF p(1,2)] p(3,4) show ?thesis
    by (intro exI [of _ p]) (auto simp: example_env_def example_settings_def SubProcessSettings_def
        message_of_id_def message_of_end_def)
qed



text \<open>
  C21. Nobody scores over the network: a step of the process in which the game thread does not move,
  whatever arrives by UDP or TCP, leaves the scores of both teams and the boxes on the map.
\<close>

theorem only_the_game_thread_scores:
  assumes "main_start env st d0 now = Some p0" "process_reachable env d0 p0 p"
    "process_step env d0 p p'" "game_thread (process_logic p') = game_thread (process_logic p)"
    "game (process_logic p) = Some g"
  shows "\<exists>g'. game (process_logic p') = Some g' \<and> Score (red_team g') = Score (red_team g) \<and>
    Score (blue_team g') = Score (blue_team g) \<and> point_boxes g' = point_boxes g"
proof -
  have "clients_ok (process_comm p)"
    using process_reachable_inv [OF assms(2) main_start_inv [OF assms(1)]] by (simp add: process_inv_def)
  with assms(3) show ?thesis
  proof (cases rule: process_step_logic)
    case (thread now distance angle)
    from thread_step_moves [OF thread(1)] assms(4) show ?thesis by simp
  next
    case network
    then obtain ops where "list_all from_network ops"
      "process_logic p' = (process_logic p)\<lparr>game := map_option (play ops) (game (process_logic p))\<rparr>"
      unfolding plays_def by blast
    with assms(5) play_from_network_scores [of ops g] show ?thesis by simp
  qed
qed

theorem only_the_game_thread_scores_witness:
  "\<exists>p0 p g. main_start example_env example_settings zero_datagram 0 = Some p0 \<and>
     process_step example_env zero_datagram p0 p \<and> game (process_logic p0) = Some g \<and>
     (\<exists>g'. game (process_logic p) = Some g' \<and> point_boxes g' = point_boxes g)"
proof -
  obtain p0 gl g where p0: "main_start example_env example_settings zero_datagram 0 = Some p0"
    "process_logic p0 = gl" "game gl = Some g" "tcp_at p0 = Tcp_Connecting"
    by (rule example_start)
  from process_step.tcp_ends [of p0 example_env zero_datagram] p0(4)
  have step: "process_step example_env zero_datagram p0 (p0\<lparr>tcp_at := Tcp_Ended\<rparr>)" by simp
  from only_the_game_thread_scores [OF p0(1) process_reachable.start step _, of g] p0 step show ?thesis by auto
qed


text \<open>The example with its one player.\<close>

lemma example_joined:
  obtains p0 p u g where "main_start example_env example_settings zero_datagram 0 = Some p0"
    "process_reachable example_env zero_datagram p0 p" "udp_at p = Udp_Waiting" "tcp_at p = Tcp_Waiting"
    "game_thread (process_logic p) = Joinable At_Tick" "clients (process_comm p) = [u]"
    "Id u = 5" "Ip_v4 u = ''10.0.0.1''" "last_sequence u = 0" "game (process_logic p) = Some g"
proof -
  obtain p0 gl g where p0: "main_start example_env example_settings zero_datagram 0 = Some p0"
    "process_logic p0 = gl" "game gl = Some g" "game_thread gl = Joinable At_Tick"
    "process_comm p0 = AssignGameLogic ClientCommunication" "main_stream p0 = new_stream zero_datagram"
    "tcp_at p0 = Tcp_Connecting" "udp_at p0 = Udp_Waiting"
    by (rule example_start)
  let ?a = "p0\<lparr>tcp_at := Tcp_Waiting, socket_connected := True,
      to_main := to_main p0 @ [TransmitGameId (env_encode_id example_env) zero_datagram (main_game_id p0)]\<rparr>"
  have a: "process_reachable example_env zero_datagram p0 ?a"
    by (rule process_reachable.step [OF process_reachable.start process_step.tcp_connect [OF p0(7)]])
  from example_handled [of ?a] p0(5,6) obtain s' st u where
    h: "main_receive_handler (handler example_env) (Get example_players @ [7]) (main_stream ?a) (shared_of ?a) = Done (s', st)"
      "clients (the (comm st)) = [u]" "Id u = 5" "Ip_v4 u = ''10.0.0.1''" "last_sequence u = 0"
      "logic st = Some (Logic_AddPlayer (Fin 0) (Fin 0) (client_of (example_wire 5)) True (process_logic ?a))" by auto
  let ?p = "(with_shared st ?a)\<lparr>main_stream := s'\<rparr>"
  have "process_reachable example_env zero_datagram p0 ?p"
    by (rule process_reachable_trans [OF data_steps [OF _ h(1)] a]) simp
  then show ?thesis
    by (rule that [OF p0(1), of ?p u]) (use p0 h in \<open>simp_all add: with_shared_def Logic_AddPlayer_def\<close>)
qed


end
